(* ===== verification/Prelude.thy ===== *)
theory Prelude
  imports Main "HOL-Library.Sublist"
begin

text \<open>
  What every component shares: the collections of rewrite rules, the result type of a fallible
  Go function, and lemmas on lists and options that are not in the library in this form.
\<close>

section \<open>Collections\<close>

text \<open>
  \<open>go_simps\<close> collects the characteristic equations of the standard-library functions,
  \<open>step_simps\<close> the equations that run an effectful program one statement at a time, and
  \<open>keeps_intro\<close> the rules that push an invariant through a program.
\<close>

named_theorems go_simps
named_theorems step_simps
named_theorems keeps_intro

section \<open>Results\<close>

text \<open>
  A Go function that returns \<open>(value, error)\<close> returns \<open>Inl\<close> the error or \<open>Inr\<close> the value.
  The error is a string where the code builds it with \<open>errors.New\<close>.
\<close>

type_synonym 'a result = "string + 'a"

definition is_ok :: "'e + 'a \<Rightarrow> bool" where
  "is_ok r = (case r of Inl _ \<Rightarrow> False | Inr _ \<Rightarrow> True)"

lemma is_ok_simps [simp]: "is_ok (Inr x)" "\<not> is_ok (Inl e)"
  by (simp_all add: is_ok_def)

lemma is_ok_iff: "is_ok r \<longleftrightarrow> (\<exists>x. r = Inr x)"
  by (cases r) auto

lemma map_sum_result [simp]: "map_sum f id r = Inr y \<longleftrightarrow> r = Inr y" "map_sum f id r = Inl e \<longleftrightarrow> (\<exists>e'. r = Inl e' \<and> e = f e')"
  by (cases r; auto)+

section \<open>Lists\<close>

lemma find_None_iff_ball: "find P xs = None \<longleftrightarrow> (\<forall>x \<in> set xs. \<not> P x)"
  by (auto simp: find_None_iff)

lemma find_SomeD: "find P xs = Some x \<Longrightarrow> x \<in> set xs \<and> P x"
  by (induction xs) (auto split: if_splits)

lemma find_Some_unique:
  assumes "x \<in> set xs" and "P x" and "\<And>y. y \<in> set xs \<Longrightarrow> P y \<Longrightarrow> y = x"
  shows "find P xs = Some x"
proof (cases "find P xs")
  case None
  with assms(1,2) show ?thesis by (simp add: find_None_iff)
next
  case (Some y)
  then have "y \<in> set xs \<and> P y" by (rule find_SomeD)
  with assms(3) have "y = x" by blast
  with Some show ?thesis by simp
qed

lemma find_append: "find P (xs @ ys) = (case find P xs of None \<Rightarrow> find P ys | Some x \<Rightarrow> Some x)"
  by (induction xs) auto

lemma list_all2_member: "list_all2 P xs ys \<Longrightarrow> x \<in> set xs \<Longrightarrow> \<exists>y \<in> set ys. P x y"
  by (induction rule: list_all2_induct) auto

lemma distinct_map_filter: "distinct (map f xs) \<Longrightarrow> distinct (map f (filter P xs))"
  by (induction xs) auto

lemma distinct_map_same:
  assumes "\<And>x. x \<in> set xs \<Longrightarrow> k (f x) = k x"
  shows "map k (map f xs) = map k xs"
  using assms by (induction xs) auto

lemma distinct_mapD:
  "distinct (map f xs) \<Longrightarrow> x \<in> set xs \<Longrightarrow> y \<in> set xs \<Longrightarrow> f x = f y \<Longrightarrow> x = y"
  by (auto simp: distinct_map inj_on_def)

lemma takeWhile_all_neq: "c \<notin> set (takeWhile (\<lambda>x. x \<noteq> c) s)"
  using set_takeWhileD by fastforce

lemma dropWhile_eq_ConsD: "dropWhile P s = c # t \<Longrightarrow> \<not> P c"
  by (induction s) (auto split: if_splits)

lemma replicate_numeral_unfold: "replicate (numeral k) x = x # replicate (pred_numeral k) x"
  by (simp add: numeral_eq_Suc)

section \<open>Arithmetic\<close>

lemma div_range: "(n::nat) div numeral k = q \<longleftrightarrow> q * numeral k \<le> n \<and> n \<le> q * numeral k + pred_numeral k"
proof -
  have k: "numeral k = Suc (pred_numeral k)" by (rule numeral_eq_Suc)
  have "n div d = q \<longleftrightarrow> q * d \<le> n \<and> n < d + q * d" if "0 < d" for d
    using that dividend_less_div_times [of d n] times_div_less_eq_dividend [of n d]
    by (auto intro!: div_nat_eqI simp: mult.commute)
  moreover have "n < numeral k + m \<longleftrightarrow> n \<le> m + pred_numeral k" for m
    using k by linarith
  ultimately show ?thesis by simp
qed

lemma foldl_digits_append:
  "foldl (\<lambda>n d. b * n + d) (a :: nat) (xs @ ys) = foldl (\<lambda>n d. b * n + d) (foldl (\<lambda>n d. b * n + d) a xs) ys"
  by simp

text \<open>A set of intervals.\<close>

definition in_ranges :: "(nat \<times> nat) list \<Rightarrow> nat \<Rightarrow> bool" where
 "in_ranges rs n \<longleftrightarrow> list_ex (\<lambda>(lo, hi). lo \<le> n \<and> n \<le> hi) rs"

lemma in_rangesI: "(lo, hi) \<in> set rs \<Longrightarrow> lo \<le> n \<Longrightarrow> n \<le> hi \<Longrightarrow> in_ranges rs n"
  by (auto simp: in_ranges_def list_ex_iff)

end
