(* ===== verification/Go_Strings.thy ===== *)
theory Go_Strings
  imports Prelude
begin

text \<open>
  Go's \<open>strings\<close> and \<open>strconv\<close> packages, as far as the program calls them. A Go string is
  a sequence of bytes, and so is an Isabelle \<open>string\<close>: one \<open>char\<close> is one byte.
  \<open>TrimSpace\<close> and \<open>Fields\<close> recognise every code point of Unicode's White_Space property in
  its UTF-8 encoding. \<open>ToLower\<close> and \<open>EqualFold\<close> map the letters A to Z and leave the bytes
  from 0x80 on unchanged: the Unicode case tables are not modelled.
\<close>

section \<open>Characters\<close>

definition code :: "char \<Rightarrow> nat" where
  "code c = of_char c"

definition is_digit :: "char \<Rightarrow> bool" where
  "is_digit c \<longleftrightarrow> 48 \<le> code c \<and> code c \<le> 57"

definition is_upper :: "char \<Rightarrow> bool" where
  "is_upper c \<longleftrightarrow> 65 \<le> code c \<and> code c \<le> 90"

definition is_lower :: "char \<Rightarrow> bool" where
  "is_lower c \<longleftrightarrow> 97 \<le> code c \<and> code c \<le> 122"

definition is_alnum :: "char \<Rightarrow> bool" where
  "is_alnum c \<longleftrightarrow> is_digit c \<or> is_upper c \<or> is_lower c"

definition is_hex :: "char \<Rightarrow> bool" where
  "is_hex c \<longleftrightarrow> is_digit c \<or> 97 \<le> code c \<and> code c \<le> 102 \<or> 65 \<le> code c \<and> code c \<le> 70"

definition unhex :: "char \<Rightarrow> nat" where
  "unhex c = (if is_digit c then code c - 48
              else if 97 \<le> code c \<and> code c \<le> 102 then code c - 87
              else if 65 \<le> code c \<and> code c \<le> 70 then code c - 55 else 0)"

definition lower_char :: "char \<Rightarrow> char" where
  "lower_char c = (if is_upper c then char_of (code c + 32) else c)"

lemma code_less_256 [simp]: "code c < 256"
  by (simp add: code_def)

lemma code_inject [simp]: "code c = code d \<longleftrightarrow> c = d"
  by (simp add: code_def)

lemma code_char_of: "n < 256 \<Longrightarrow> code (char_of n) = n"
  by (simp add: code_def)

lemma char_of_code [simp]: "char_of (code c) = c"
  by (simp add: code_def)

lemma code_lower_char: "code (lower_char c) = (if is_upper c then code c + 32 else code c)"
  by (simp add: lower_char_def code_char_of is_upper_def)

lemma lower_char_not_upper [simp]: "\<not> is_upper (lower_char c)"
  by (auto simp: is_upper_def code_lower_char)

lemma lower_char_id: "\<not> is_upper c \<Longrightarrow> lower_char c = c"
  by (simp add: lower_char_def)

lemma lower_char_idem [simp]: "lower_char (lower_char c) = lower_char c"
  by (simp add: lower_char_id)

lemma lower_char_eq_iff:
  assumes "\<not> is_upper d" and "\<not> is_lower d"
  shows "lower_char c = d \<longleftrightarrow> c = d"
proof (cases "is_upper c")
  case True
  then have "is_lower (lower_char c)"
    by (simp add: is_lower_def code_lower_char is_upper_def)
  with True assms show ?thesis by auto
next
  case False
  then show ?thesis by (simp add: lower_char_id)
qed

section \<open>Case, prefixes, suffixes\<close>

definition ToLower :: "string \<Rightarrow> string" where
  "ToLower s = map lower_char s"

definition EqualFold :: "string \<Rightarrow> string \<Rightarrow> bool" where
  "EqualFold s t \<longleftrightarrow> ToLower s = ToLower t"

definition HasPrefix :: "string \<Rightarrow> string \<Rightarrow> bool" where
  "HasPrefix s p \<longleftrightarrow> take (length p) s = p"

definition HasSuffix :: "string \<Rightarrow> string \<Rightarrow> bool" where
  "HasSuffix s p \<longleftrightarrow> length p \<le> length s \<and> drop (length s - length p) s = p"

definition TrimPrefix :: "string \<Rightarrow> string \<Rightarrow> string" where
  "TrimPrefix s p = (if HasPrefix s p then drop (length p) s else s)"

definition TrimSuffix :: "string \<Rightarrow> string \<Rightarrow> string" where
  "TrimSuffix s p = (if HasSuffix s p then take (length s - length p) s else s)"

definition Contains :: "string \<Rightarrow> string \<Rightarrow> bool" where
  "Contains s p \<longleftrightarrow> list_ex (\<lambda>t. HasPrefix t p) (suffixes s)"

definition ContainsAny :: "string \<Rightarrow> string \<Rightarrow> bool" where
  "ContainsAny s chars \<longleftrightarrow> list_ex (\<lambda>c. c \<in> set chars) s"

text \<open>\<open>Index\<close> and \<open>LastIndex\<close> return the position as an option, where Go returns -1.\<close>

fun Index :: "string \<Rightarrow> string \<Rightarrow> nat option" where
  "Index [] p = (if p = [] then Some 0 else None)"
| "Index (c # s) p = (if HasPrefix (c # s) p then Some 0 else map_option Suc (Index s p))"

text \<open>
  \<open>Cut s c\<close> is Go's \<open>strings.Cut\<close> for a one-byte separator: the part before the first \<open>c\<close>,
  the part after it and whether \<open>c\<close> was there. \<open>cut_last\<close> splits at the last one.
\<close>

definition Cut :: "string \<Rightarrow> char \<Rightarrow> string \<times> string \<times> bool" where
  "Cut s c = (takeWhile (\<lambda>x. x \<noteq> c) s, drop 1 (dropWhile (\<lambda>x. x \<noteq> c) s), c \<in> set s)"

definition cut_last :: "string \<Rightarrow> char \<Rightarrow> (string \<times> string) option" where
  "cut_last s c = (if c \<in> set s
     then Some (rev (drop 1 (dropWhile (\<lambda>x. x \<noteq> c) (rev s))), rev (takeWhile (\<lambda>x. x \<noteq> c) (rev s)))
     else None)"

fun Split :: "string \<Rightarrow> char \<Rightarrow> string list" where
  "Split [] c = [[]]"
| "Split (x # s) c = (if x = c then [] # Split s c
     else (case Split s c of [] \<Rightarrow> [[x]] | p # ps \<Rightarrow> (x # p) # ps))"

fun Join :: "string list \<Rightarrow> string \<Rightarrow> string" where
  "Join [] sep = []"
| "Join [p] sep = p"
| "Join (p # q # ps) sep = p @ sep @ Join (q # ps) sep"

text \<open>\<open>ReplaceAll\<close> for a nonempty pattern; the fuel is the length of the string.\<close>

fun replace_aux :: "nat \<Rightarrow> string \<Rightarrow> string \<Rightarrow> string \<Rightarrow> string" where
  "replace_aux n [] old new = []"
| "replace_aux 0 (c # s) old new = c # s"
| "replace_aux (Suc n) (c # s) old new =
     (if HasPrefix (c # s) old \<and> old \<noteq> [] then new @ replace_aux n (drop (length old) (c # s)) old new
      else c # replace_aux n s old new)"

definition ReplaceAll :: "string \<Rightarrow> string \<Rightarrow> string \<Rightarrow> string" where
  "ReplaceAll s old new = replace_aux (length s) s old new"

section \<open>Quoting\<close>

text \<open>
  The verb \<open>%q\<close> of \<open>fmt\<close>: double quotes around the text, a backslash before a quote or a backslash,
  the named control characters as their escapes and every other control character in hexadecimal.
  Bytes from 128 up are taken to be part of a printable UTF-8 sequence and stay as they are.
\<close>

definition quote_char :: "char \<Rightarrow> string" where
  "quote_char c =
    (if code c = 34 \<or> code c = 92 then [CHR 0x5C, c]
     else if code c = 7 then [CHR 0x5C, CHR ''a'']
     else if code c = 8 then [CHR 0x5C, CHR ''b'']
     else if code c = 9 then [CHR 0x5C, CHR ''t'']
     else if code c = 10 then [CHR 0x5C, CHR ''n'']
     else if code c = 11 then [CHR 0x5C, CHR ''v'']
     else if code c = 12 then [CHR 0x5C, CHR ''f'']
     else if code c = 13 then [CHR 0x5C, CHR ''r'']
     else if code c < 32 \<or> code c = 127 then [CHR 0x5C, CHR ''x'', ''0123456789abcdef'' ! (code c div 16), ''0123456789abcdef'' ! (code c mod 16)]
     else [c])"

definition Quote :: "string \<Rightarrow> string" where
  "Quote s = [CHR 0x22] @ concat (map quote_char s) @ [CHR 0x22]"

section \<open>White space\<close>

text \<open>
  \<open>unicode.IsSpace\<close>: the six ASCII characters U+0009 to U+000D and U+0020, and the UTF-8
  encodings of U+0085, U+00A0, U+1680, U+2000 to U+200A, U+2028, U+2029, U+202F, U+205F and
  U+3000.
\<close>

definition ascii_space :: "char \<Rightarrow> bool" where
  "ascii_space c \<longleftrightarrow> 9 \<le> code c \<and> code c \<le> 13 \<or> code c = 32"

definition wide_spaces :: "string list" where
  "wide_spaces =
    [[CHR 0xC2, CHR 0x85], [CHR 0xC2, CHR 0xA0], [CHR 0xE1, CHR 0x9A, CHR 0x80],
     [CHR 0xE2, CHR 0x80, CHR 0x80], [CHR 0xE2, CHR 0x80, CHR 0x81], [CHR 0xE2, CHR 0x80, CHR 0x82],
     [CHR 0xE2, CHR 0x80, CHR 0x83], [CHR 0xE2, CHR 0x80, CHR 0x84], [CHR 0xE2, CHR 0x80, CHR 0x85],
     [CHR 0xE2, CHR 0x80, CHR 0x86], [CHR 0xE2, CHR 0x80, CHR 0x87], [CHR 0xE2, CHR 0x80, CHR 0x88],
     [CHR 0xE2, CHR 0x80, CHR 0x89], [CHR 0xE2, CHR 0x80, CHR 0x8A], [CHR 0xE2, CHR 0x80, CHR 0xA8],
     [CHR 0xE2, CHR 0x80, CHR 0xA9], [CHR 0xE2, CHR 0x80, CHR 0xAF], [CHR 0xE2, CHR 0x81, CHR 0x9F],
     [CHR 0xE3, CHR 0x80, CHR 0x80]]"

text \<open>The number of bytes of the white space a string starts (ends) with; 0 if there is none.\<close>

definition lead_space :: "string \<Rightarrow> nat" where
  "lead_space s = (if s = [] then 0
     else if code (hd s) < 128 then (if ascii_space (hd s) then 1 else 0)
     else (case find (HasPrefix s) wide_spaces of None \<Rightarrow> 0 | Some r \<Rightarrow> length r))"

definition trail_space :: "string \<Rightarrow> nat" where
  "trail_space s = (if s = [] then 0
     else if code (last s) < 128 then (if ascii_space (last s) then 1 else 0)
     else (case find (HasSuffix s) wide_spaces of None \<Rightarrow> 0 | Some r \<Rightarrow> length r))"

lemma HasPrefix_length: "HasPrefix s p \<Longrightarrow> length p \<le> length s"
  by (metis HasPrefix_def length_take min.cobounded1)

lemma HasSuffix_length: "HasSuffix s p \<Longrightarrow> length p \<le> length s"
  by (simp add: HasSuffix_def)

lemma lead_space_le: "lead_space s \<le> length s"
  by (auto simp: lead_space_def Suc_le_eq split: option.split dest!: find_SomeD HasPrefix_length)

lemma trail_space_le: "trail_space s \<le> length s"
  by (auto simp: trail_space_def Suc_le_eq split: option.split dest!: find_SomeD HasSuffix_length)

function trim_left :: "string \<Rightarrow> string" where
  "trim_left s = (if lead_space s = 0 then s else trim_left (drop (lead_space s) s))"
  by pat_completeness auto
termination
proof (relation "measure length")
  fix s assume "lead_space s \<noteq> 0"
  then show "(drop (lead_space s) s, s) \<in> measure length"
    using lead_space_le [of s] by simp
qed simp

function trim_right :: "string \<Rightarrow> string" where
  "trim_right s = (if trail_space s = 0 then s else trim_right (take (length s - trail_space s) s))"
  by pat_completeness auto
termination
proof (relation "measure length")
  fix s assume "trail_space s \<noteq> 0"
  then show "(take (length s - trail_space s) s, s) \<in> measure length"
    using trail_space_le [of s] by simp
qed simp

declare trim_left.simps [simp del] trim_right.simps [simp del]

definition TrimSpace :: "string \<Rightarrow> string" where
  "TrimSpace s = trim_right (trim_left s)"

definition TrimRight :: "string \<Rightarrow> string \<Rightarrow> string" where
  "TrimRight s cutset = rev (dropWhile (\<lambda>c. c \<in> set cutset) (rev s))"

text \<open>\<open>Fields\<close>: the maximal runs without white space. The accumulator is the current field, reversed.\<close>

function fields_aux :: "string \<Rightarrow> string \<Rightarrow> string list" where
  "fields_aux acc s =
     (if s = [] then (if acc = [] then [] else [rev acc])
      else if lead_space s = 0 then fields_aux (hd s # acc) (tl s)
      else (if acc = [] then [] else [rev acc]) @ fields_aux [] (drop (lead_space s) s))"
  by pat_completeness auto
termination
proof (relation "measure (length o snd)")
  fix acc s :: string assume "s \<noteq> []" "lead_space s = 0"
  then show "((hd s # acc, tl s), acc, s) \<in> measure (length o snd)" by simp
next
  fix acc s :: string assume "s \<noteq> []" "lead_space s \<noteq> 0"
  then show "(([], drop (lead_space s) s), acc, s) \<in> measure (length o snd)" by simp
qed simp

declare fields_aux.simps [simp del]

definition Fields :: "string \<Rightarrow> string list" where
  "Fields s = fields_aux [] s"

section \<open>Numbers\<close>

text \<open>\<open>strconv.Itoa\<close> of a natural number.\<close>

fun itoa :: "nat \<Rightarrow> string" where
  "itoa n = (if n < 10 then [char_of (48 + n)] else itoa (n div 10) @ [char_of (48 + n mod 10)])"

declare itoa.simps [simp del]

definition digits_value :: "string \<Rightarrow> nat" where
  "digits_value s = foldl (\<lambda>n c. 10 * n + unhex c) 0 s"

text \<open>
  \<open>strconv.Atoi\<close> on 64-bit integers: an optional sign, at least one digit, and the value in
  range. \<open>ParseUint s 10 bits\<close> takes no sign.
\<close>

definition Atoi :: "string \<Rightarrow> int option" where
  "Atoi s = (let neg = HasPrefix s ''-''; d = (if HasPrefix s ''-'' \<or> HasPrefix s ''+'' then tl s else s)
     in if d = [] \<or> \<not> list_all is_digit d then None
        else if neg then (if digits_value d \<le> 2 ^ 63 then Some (- int (digits_value d)) else None)
        else if digits_value d < 2 ^ 63 then Some (int (digits_value d)) else None)"

definition ParseUint :: "string \<Rightarrow> nat \<Rightarrow> nat option" where
  "ParseUint s bits = (if s = [] \<or> \<not> list_all is_digit s then None
     else if digits_value s < 2 ^ bits then Some (digits_value s) else None)"

section \<open>Laws\<close>

lemma HasPrefix_iff: "HasPrefix s p \<longleftrightarrow> (\<exists>t. s = p @ t)"
  by (metis HasPrefix_def append_eq_conv_conj append_take_drop_id)

lemma HasSuffix_iff: "HasSuffix s p \<longleftrightarrow> (\<exists>t. s = t @ p)"
proof
  assume "HasSuffix s p"
  then have "s = take (length s - length p) s @ p"
    by (metis HasSuffix_def append_take_drop_id)
  then show "\<exists>t. s = t @ p" ..
qed (auto simp: HasSuffix_def)

lemma TrimSuffix_append [simp]: "TrimSuffix (s @ p) p = s"
  by (simp add: TrimSuffix_def HasSuffix_def)

lemma TrimPrefix_append [simp]: "TrimPrefix (p @ s) p = s"
  by (simp add: TrimPrefix_def HasPrefix_def)

lemma TrimSuffix_cases: "TrimSuffix s p = s \<or> s = TrimSuffix s p @ p"
  by (metis HasSuffix_iff TrimSuffix_append TrimSuffix_def)

lemma Contains_iff: "Contains s p \<longleftrightarrow> (\<exists>a b. s = a @ p @ b)"
  by (auto simp: Contains_def list_ex_iff HasPrefix_iff suffix_def Bex_def)

lemma ContainsAny_iff: "ContainsAny s cs \<longleftrightarrow> (\<exists>c \<in> set s. c \<in> set cs)"
  by (auto simp: ContainsAny_def list_ex_iff)

lemma ToLower_idem [simp]: "ToLower (ToLower s) = ToLower s"
  by (simp add: ToLower_def)

lemma ToLower_append [simp]: "ToLower (s @ t) = ToLower s @ ToLower t"
  by (simp add: ToLower_def)

lemma ToLower_Nil [simp]: "ToLower [] = []" "ToLower s = [] \<longleftrightarrow> s = []"
  by (simp_all add: ToLower_def)

lemma length_ToLower [simp]: "length (ToLower s) = length s"
  by (simp add: ToLower_def)

lemma ToLower_id: "\<forall>c \<in> set s. \<not> is_upper c \<Longrightarrow> ToLower s = s"
  by (induction s) (auto simp: ToLower_def lower_char_id)

lemma EqualFold_refl [simp]: "EqualFold s s"
  by (simp add: EqualFold_def)

lemma Cut_append: "c \<notin> set a \<Longrightarrow> Cut (a @ c # b) c = (a, b, True)"
  by (induction a) (auto simp: Cut_def)

lemma Cut_none: "c \<notin> set s \<Longrightarrow> Cut s c = (s, [], False)"
  by (induction s) (auto simp: Cut_def)

lemma CutD:
  assumes "Cut s c = (a, b, True)"
  shows "s = a @ c # b \<and> c \<notin> set a"
proof -
  from assms have "c \<in> set s" by (simp add: Cut_def)
  then obtain x y where s: "s = x @ c # y" and "c \<notin> set x"
    by (meson split_list_first)
  with assms show ?thesis by (simp add: Cut_append)
qed

lemma cut_last_append:
  assumes "c \<notin> set b" shows "cut_last (a @ c # b) c = Some (a, b)"
proof -
  have "Cut (rev (a @ c # b)) c = (rev b, rev a, True)"
    using Cut_append [of c "rev b" "rev a"] assms by simp
  then show ?thesis by (simp add: cut_last_def Cut_def)
qed

lemma cut_last_None_iff: "cut_last s c = None \<longleftrightarrow> c \<notin> set s"
  by (simp add: cut_last_def)

lemma cut_last_SomeD:
  assumes "cut_last s c = Some (a, b)"
  shows "s = a @ c # b \<and> c \<notin> set b"
proof -
  from assms have "c \<in> set s" by (auto simp: cut_last_def split: if_splits)
  then obtain x y where s: "s = x @ c # y" and "c \<notin> set y"
    by (meson split_list_last)
  with assms show ?thesis by (simp add: cut_last_append)
qed

lemma Join_Cons: "ps \<noteq> [] \<Longrightarrow> Join (p # ps) sep = p @ sep @ Join ps sep"
  by (cases ps) auto

lemma Join_head: "Join ((x # p) # ps) sep = x # Join (p # ps) sep"
  by (cases ps) auto

lemma Split_not_Nil [simp]: "Split s c \<noteq> []"
  by (induction s) (auto split: list.splits)

lemma Split_none: "c \<notin> set s \<Longrightarrow> Split s c = [s]"
  by (induction s) auto

lemma Split_append: "c \<notin> set a \<Longrightarrow> Split (a @ c # b) c = a # Split b c"
  by (induction a) auto

lemma Join_Split: "Join (Split s c) [c] = s"
proof (induction s)
  case (Cons x s)
  then show ?case
    by (cases "Split s c") (auto simp: Join_Cons Join_head)
qed simp

lemma Split_Join:
  "ps \<noteq> [] \<Longrightarrow> \<forall>p \<in> set ps. c \<notin> set p \<Longrightarrow> Split (Join ps [c]) c = ps"
  by (induction ps "[c]" rule: Join.induct) (auto simp: Split_none Split_append)

lemma itoa_digits: "(\<forall>c \<in> set (itoa n). is_digit c) \<and> itoa n \<noteq> []"
proof (induction n rule: itoa.induct)
  case (1 n)
  have "is_digit (char_of (48 + n mod 10))" "n < 10 \<Longrightarrow> is_digit (char_of (48 + n))"
    by (simp_all add: is_digit_def code_char_of)
  with 1 show ?case by (subst (1 2) itoa.simps) auto
qed

lemma digits_value_append: "digits_value (s @ [c]) = 10 * digits_value s + unhex c"
  by (simp add: digits_value_def)

lemma digits_value_itoa [simp]: "digits_value (itoa n) = n"
proof (induction n rule: itoa.induct)
  case (1 n)
  then show ?case
    by (subst itoa.simps)
      (auto simp: digits_value_append digits_value_def unhex_def is_digit_def code_char_of)
qed

lemma itoa_no_sign: "\<not> HasPrefix (itoa n) ''-''" "\<not> HasPrefix (itoa n) ''+''"
  using itoa_digits [of n] by (auto simp: HasPrefix_iff is_digit_def code_def)

lemma Atoi_itoa: "n < 2 ^ 63 \<Longrightarrow> Atoi (itoa n) = Some (int n)"
  using itoa_digits [of n] by (simp add: Atoi_def itoa_no_sign list_all_iff)

lemma ParseUint_itoa: "n < 2 ^ bits \<Longrightarrow> ParseUint (itoa n) bits = Some n"
  using itoa_digits [of n] by (simp add: ParseUint_def list_all_iff)

lemma itoa_inject [simp]: "itoa m = itoa n \<longleftrightarrow> m = n"
  by (metis digits_value_itoa)

text \<open>Trimming twice changes nothing.\<close>

lemma trail_space_trim_right [simp]: "trail_space (trim_right s) = 0"
  by (induction s rule: trim_right.induct) (subst trim_right.simps, auto)

lemma trim_right_fix: "trail_space s = 0 \<Longrightarrow> trim_right s = s"
  by (subst trim_right.simps) simp

lemma lead_space_trim_left [simp]: "lead_space (trim_left s) = 0"
  by (induction s rule: trim_left.induct) (subst trim_left.simps, auto)

lemma trim_left_fix: "lead_space s = 0 \<Longrightarrow> trim_left s = s"
  by (subst trim_left.simps) simp

lemma trim_right_prefix: "\<exists>t. s = trim_right s @ t"
proof (induction s rule: trim_right.induct)
  case (1 s)
  then show ?case
    by (subst trim_right.simps) (auto, metis append.assoc append_take_drop_id)
qed

text \<open>Facts for evaluating closed terms.\<close>

lemmas char_eval = code_def is_digit_def is_upper_def is_lower_def is_alnum_def is_hex_def
  unhex_def lower_char_def char_of_def bit_Suc_0_iff ascii_space_def

lemmas str_eval = char_eval ToLower_def EqualFold_def HasPrefix_def HasSuffix_def TrimPrefix_def
  TrimSuffix_def Contains_def ContainsAny_def Cut_def cut_last_def ReplaceAll_def lead_space_def
  trail_space_def TrimSpace_def TrimRight_def Fields_def digits_value_def Atoi_def ParseUint_def
  trim_left.simps trim_right.simps fields_aux.simps itoa.simps

end
