(* ===== verification/Go_Netip.thy ===== *)
theory Go_Netip
  imports Go_Strings "HOL-Library.Word"
begin

text \<open>
  Go's \<open>net/netip\<close>: addresses as machine words, prefixes, their parsers and printers, and
  \<open>net.SplitHostPort\<close> and \<open>net.JoinHostPort\<close>. An IPv6 address carries its zone; the empty
  zone is an address without one.
\<close>

unbundle bit_operations_syntax

section \<open>Addresses\<close>

datatype addr = V4 "32 word" | V6 "128 word" string

fun Is4 :: "addr \<Rightarrow> bool" where
  "Is4 (V4 _) = True"
| "Is4 (V6 _ _) = False"

fun has_zone :: "addr \<Rightarrow> bool" where
  "has_zone (V4 _) = False"
| "has_zone (V6 _ z) = (z \<noteq> [])"

text \<open>\<open>Unmap\<close> turns an IPv4-mapped IPv6 address (::ffff:a.b.c.d) into the IPv4 address.\<close>

fun Is4In6 :: "addr \<Rightarrow> bool" where
  "Is4In6 (V4 _) = False"
| "Is4In6 (V6 w _) = (drop_bit 32 w = 0xffff)"

fun Unmap :: "addr \<Rightarrow> addr" where
  "Unmap (V4 w) = V4 w"
| "Unmap (V6 w z) = (if drop_bit 32 w = 0xffff then V4 (ucast w) else V6 w z)"

fun IsLoopback :: "addr \<Rightarrow> bool" where
  "IsLoopback (V4 w) = (drop_bit 24 w = 127)"
| "IsLoopback (V6 w _) = (w = 1)"

fun IsMulticast :: "addr \<Rightarrow> bool" where
  "IsMulticast (V4 w) = (drop_bit 28 w = 0xe)"
| "IsMulticast (V6 w _) = (drop_bit 120 w = 0xff)"

fun IsLinkLocalUnicast :: "addr \<Rightarrow> bool" where
  "IsLinkLocalUnicast (V4 w) = (drop_bit 16 w = 169 * 256 + 254)"
| "IsLinkLocalUnicast (V6 w _) = (drop_bit 118 w = 0x3fa)"

definition IsGlobalUnicast :: "addr \<Rightarrow> bool" where
  "IsGlobalUnicast a =
     (if a = V4 0 \<or> a = V4 0xffffffff then False
      else a \<noteq> V6 0 [] \<and> \<not> IsLoopback a \<and> \<not> IsMulticast a \<and> \<not> IsLinkLocalUnicast a)"

section \<open>Parsing addresses\<close>

text \<open>
  A dotted quad: four fields of decimal digits, each without a leading zero and at most 255.
\<close>

definition v4_field :: "string \<Rightarrow> nat option" where
  "v4_field f = (if f = [] \<or> \<not> list_all is_digit f \<or> (length f > 1 \<and> hd f = CHR ''0'') \<or> digits_value f > 255
     then None else Some (digits_value f))"

definition v4_fields :: "string \<Rightarrow> nat list option" where
  "v4_fields s = (let fs = map v4_field (Split s CHR ''.'')
     in if length fs = 4 \<and> None \<notin> set fs then Some (map the fs) else None)"

definition v4_word :: "nat list \<Rightarrow> 32 word" where
  "v4_word fs = of_nat (foldl (\<lambda>n f. 256 * n + f) 0 fs)"

definition parse_v4 :: "string \<Rightarrow> addr option" where
  "parse_v4 s = map_option (\<lambda>fs. V4 (v4_word fs)) (v4_fields s)"

definition hex_value :: "string \<Rightarrow> nat" where
  "hex_value s = foldl (\<lambda>n c. 16 * n + unhex c) 0 s"

text \<open>
  The groups of an IPv6 address: the groups read so far, where the ellipsis stands among them
  and what is left to read. A group is followed by a colon, by an embedded IPv4 address or by
  the end.
\<close>

function v6_groups :: "nat list \<Rightarrow> nat option \<Rightarrow> string \<Rightarrow> (nat list \<times> nat option \<times> string) option" where
  "v6_groups gs e s =
    (if 8 \<le> length gs then Some (gs, e, s)
     else let d = takeWhile is_hex s; r = dropWhile is_hex s; gs' = gs @ [hex_value d] in
       if d = [] \<or> 4 < length d then None
       else if r = [] then Some (gs', e, [])
       else if hd r = CHR ''.'' then
         (if e = None \<and> length gs \<noteq> 6 \<or> 8 < length gs + 2 then None
          else case v4_fields s of
            Some [a, b, c, d] \<Rightarrow> Some (gs @ [256 * a + b, 256 * c + d], e, [])
          | _ \<Rightarrow> None)
       else if hd r \<noteq> CHR '':'' \<or> tl r = [] then None
       else if hd (tl r) = CHR '':'' then
         (if e \<noteq> None then None
          else if tl (tl r) = [] then Some (gs', Some (length gs'), [])
          else v6_groups gs' (Some (length gs')) (tl (tl r)))
       else v6_groups gs' e (tl r))"
  by pat_completeness auto
termination by (relation "measure (\<lambda>(gs, e, s). 8 - length gs)") auto

declare v6_groups.simps [simp del]

definition v6_expand :: "nat list \<Rightarrow> nat option \<Rightarrow> nat list option" where
  "v6_expand gs e = (case e of
     None \<Rightarrow> if length gs = 8 then Some gs else None
   | Some k \<Rightarrow> if length gs < 8 then Some (take k gs @ replicate (8 - length gs) 0 @ drop k gs) else None)"

definition v6_word :: "nat list \<Rightarrow> 128 word" where
  "v6_word gs = of_nat (foldl (\<lambda>n g. 65536 * n + g) 0 gs)"

definition parse_v6 :: "string \<Rightarrow> addr option" where
  "parse_v6 str = (case Cut str CHR ''%'' of (s, zone, zoned) \<Rightarrow>
     if zoned \<and> zone = [] then None
     else if s = ''::'' then Some (V6 0 zone)
     else case (if HasPrefix s ''::'' then v6_groups [] (Some 0) (drop 2 s) else v6_groups [] None s) of
       Some (gs, e, []) \<Rightarrow> map_option (\<lambda>g. V6 (v6_word g) zone) (v6_expand gs e)
     | _ \<Rightarrow> None)"

definition ParseAddr :: "string \<Rightarrow> addr option" where
  "ParseAddr s = (case find (\<lambda>c. c \<in> {CHR ''.'', CHR '':'', CHR ''%''}) s of
     None \<Rightarrow> None
   | Some c \<Rightarrow> if c = CHR ''.'' then parse_v4 s else if c = CHR '':'' then parse_v6 s else None)"

section \<open>Printing addresses\<close>

definition v4_octets :: "32 word \<Rightarrow> nat list" where
  "v4_octets w = map (\<lambda>i. unat w div 256 ^ i mod 256) [3, 2, 1, 0]"

definition v4_string :: "32 word \<Rightarrow> string" where
  "v4_string w = Join (map itoa (v4_octets w)) ''.''"

definition hex_digit :: "nat \<Rightarrow> char" where
  "hex_digit n = (if n < 10 then char_of (48 + n) else char_of (87 + n))"

fun to_hex :: "nat \<Rightarrow> string" where
  "to_hex n = (if n < 16 then [hex_digit n] else to_hex (n div 16) @ [hex_digit (n mod 16)])"

declare to_hex.simps [simp del]

definition v6_parts :: "128 word \<Rightarrow> nat list" where
  "v6_parts w = map (\<lambda>i. unat w div 65536 ^ i mod 65536) [7, 6, 5, 4, 3, 2, 1, 0]"

text \<open>The first of the longest runs of at least two zero groups: its start and its end.\<close>

definition zero_run :: "nat list \<Rightarrow> nat \<times> nat" where
  "zero_run gs = foldl (\<lambda>(a, b) i.
     let j = i + length (takeWhile (\<lambda>g. g = 0) (drop i gs))
     in if 2 \<le> j - i \<and> b - a < j - i then (i, j) else (a, b)) (255, 255) [0..<8]"

definition v6_string :: "128 word \<Rightarrow> string" where
  "v6_string w = (let gs = v6_parts w; (a, b) = zero_run gs
     in if a = 255 then Join (map to_hex gs) '':''
        else Join (map to_hex (take a gs)) '':'' @ ''::'' @ Join (map to_hex (drop b gs)) '':'')"

fun addr_string :: "addr \<Rightarrow> string" where
  "addr_string (V4 w) = v4_string w"
| "addr_string (V6 w z) =
     (if drop_bit 32 w = 0xffff then ''::ffff:'' @ v4_string (ucast w) else v6_string w)
     @ (if z = [] then [] else ''%'' @ z)"

section \<open>Prefixes\<close>

datatype ip_prefix = Prefix addr nat

fun addr_bits :: "addr \<Rightarrow> nat" where
  "addr_bits (V4 _) = 32"
| "addr_bits (V6 _ _) = 128"

definition ParsePrefix :: "string \<Rightarrow> ip_prefix option" where
  "ParsePrefix s = (case cut_last s CHR ''/'' of
     None \<Rightarrow> None
   | Some (a, bits) \<Rightarrow> (case ParseAddr a of
       None \<Rightarrow> None
     | Some ip \<Rightarrow>
         if has_zone ip then None
         else if 1 < length bits \<and> \<not> (is_digit (hd bits) \<and> hd bits \<noteq> CHR ''0'') then None
         else (case Atoi bits of
           None \<Rightarrow> None
         | Some n \<Rightarrow> if n < 0 \<or> int (addr_bits ip) < n then None else Some (Prefix ip (nat n)))))"

fun prefix_contains :: "ip_prefix \<Rightarrow> addr \<Rightarrow> bool" where
  "prefix_contains (Prefix (V4 p) b) (V4 a) = (drop_bit (32 - b) (p XOR a) = 0)"
| "prefix_contains (Prefix (V6 p _) b) (V6 a z) = (z = [] \<and> drop_bit (128 - b) (p XOR a) = 0)"
| "prefix_contains _ _ = False"

fun Masked :: "ip_prefix \<Rightarrow> ip_prefix" where
  "Masked (Prefix (V4 p) b) = Prefix (V4 (push_bit (32 - b) (drop_bit (32 - b) p))) b"
| "Masked (Prefix (V6 p z) b) = Prefix (V6 (push_bit (128 - b) (drop_bit (128 - b) p)) []) b"

fun prefix_string :: "ip_prefix \<Rightarrow> string" where
  "prefix_string (Prefix a b) = addr_string a @ ''/'' @ itoa b"

section \<open>Host and port\<close>

text \<open>
  \<open>net.SplitHostPort\<close> splits at the last colon, takes a bracketed host apart and refuses a
  host with a further colon or stray brackets.
\<close>

definition SplitHostPort :: "string \<Rightarrow> (string \<times> string) option" where
  "SplitHostPort hp = (case cut_last hp CHR '':'' of
     None \<Rightarrow> None
   | Some (h, port) \<Rightarrow>
       if HasPrefix hp ''['' then
         (case Cut hp CHR '']'' of (a, rest, closed) \<Rightarrow>
            if \<not> closed then None
            else if rest = [] then None
            else if length a + 1 \<noteq> length h then None
            else let host = tl a in
              if CHR ''['' \<in> set host \<or> CHR ''['' \<in> set rest \<or> CHR '']'' \<in> set rest then None
              else Some (host, port))
       else if CHR '':'' \<in> set h then None
       else if CHR ''['' \<in> set hp \<or> CHR '']'' \<in> set hp then None
       else Some (h, port))"

definition JoinHostPort :: "string \<Rightarrow> string \<Rightarrow> string" where
  "JoinHostPort host port =
     (if CHR '':'' \<in> set host then ''['' @ host @ '']:'' @ port else host @ '':'' @ port)"

section \<open>Prefixes as arithmetic\<close>

lemma xor_0_iff: "x XOR y = 0 \<longleftrightarrow> x = (y :: 'a::len word)"
  by (auto simp: bit_eq_iff bit_xor_iff)

lemma drop_bit_eq_iff: "drop_bit n (x :: 'a::len word) = y \<longleftrightarrow> unat x div 2 ^ n = unat y"
  by (metis drop_bit_eq_div unat_drop_bit_eq unsigned_word_eqI)

lemma drop_bit_xor_0: "drop_bit n (x XOR y) = 0 \<longleftrightarrow> unat x div 2 ^ n = unat (y :: 'a::len word) div 2 ^ n"
proof -
  have "drop_bit n (x XOR y) = 0 \<longleftrightarrow> drop_bit n x = drop_bit n y"
    by (simp add: xor_0_iff)
  also have "\<dots> \<longleftrightarrow> unat x div 2 ^ n = unat y div 2 ^ n"
    by (simp add: drop_bit_eq_iff unat_drop_bit_eq flip: drop_bit_eq_div)
  finally show ?thesis .
qed

lemma prefix_contains_V4: "prefix_contains (Prefix (V4 p) b) (V4 a) \<longleftrightarrow> unat a div 2 ^ (32 - b) = unat p div 2 ^ (32 - b)"
  by (auto simp: drop_bit_xor_0 simp del: drop_bit_xor)

lemma prefix_contains_V6: "prefix_contains (Prefix (V6 p z) b) (V6 a z') \<longleftrightarrow> z' = [] \<and> unat a div 2 ^ (128 - b) = unat p div 2 ^ (128 - b)"
  by (auto simp: drop_bit_xor_0 simp del: drop_bit_xor)

lemma prefix_contains_mixed: "\<not> prefix_contains (Prefix (V4 p) b) (V6 a z)" "\<not> prefix_contains (Prefix (V6 q z) b) (V4 c)"
  by simp_all

lemmas prefix_contains_numeric = prefix_contains_V4 prefix_contains_V6 prefix_contains_mixed

text \<open>Facts for evaluating closed terms.\<close>

lemmas netip_eval = v4_field_def v4_fields_def v4_word_def parse_v4_def hex_value_def v6_groups.simps
  v6_expand_def v6_word_def parse_v6_def ParseAddr_def ParsePrefix_def replicate_numeral_unfold

end
