(* ===== verification/Go_Url.thy ===== *)
theory Go_Url
  imports Go_Netip
begin

text \<open>
  Go's \<open>net/url\<close> (as of Go 1.25.0, the version go.mod asks for): percent encoding per
  component, \<open>url.Parse\<close>, \<open>URL.String\<close>, \<open>Hostname\<close>, \<open>Port\<close>, \<open>EscapedPath\<close>,
  reference resolution and query parsing. A parse error is \<open>None\<close>: the program never looks at
  the message.
\<close>

section \<open>Percent encoding\<close>

datatype encoding = encodePath | encodePathSegment | encodeHost | encodeZone
  | encodeUserPassword | encodeQueryComponent | encodeFragment

definition shouldEscape :: "char \<Rightarrow> encoding \<Rightarrow> bool" where
  "shouldEscape c mode =
    (if is_alnum c then False
     else if mode \<in> {encodeHost, encodeZone} \<and> c \<in> set ''!$&()*+,;=:[]<>'' \<union> {CHR 0x27, CHR 0x22} then False
     else if c \<in> set ''-_.~'' then False
     else if c \<in> set ''$&+,/:;=?@'' then
       (case mode of
          encodePath \<Rightarrow> c = CHR ''?''
        | encodePathSegment \<Rightarrow> c \<in> set ''/;,?''
        | encodeUserPassword \<Rightarrow> c \<in> set ''@/?:''
        | encodeQueryComponent \<Rightarrow> True
        | encodeFragment \<Rightarrow> False
        | _ \<Rightarrow> True)
     else if mode = encodeFragment \<and> c \<in> set ''!()*'' then False
     else True)"

definition upper_hex :: "nat \<Rightarrow> char" where
  "upper_hex n = (if n < 10 then char_of (48 + n) else char_of (55 + n))"

definition pct :: "char \<Rightarrow> string" where
  "pct c = [CHR ''%'', upper_hex (code c div 16), upper_hex (code c mod 16)]"

definition escape_char :: "encoding \<Rightarrow> char \<Rightarrow> string" where
  "escape_char mode c =
    (if shouldEscape c mode
     then (if c = CHR '' '' \<and> mode = encodeQueryComponent then ''+'' else pct c)
     else [c])"

definition escape :: "string \<Rightarrow> encoding \<Rightarrow> string" where
  "escape s mode = concat (map (escape_char mode) s)"

text \<open>
  \<open>unescape\<close> refuses a malformed escape, in a host an escape of an ASCII byte other than
  \<open>%25\<close>, in a zone one that decodes to a byte a host could not hold, and in a host or zone a
  byte that would have to be escaped.
\<close>

fun unescape :: "string \<Rightarrow> encoding \<Rightarrow> string option" where
  "unescape [] mode = Some []"
| "unescape (c # s) mode =
    (if c = CHR ''%'' then
       (case s of
          a # b # t \<Rightarrow>
            if \<not> is_hex a \<or> \<not> is_hex b then None
            else if mode = encodeHost \<and> unhex a < 8 \<and> [a, b] \<noteq> ''25'' then None
            else if mode = encodeZone \<and> [a, b] \<noteq> ''25''
                 \<and> 16 * unhex a + unhex b \<noteq> 32
                 \<and> shouldEscape (char_of (16 * unhex a + unhex b)) encodeHost then None
            else map_option ((#) (char_of (16 * unhex a + unhex b))) (unescape t mode)
        | _ \<Rightarrow> None)
     else if c = CHR ''+'' \<and> mode = encodeQueryComponent
       then map_option ((#) CHR '' '') (unescape s mode)
     else if mode \<in> {encodeHost, encodeZone} \<and> code c < 128 \<and> shouldEscape c mode then None
     else map_option ((#) c) (unescape s mode))"

definition validEncoded :: "string \<Rightarrow> encoding \<Rightarrow> bool" where
  "validEncoded s mode \<longleftrightarrow>
    list_all (\<lambda>c. c \<in> set ''!$&()*+,;=:@[]%'' \<union> {CHR 0x27} \<or> \<not> shouldEscape c mode) s"

section \<open>URLs\<close>

datatype userinfo = User string | UserPassword string string

record url =
  u_scheme :: string
  u_opaque :: string
  u_user :: "userinfo option"
  u_host :: string
  u_path :: string
  u_rawpath :: string
  u_omithost :: bool
  u_forcequery :: bool
  u_rawquery :: string
  u_fragment :: string
  u_rawfragment :: string

definition empty_url :: url where
  "empty_url = \<lparr>u_scheme = [], u_opaque = [], u_user = None, u_host = [], u_path = [], u_rawpath = [],
     u_omithost = False, u_forcequery = False, u_rawquery = [], u_fragment = [], u_rawfragment = []\<rparr>"

definition validOptionalPort :: "string \<Rightarrow> bool" where
  "validOptionalPort p \<longleftrightarrow> p = [] \<or> hd p = CHR '':'' \<and> list_all is_digit (tl p)"

definition splitHostPort :: "string \<Rightarrow> string \<times> string" where
  "splitHostPort hp =
    (let (host, port) = (case cut_last hp CHR '':'' of
           Some (h, p) \<Rightarrow> if validOptionalPort (CHR '':'' # p) then (h, p) else (hp, [])
         | None \<Rightarrow> (hp, []))
     in (if HasPrefix host ''['' \<and> HasSuffix host '']'' then butlast (tl host) else host, port))"

definition Hostname :: "url \<Rightarrow> string" where
  "Hostname u = fst (splitHostPort (u_host u))"

definition Port :: "url \<Rightarrow> string" where
  "Port u = snd (splitHostPort (u_host u))"

definition IsAbs :: "url \<Rightarrow> bool" where
  "IsAbs u \<longleftrightarrow> u_scheme u \<noteq> []"

definition EscapedPath :: "url \<Rightarrow> string" where
  "EscapedPath u =
    (if u_rawpath u \<noteq> [] \<and> validEncoded (u_rawpath u) encodePath
        \<and> unescape (u_rawpath u) encodePath = Some (u_path u) then u_rawpath u
     else if u_path u = ''*'' then ''*''
     else escape (u_path u) encodePath)"

definition EscapedFragment :: "url \<Rightarrow> string" where
  "EscapedFragment u =
    (if u_rawfragment u \<noteq> [] \<and> validEncoded (u_rawfragment u) encodeFragment
        \<and> unescape (u_rawfragment u) encodeFragment = Some (u_fragment u) then u_rawfragment u
     else escape (u_fragment u) encodeFragment)"

definition setPath :: "string \<Rightarrow> url \<Rightarrow> url option" where
  "setPath p u = (case unescape p encodePath of
     None \<Rightarrow> None
   | Some path \<Rightarrow> Some (u\<lparr>u_path := path, u_rawpath := (if p = escape path encodePath then [] else p)\<rparr>))"

definition setFragment :: "string \<Rightarrow> url \<Rightarrow> url option" where
  "setFragment f u = (case unescape f encodeFragment of
     None \<Rightarrow> None
   | Some frag \<Rightarrow> Some (u\<lparr>u_fragment := frag,
       u_rawfragment := (if f = escape frag encodeFragment then [] else f)\<rparr>))"

section \<open>Parsing\<close>

text \<open>
  \<open>getScheme\<close> scans for the colon that ends a scheme: \<open>None\<close> is the error of a string that
  starts with a colon, an empty scheme means there is none.
\<close>

fun scheme_scan :: "string \<Rightarrow> string \<Rightarrow> (string \<times> string) option" where
  "scheme_scan acc [] = None"
| "scheme_scan acc (c # s) =
    (if is_upper c \<or> is_lower c then scheme_scan (acc @ [c]) s
     else if is_digit c \<or> c \<in> set ''+-.'' then (if acc = [] then None else scheme_scan (acc @ [c]) s)
     else if c = CHR '':'' then Some (acc, s)
     else None)"

definition getScheme :: "string \<Rightarrow> (string \<times> string) option" where
  "getScheme raw = (case scheme_scan [] raw of
     None \<Rightarrow> Some ([], raw)
   | Some ([], _) \<Rightarrow> None
   | Some (scheme, rest) \<Rightarrow> Some (scheme, rest))"

definition parseHost :: "string \<Rightarrow> string option" where
  "parseHost host =
    (if HasPrefix host ''['' then
       (case cut_last host CHR '']'' of
          None \<Rightarrow> None
        | Some (inner, colonPort) \<Rightarrow>
            if \<not> validOptionalPort colonPort then None
            else (case Index inner ''%25'' of
              Some zone \<Rightarrow>
                (case (unescape (take zone host) encodeHost,
                       unescape (drop zone inner) encodeZone,
                       unescape (CHR '']'' # colonPort) encodeHost) of
                   (Some h1, Some h2, Some h3) \<Rightarrow> Some (h1 @ h2 @ h3)
                 | _ \<Rightarrow> None)
            | None \<Rightarrow> unescape host encodeHost))
     else (case cut_last host CHR '':'' of
         Some (_, p) \<Rightarrow> if validOptionalPort (CHR '':'' # p) then unescape host encodeHost else None
       | None \<Rightarrow> unescape host encodeHost))"

definition validUserinfo :: "string \<Rightarrow> bool" where
  "validUserinfo s \<longleftrightarrow> list_all (\<lambda>c. is_alnum c \<or> c \<in> set ''-._:~!$&()*+,;=%@'' \<union> {CHR 0x27}) s"

definition parseAuthority :: "string \<Rightarrow> (userinfo option \<times> string) option" where
  "parseAuthority a = (case cut_last a CHR ''@'' of
     None \<Rightarrow> map_option (Pair None) (parseHost a)
   | Some (ui, h) \<Rightarrow> (case parseHost h of
       None \<Rightarrow> None
     | Some host \<Rightarrow>
         if \<not> validUserinfo ui then None
         else if CHR '':'' \<notin> set ui then
           (case unescape ui encodeUserPassword of
              None \<Rightarrow> None
            | Some name \<Rightarrow> Some (Some (User name), host))
         else (case Cut ui CHR '':'' of (n, p, _) \<Rightarrow>
           (case (unescape n encodeUserPassword, unescape p encodeUserPassword) of
              (Some name, Some pw) \<Rightarrow> Some (Some (UserPassword name pw), host)
            | _ \<Rightarrow> None))))"

definition has_ctl :: "string \<Rightarrow> bool" where
  "has_ctl s \<longleftrightarrow> list_ex (\<lambda>c. code c < 32 \<or> code c = 127) s"

definition parse_body :: "string \<Rightarrow> url option" where
  "parse_body raw =
    (if has_ctl raw then None
     else if raw = ''*'' then Some (empty_url\<lparr>u_path := ''*''\<rparr>)
     else (case getScheme raw of
       None \<Rightarrow> None
     | Some (sch, rest0) \<Rightarrow>
        (let scheme = ToLower sch;
             force = HasSuffix rest0 ''?'' \<and> count_list rest0 CHR ''?'' = 1;
             (rest, query) = (if force then (butlast rest0, [])
                              else (case Cut rest0 CHR ''?'' of (r, q, _) \<Rightarrow> (r, q)));
             u = empty_url\<lparr>u_scheme := scheme, u_forcequery := force, u_rawquery := query\<rparr>
         in if \<not> HasPrefix rest ''/'' \<and> scheme \<noteq> [] then Some (u\<lparr>u_opaque := rest\<rparr>)
            else if \<not> HasPrefix rest ''/'' \<and> CHR '':'' \<in> set (fst (Cut rest CHR ''/'')) then None
            else if HasPrefix rest ''//'' \<and> (scheme \<noteq> [] \<or> \<not> HasPrefix rest ''///'') then
              (let authority = takeWhile (\<lambda>c. c \<noteq> CHR ''/'') (drop 2 rest);
                   path = dropWhile (\<lambda>c. c \<noteq> CHR ''/'') (drop 2 rest)
               in (case parseAuthority authority of
                     None \<Rightarrow> None
                   | Some (user, host) \<Rightarrow> setPath path (u\<lparr>u_user := user, u_host := host\<rparr>)))
            else setPath rest (u\<lparr>u_omithost := scheme \<noteq> [] \<and> HasPrefix rest ''/''\<rparr>))))"

definition url_parse :: "string \<Rightarrow> url option" where
  "url_parse raw = (case Cut raw CHR ''#'' of (u, frag, _) \<Rightarrow>
     (case parse_body u of
        None \<Rightarrow> None
      | Some v \<Rightarrow> if frag = [] then Some v else setFragment frag v))"

section \<open>Printing\<close>

fun userinfo_string :: "userinfo \<Rightarrow> string" where
  "userinfo_string (User n) = escape n encodeUserPassword"
| "userinfo_string (UserPassword n p) = escape n encodeUserPassword @ '':'' @ escape p encodeUserPassword"

definition url_string :: "url \<Rightarrow> string" where
  "url_string u =
    (let scheme = (if u_scheme u \<noteq> [] then u_scheme u @ '':'' else []);
         authority =
           (if u_scheme u \<noteq> [] \<or> u_host u \<noteq> [] \<or> u_user u \<noteq> None then
              (if u_omithost u \<and> u_host u = [] \<and> u_user u = None then []
               else (if u_host u \<noteq> [] \<or> u_path u \<noteq> [] \<or> u_user u \<noteq> None then ''//'' else [])
                 @ (case u_user u of Some ui \<Rightarrow> userinfo_string ui @ ''@'' | None \<Rightarrow> [])
                 @ escape (u_host u) encodeHost)
            else []);
         path = EscapedPath u;
         slash = (if path \<noteq> [] \<and> hd path \<noteq> CHR ''/'' \<and> u_host u \<noteq> [] then ''/'' else []);
         front = scheme @ authority @ slash;
         dot = (if front = [] \<and> CHR '':'' \<in> set (fst (Cut path CHR ''/'')) then ''./'' else [])
     in (if u_opaque u \<noteq> [] then scheme @ u_opaque u else front @ dot @ path)
        @ (if u_forcequery u \<or> u_rawquery u \<noteq> [] then ''?'' @ u_rawquery u else [])
        @ (if u_fragment u \<noteq> [] then ''#'' @ EscapedFragment u else []))"

section \<open>References and queries\<close>

text \<open>
  \<open>resolvePath\<close> merges the path of a reference with the base and removes its dot segments.
  The accumulator is the list of segments kept so far.
\<close>

fun drop_dots :: "string list \<Rightarrow> string list \<Rightarrow> string list" where
  "drop_dots acc [] = acc"
| "drop_dots acc (p # ps) =
    (if p = ''.'' then drop_dots acc ps
     else if p = ''..'' then drop_dots (butlast acc) ps
     else drop_dots (acc @ [p]) ps)"

definition resolvePath :: "string \<Rightarrow> string \<Rightarrow> string" where
  "resolvePath base ref =
    (let full = (if ref = [] then base
                 else if hd ref \<noteq> CHR ''/'' then
                   (case cut_last base CHR ''/'' of Some (d, _) \<Rightarrow> d @ ''/'' @ ref | None \<Rightarrow> ref)
                 else ref)
     in if full = [] then []
        else let ps = Split full CHR ''/'';
                 r = ''/'' @ Join (drop_dots [] ps) ''/'' @ (if last ps \<in> {''.'', ''..''} then ''/'' else [])
             in if HasPrefix r ''//'' then tl r else r)"

text \<open>\<open>ResolveReference\<close> ignores an error of \<open>setPath\<close> and keeps the old path.\<close>

definition setPath_or_keep :: "string \<Rightarrow> url \<Rightarrow> url" where
  "setPath_or_keep p u = (case setPath p u of Some v \<Rightarrow> v | None \<Rightarrow> u)"

definition ResolveReference :: "url \<Rightarrow> url \<Rightarrow> url" where
  "ResolveReference u ref =
    (let url = (if u_scheme ref = [] then ref\<lparr>u_scheme := u_scheme u\<rparr> else ref)
     in if u_scheme ref \<noteq> [] \<or> u_host ref \<noteq> [] \<or> u_user ref \<noteq> None
        then setPath_or_keep (resolvePath (EscapedPath ref) []) url
        else if u_opaque ref \<noteq> [] then url\<lparr>u_user := None, u_host := [], u_path := []\<rparr>
        else
          let url1 = (if u_path ref = [] \<and> \<not> u_forcequery ref \<and> u_rawquery ref = []
                      then (let v = url\<lparr>u_rawquery := u_rawquery u\<rparr>
                            in if u_fragment ref = []
                               then v\<lparr>u_fragment := u_fragment u, u_rawfragment := u_rawfragment u\<rparr> else v)
                      else url)
          in if u_path ref = [] \<and> u_opaque u \<noteq> []
             then url1\<lparr>u_opaque := u_opaque u, u_user := None, u_host := [], u_path := []\<rparr>
             else setPath_or_keep (resolvePath (EscapedPath u) (EscapedPath ref))
                    (url1\<lparr>u_host := u_host u, u_user := u_user u\<rparr>))"

definition url_parse_ref :: "url \<Rightarrow> string \<Rightarrow> url option" where
  "url_parse_ref base ref = map_option (ResolveReference base) (url_parse ref)"

definition PathEscape :: "string \<Rightarrow> string" where
  "PathEscape s = escape s encodePathSegment"

definition QueryEscape :: "string \<Rightarrow> string" where
  "QueryEscape s = escape s encodeQueryComponent"

definition parse_query :: "string \<Rightarrow> (string \<times> string) list" where
  "parse_query q = concat (map (\<lambda>kv.
     if CHR '';'' \<in> set kv \<or> kv = [] then []
     else (case Cut kv CHR ''='' of (k, v, _) \<Rightarrow>
       (case (unescape k encodeQueryComponent, unescape v encodeQueryComponent) of
          (Some key, Some val) \<Rightarrow> [(key, val)]
        | _ \<Rightarrow> []))) (Split q CHR ''&''))"

text \<open>\<open>Values.Get\<close>: the first value of the key, or the empty string.\<close>

definition query_get :: "string \<Rightarrow> string \<Rightarrow> string" where
  "query_get q k = (case map_of (parse_query q) k of Some v \<Rightarrow> v | None \<Rightarrow> [])"

end
