(* ===== verification/Netip_Print.thy ===== *)
theory Netip_Print
  imports Go_Netip
begin

text \<open>
  Printing and reading addresses. Every address without a zone is read back from its printed form,
  dotted quads, compressed IPv6 addresses and IPv4-mapped addresses alike, and so is every prefix;
  masking a prefix keeps the addresses it contains.
\<close>

section \<open>Decimal and hexadecimal\<close>

lemma hd_append_not_Nil: "s \<noteq> [] \<Longrightarrow> hd (s @ t) = hd s"
  by simp

lemma itoa_leading: "0 < n \<Longrightarrow> hd (itoa n) \<noteq> CHR ''0''"
proof (induction n rule: itoa.induct)
  case (1 n)
  have "char_of (48 + n) \<noteq> CHR ''0''" if "n < 10" "0 < n"
  proof
    assume "char_of (48 + n) = CHR ''0''"
    then have "code (char_of (48 + n)) = code CHR ''0''" by simp
    with that show False by (simp add: code_char_of) (simp add: code_def)
  qed
  with 1 show ?case
    using itoa_digits [of "n div 10"] by (subst itoa.simps) auto
qed

lemma itoa_0: "itoa 0 = ''0''"
  by (simp add: itoa.simps char_of_def bit_Suc_0_iff)

lemma itoa_single: "1 < length (itoa n) \<Longrightarrow> hd (itoa n) \<noteq> CHR ''0''"
  using itoa_leading [of n] by (cases n) (auto simp: itoa_0)

lemma v4_field_itoa: "n < 256 \<Longrightarrow> v4_field (itoa n) = Some n"
  using itoa_digits [of n] itoa_single [of n] by (auto simp: v4_field_def list_all_iff)

lemma itoa_no: "c \<in> set (itoa n) \<Longrightarrow> is_digit c"
  using itoa_digits by blast

lemma to_hex_digits: "(\<forall>c \<in> set (to_hex n). is_hex c) \<and> to_hex n \<noteq> []"
proof (induction n rule: to_hex.induct)
  case (1 n)
  have h: "is_hex (hex_digit m)" if "m < 16" for m
    using that by (auto simp: hex_digit_def is_hex_def is_digit_def code_char_of)
  with 1 show ?case by (subst (1 2) to_hex.simps) auto
qed

lemma unhex_hex_digit: "m < 16 \<Longrightarrow> unhex (hex_digit m) = m"
  by (auto simp: hex_digit_def unhex_def is_digit_def code_char_of)

lemma hex_value_to_hex [simp]: "hex_value (to_hex n) = n"
proof (induction n rule: to_hex.induct)
  case (1 n)
  then show ?case
    by (subst to_hex.simps) (auto simp: hex_value_def unhex_hex_digit)
qed

lemma length_to_hex: "n < 16 ^ Suc k \<Longrightarrow> length (to_hex n) \<le> Suc k"
proof (induction k arbitrary: n)
  case 0 then show ?case by (simp add: to_hex.simps)
next
  case (Suc k)
  then have "n div 16 < 16 ^ Suc k" by (simp add: div_less_iff_less_mult mult.commute)
  from Suc.IH [OF this] show ?case by (subst to_hex.simps) simp
qed

lemma hex_no: "c \<in> set (to_hex n) \<Longrightarrow> is_hex c"
  using to_hex_digits by blast

section \<open>IPv4\<close>

lemma v4_octets_less: "n \<in> set (v4_octets w) \<Longrightarrow> n < 256"
  by (auto simp: v4_octets_def)

lemma digits_fold_aux:
  "foldl (\<lambda>m f. b * m + f) a (map (\<lambda>i. n div b ^ i mod b) (rev [0..<k])) = a * b ^ k + (n :: nat) mod b ^ k"
proof (induction k arbitrary: a)
  case (Suc k)
  have "n mod b ^ Suc k = b ^ k * (n div b ^ k mod b) + n mod b ^ k"
    using mod_mult2_eq [of n "b ^ k" b] by (simp add: mult.commute)
  with Suc show ?case by (simp add: algebra_simps)
qed simp

lemma digits_fold:
  assumes "n < b ^ k" shows "foldl (\<lambda>m f. b * m + f) 0 (map (\<lambda>i. n div b ^ i mod b) (rev [0..<k])) = (n :: nat)"
  using assms digits_fold_aux [of b 0 n k] by simp

lemma v4_word_octets: "v4_word (v4_octets w) = w"
proof -
  have lt: "unat w < 256 ^ 4" using unsigned_less [of w, where ?'a = nat] by simp
  have r: "rev [0..<4] = [3, 2, 1, 0::nat]" by (simp add: upt_rec)
  have "foldl (\<lambda>m f. 256 * m + f) 0 (v4_octets w) = unat w"
    unfolding v4_octets_def r [symmetric] using lt by (rule digits_fold)
  then show ?thesis by (simp add: v4_word_def)
qed

lemma v4_fields_string: "v4_fields (v4_string w) = Some (v4_octets w)"
proof -
  have "\<forall>p \<in> set (map itoa (v4_octets w)). CHR ''.'' \<notin> set p"
    using itoa_no by (fastforce simp: is_digit_def code_def)
  then have s: "Split (v4_string w) CHR ''.'' = map itoa (v4_octets w)"
    unfolding v4_string_def by (intro Split_Join) (auto simp: v4_octets_def)
  have m: "map v4_field (map itoa (v4_octets w)) = map Some (v4_octets w)"
    using v4_octets_less v4_field_itoa by auto
  show ?thesis
    unfolding v4_fields_def s Let_def m by (auto simp: comp_def) (simp_all add: v4_octets_def)
qed

lemma parse_v4_string: "parse_v4 (v4_string w) = Some (V4 w)"
  by (simp add: parse_v4_def v4_fields_string v4_word_octets)

lemma v4_string_chars: "c \<in> set (v4_string w) \<Longrightarrow> is_digit c \<or> c = CHR ''.''"
  using itoa_no by (auto simp: v4_string_def v4_octets_def)

lemma find_skip: "\<forall>c \<in> set a. \<not> P c \<Longrightarrow> find P (a @ b) = find P b"
  by (induction a) auto

lemma ParseAddr_v4: "ParseAddr (v4_string w) = Some (V4 w)"
proof -
  have v: "v4_string w = itoa (unat w div 256 ^ 3 mod 256) @ CHR ''.'' # (Join (map itoa (tl (v4_octets w))) ''.'')"
    by (simp add: v4_string_def v4_octets_def)
  have "find (\<lambda>c. c \<in> {CHR ''.'', CHR '':'', CHR ''%''}) (v4_string w) = Some CHR ''.''"
    unfolding v using itoa_no by (subst find_skip) (auto dest!: itoa_no simp: is_digit_def code_def)
  then show ?thesis by (simp add: ParseAddr_def parse_v4_string)
qed

section \<open>IPv6\<close>

lemma v6_parts_less: "g \<in> set (v6_parts w) \<Longrightarrow> g < 16 ^ 4"
  by (auto simp: v6_parts_def)

lemma length_v6_parts [simp]: "length (v6_parts w) = 8"
  by (simp add: v6_parts_def)

lemma v6_word_parts: "v6_word (v6_parts w) = w"
proof -
  have lt: "unat w < 65536 ^ 8" using unsigned_less [of w, where ?'a = nat] by simp
  have r: "rev [0..<8] = [7, 6, 5, 4, 3, 2, 1, 0::nat]" by (simp add: upt_rec)
  have "foldl (\<lambda>m f. 65536 * m + f) 0 (v6_parts w) = unat w"
    unfolding v6_parts_def r [symmetric] using lt by (rule digits_fold)
  then show ?thesis by (simp add: v6_word_def)
qed

text \<open>Reading one printed group in front of the end or of a character that is no hex digit.\<close>

lemma hex_span:
  assumes "r = [] \<or> \<not> is_hex (hd r)"
  shows "takeWhile is_hex (to_hex n @ r) = to_hex n" "dropWhile is_hex (to_hex n @ r) = r"
proof -
  have "takeWhile is_hex r = []" "dropWhile is_hex r = r"
    using assms by (cases r; simp)+
  then show "takeWhile is_hex (to_hex n @ r) = to_hex n" "dropWhile is_hex (to_hex n @ r) = r"
    using to_hex_digits [of n] by simp_all
qed

lemma hex_span_all [simp]: "takeWhile is_hex (to_hex n) = to_hex n" "dropWhile is_hex (to_hex n) = []"
  using hex_span [of "[]" n] by simp_all

lemma colon_no_hex [simp]: "\<not> is_hex CHR '':''"
  by (simp add: char_eval)

lemma group_end:
  assumes "n < 16 ^ 4" and "length gs < 8"
  shows "v6_groups gs e (to_hex n) = Some (gs @ [n], e, [])"
  using assms to_hex_digits [of n] length_to_hex [of n 3]
  by (subst v6_groups.simps) (simp add: Let_def)

lemma group_next:
  assumes "n < 16 ^ 4" and "length gs < 8" and "r \<noteq> []" and "hd r \<noteq> CHR '':''"
  shows "v6_groups gs e (to_hex n @ CHR '':'' # r) = v6_groups (gs @ [n]) e r"
  using assms hex_span [of "CHR '':'' # r" n] to_hex_digits [of n] length_to_hex [of n 3]
  by (subst v6_groups.simps) (simp add: Let_def)

lemma group_ellipsis:
  assumes "n < 16 ^ 4" and "length gs < 8"
  shows "v6_groups gs None (to_hex n @ ''::'' @ r) =
    (if r = [] then Some (gs @ [n], Some (Suc (length gs)), []) else v6_groups (gs @ [n]) (Some (Suc (length gs))) r)"
  using assms hex_span [of "''::'' @ r" n] to_hex_digits [of n] length_to_hex [of n 3]
  by (subst v6_groups.simps) (simp add: Let_def)

definition hex_groups :: "nat list \<Rightarrow> string" where
  "hex_groups gs = Join (map to_hex gs) '':''"

lemma hex_groups_simps [simp]:
  "hex_groups [] = []" "hex_groups [g] = to_hex g" "hex_groups (g # g' # gs) = to_hex g @ CHR '':'' # hex_groups (g' # gs)"
  by (simp_all add: hex_groups_def)

lemma hd_to_hex [simp]: "is_hex (hd (to_hex n))" "to_hex n \<noteq> []"
  using to_hex_digits [of n] by (auto intro: hd_in_set)

lemma hex_groups_head: "ns \<noteq> [] \<Longrightarrow> hex_groups ns \<noteq> [] \<and> is_hex (hd (hex_groups ns))"
  by (cases ns rule: remdups_adj.cases) (auto simp: hd_append)

lemma hex_groups_no_colon: "ns \<noteq> [] \<Longrightarrow> hd (hex_groups ns) \<noteq> CHR '':''"
  using hex_groups_head [of ns] colon_no_hex by metis

lemma groups_end:
  assumes "\<forall>n \<in> set ns. n < 16 ^ 4" and "length gs + length ns \<le> 8" and "ns \<noteq> []"
  shows "v6_groups gs e (hex_groups ns) = Some (gs @ ns, e, [])"
  using assms
proof (induction ns arbitrary: gs rule: induct_list012)
  case (2 n) then show ?case by (simp add: group_end)
next
  case (3 n m ns)
  have "v6_groups gs e (hex_groups (n # m # ns)) = v6_groups (gs @ [n]) e (hex_groups (m # ns))"
    using 3(3,4) hex_groups_head [of "m # ns"] hex_groups_no_colon [of "m # ns"]
    by (simp add: group_next del: hex_groups_simps(2))
  with 3 show ?case by simp
qed simp

lemma groups_ellipsis:
  assumes "\<forall>n \<in> set (ns @ ms). n < 16 ^ 4" and "length gs + length ns + length ms \<le> 8" and "ns \<noteq> []"
  shows "v6_groups gs None (hex_groups ns @ ''::'' @ hex_groups ms) = Some (gs @ ns @ ms, Some (length gs + length ns), [])"
  using assms
proof (induction ns arbitrary: gs rule: induct_list012)
  case (2 n)
  show ?case
  proof (cases "ms = []")
    case True with 2 show ?thesis by (simp add: group_ellipsis [of _ _ "[]", simplified])
  next
    case False
    with 2 hex_groups_head [of ms] show ?thesis
      using group_ellipsis [of n gs "hex_groups ms"] groups_end [of ms "gs @ [n]" "Some (Suc (length gs))"] by simp
  qed
next
  case (3 n m ns)
  let ?r = "hex_groups (m # ns) @ ''::'' @ hex_groups ms"
  have "?r \<noteq> []" "hd ?r \<noteq> CHR '':''"
    using hex_groups_head [of "m # ns"] hex_groups_no_colon [of "m # ns"] by (simp_all add: hd_append)
  then have "v6_groups gs None (hex_groups (n # m # ns) @ ''::'' @ hex_groups ms) = v6_groups (gs @ [n]) None ?r"
    using 3(3,4) group_next [of n gs ?r None] by simp
  with 3 show ?case by simp
qed simp

text \<open>The compressed run: zero groups between its ends.\<close>

definition run_ok :: "nat list \<Rightarrow> nat \<times> nat \<Rightarrow> bool" where
  "run_ok gs = (\<lambda>(a, b). a = 255 \<and> b = 255 \<or> a < b \<and> b \<le> length gs \<and> take b gs = take a gs @ replicate (b - a) 0)"

lemma run_ok_step:
  assumes "i < length gs" and "j = i + length (takeWhile (\<lambda>g. g = 0) (drop i gs))" and "i < j"
  shows "run_ok gs (i, j)"
proof -
  let ?z = "takeWhile (\<lambda>g. g = 0) (drop i gs)"
  have "length ?z \<le> length (drop i gs)" by (rule length_takeWhile_le)
  then have le: "j \<le> length gs" using assms(1,2) by simp
  have z: "?z = replicate (j - i) 0"
    using assms(2) by (intro replicate_eqI [symmetric, THEN sym]) (auto dest: set_takeWhileD)
  have "take j gs = take i gs @ take (j - i) (drop i gs)"
    using assms(3) by (metis le_add_diff_inverse less_imp_le take_add)
  also have "take (j - i) (drop i gs) = ?z"
    using assms(2) takeWhile_eq_take [of "\<lambda>g. g = 0" "drop i gs"] by simp
  finally show ?thesis using z le assms(3) by (simp add: run_ok_def)
qed

lemma run_ok_step':
  "i < length gs \<Longrightarrow> 2 \<le> length (takeWhile (\<lambda>g. g = 0) (drop i gs)) \<Longrightarrow>
   run_ok gs (i, i + length (takeWhile (\<lambda>g. g = 0) (drop i gs)))"
  by (rule run_ok_step) (auto intro: Suc_le_lessD)

lemma zero_run_ok: "length gs = 8 \<Longrightarrow> run_ok gs (zero_run gs)"
proof -
  assume l: "length gs = 8"
  have "run_ok gs (foldl (\<lambda>(a, b) i.
     let j = i + length (takeWhile (\<lambda>g. g = 0) (drop i gs))
     in if 2 \<le> j - i \<and> b - a < j - i then (i, j) else (a, b)) p is)"
    if "run_ok gs p" "\<forall>i \<in> set is. i < 8" for p "is"
    using that
  proof (induction "is" arbitrary: p)
    case (Cons i is')
    then show ?case
      using run_ok_step' [of i gs] l by (cases p) (auto simp: Let_def)
  qed simp
  then show "run_ok gs (zero_run gs)" by (simp add: zero_run_def run_ok_def)
qed

lemma v6_string_chars: "c \<in> set (v6_string w) \<Longrightarrow> is_hex c \<or> c = CHR '':''"
proof -
  have j: "c \<in> set (Join ps s) \<Longrightarrow> c \<in> set s \<or> (\<exists>p \<in> set ps. c \<in> set p)" for ps s
    by (induction ps s rule: Join.induct) auto
  show "c \<in> set (v6_string w) \<Longrightarrow> is_hex c \<or> c = CHR '':''"
    by (auto simp: v6_string_def Let_def dest!: j hex_no split: prod.splits if_splits)
qed

lemma hex_no_pct: "is_hex c \<or> c = CHR '':'' \<Longrightarrow> c \<noteq> CHR ''%'' \<and> c \<noteq> CHR ''.'' \<and> c \<noteq> CHR ''/''"
  by (auto simp: char_eval)

lemma parse_v6_string: "parse_v6 (v6_string w) = Some (V6 w [])"
proof -
  let ?gs = "v6_parts w"
  obtain a b where ab: "zero_run ?gs = (a, b)" by force
  have ok: "run_ok ?gs (a, b)" using zero_run_ok [of ?gs] ab by simp
  have lt: "\<forall>n \<in> set ?gs. n < 16 ^ 4" using v6_parts_less by blast
  have "CHR ''%'' \<notin> set (v6_string w)" using v6_string_chars hex_no_pct by blast
  then have cut: "Cut (v6_string w) CHR ''%'' = (v6_string w, [], False)" by (rule Cut_none)
  show ?thesis
  proof (cases "a = 255")
    case True
    then have s: "v6_string w = hex_groups ?gs" using ab by (simp add: v6_string_def hex_groups_def)
    have "?gs \<noteq> []" using length_v6_parts [of w] by (metis list.size(3) zero_neq_numeral)
    with hex_groups_no_colon have "\<not> HasPrefix (v6_string w) ''::''" "v6_string w \<noteq> ''::''"
      unfolding s by (fastforce simp: HasPrefix_iff)+
    moreover have "v6_groups [] None (v6_string w) = Some (?gs, None, [])"
      unfolding s using groups_end [of ?gs "[]" None] lt \<open>?gs \<noteq> []\<close> by simp
    ultimately show ?thesis
      by (simp add: parse_v6_def cut v6_expand_def v6_word_parts)
  next
    case False
    with ok have ab': "a < b" "b \<le> 8" "take b ?gs = take a ?gs @ replicate (b - a) 0" by (auto simp: run_ok_def)
    let ?p = "take a ?gs" and ?q = "drop b ?gs"
    have s: "v6_string w = hex_groups ?p @ ''::'' @ hex_groups ?q"
      using ab False by (simp add: v6_string_def hex_groups_def Let_def)
    have gs: "?gs = ?p @ replicate (b - a) 0 @ ?q" using ab'(3) append_take_drop_id [of b ?gs] by simp
    have len: "length ?p = a" "length ?q = 8 - b" using ab' by simp_all
    have pq: "\<forall>n \<in> set (?p @ ?q). n < 16 ^ 4" using lt by (auto dest: in_set_takeD in_set_dropD)
    have ex: "v6_expand (?p @ ?q) (Some a) = Some ?gs"
      using gs len ab' by (simp add: v6_expand_def)
    have fin: ?thesis if "(if HasPrefix (v6_string w) ''::'' then v6_groups [] (Some 0) (drop 2 (v6_string w))
        else v6_groups [] None (v6_string w)) = Some (?p @ ?q, Some a, [])" "v6_string w \<noteq> ''::''"
      unfolding parse_v6_def cut using that ex by (simp add: v6_word_parts)
    show ?thesis
    proof (cases "a = 0")
      case True
      then have s0: "v6_string w = ''::'' @ hex_groups ?q" using s by simp
      show ?thesis
      proof (cases "?q = []")
        case True
        then have "?gs = replicate 8 0" using gs \<open>a = 0\<close> ab' len by simp
        then have "v6_word ?gs = 0" by (simp add: v6_word_def replicate_numeral_unfold)
        then have "w = 0" by (simp add: v6_word_parts)
        with s0 True show ?thesis unfolding parse_v6_def cut by simp
      next
        case False
        then have "v6_groups [] (Some 0) (hex_groups ?q) = Some (?q, Some 0, [])"
          using groups_end [of ?q "[]" "Some 0"] pq len by simp
        with s0 False hex_groups_head [of ?q] \<open>a = 0\<close> show ?thesis
          by (intro fin) (auto simp: HasPrefix_iff)
      qed
    next
      case False
      then have p: "?p \<noteq> []" using len(1) by fastforce
      then have "v6_groups [] None (v6_string w) = Some (?p @ ?q, Some a, [])"
        unfolding s using groups_ellipsis [of ?p ?q "[]"] pq len ab' by simp
      moreover have "hd (v6_string w) \<noteq> CHR '':''"
        unfolding s using hex_groups_head [OF p] hex_groups_no_colon [OF p] by (simp add: hd_append)
      ultimately show ?thesis by (intro fin) (auto simp: HasPrefix_iff)
    qed
  qed
qed

section \<open>IPv4-mapped addresses\<close>

lemma group_v4:
  assumes "v4_fields s = Some [a, b, c, d]" and "takeWhile is_hex s \<noteq> []" "length (takeWhile is_hex s) \<le> 4"
    and "dropWhile is_hex s \<noteq> []" "hd (dropWhile is_hex s) = CHR ''.''" and "length gs \<le> 6" and "e \<noteq> None"
  shows "v6_groups gs e s = Some (gs @ [256 * a + b, 256 * c + d], e, [])"
  using assms by (subst v6_groups.simps) (simp add: Let_def)

lemma digit_is_hex: "is_digit c \<Longrightarrow> is_hex c"
  by (simp add: is_hex_def)

lemma length_itoa: "n < 256 \<Longrightarrow> length (itoa n) \<le> 3"
  by (subst itoa.simps, subst itoa.simps, subst itoa.simps) auto

lemma v4_string_span:
  defines "n \<equiv> \<lambda>w. unat (w :: 32 word) div 256 ^ 3 mod 256"
  shows "takeWhile is_hex (v4_string w) = itoa (n w)"
    and "dropWhile is_hex (v4_string w) = CHR ''.'' # Join (map itoa (tl (v4_octets w))) ''.''"
proof -
  have v: "v4_string w = itoa (n w) @ CHR ''.'' # Join (map itoa (tl (v4_octets w))) ''.''"
    by (simp add: v4_string_def v4_octets_def n_def)
  have "\<not> is_hex CHR ''.''" by (simp add: char_eval)
  moreover have "\<forall>c \<in> set (itoa (n w)). is_hex c" using itoa_no digit_is_hex by blast
  ultimately show "takeWhile is_hex (v4_string w) = itoa (n w)"
    "dropWhile is_hex (v4_string w) = CHR ''.'' # Join (map itoa (tl (v4_octets w))) ''.''"
    unfolding v by (simp_all add: takeWhile_append dropWhile_append)
qed

lemma mapped_word:
  assumes "drop_bit 32 (w :: 128 word) = 0xffff"
  shows "v6_word [0, 0, 0, 0, 0, 0xffff, unat (ucast w :: 32 word) div 65536, unat (ucast w :: 32 word) mod 65536] = w"
proof -
  have hi: "unat w div 2 ^ 32 = 0xffff" using assms by (simp add: drop_bit_eq_iff)
  have aux: "65536 * (65536 * 65535 + n div 65536) + n mod 65536 = 281470681743360 + n" for n :: nat
    using mult_div_mod_eq [of 65536 n] by (simp add: distrib_left)
  have "unat w = 281470681743360 + unat w mod 4294967296" using div_mult_mod_eq [of "unat w" "2 ^ 32"] unfolding hi by simp
  moreover have u: "unat (ucast w :: 32 word) = unat w mod 4294967296"
    by (simp add: unsigned_ucast_eq take_bit_eq_mod)
  ultimately have "65536 * (65536 * 65535 + unat (ucast w :: 32 word) div 65536) + unat (ucast w :: 32 word) mod 65536 = unat w"
    using aux [of "unat (ucast w :: 32 word)"] by simp
  then have "of_nat (65536 * (65536 * 65535 + unat (ucast w :: 32 word) div 65536) + unat (ucast w :: 32 word) mod 65536) = (of_nat (unat w) :: 128 word)"
    by (rule arg_cong)
  then show ?thesis by (simp add: v6_word_def)
qed

lemma octets_pairs:
  "v4_octets w = [a, b, c, d] \<Longrightarrow> 256 * a + b = unat w div 65536 \<and> 256 * c + d = unat w mod 65536"
proof -
  assume "v4_octets w = [a, b, c, d]"
  then have "a = unat w div 16777216 mod 256" "b = unat w div 65536 mod 256"
      "c = unat w div 256 mod 256" "d = unat w mod 256"
    by (simp_all add: v4_octets_def)
  moreover have "unat w < 4294967296" using unsigned_less [of w, where ?'a = nat] by simp
  then have "unat w div 65536 div 256 < 256" by (simp add: div_mult2_eq [symmetric] less_mult_imp_div_less)
  then have "256 * (unat w div 65536 div 256 mod 256) + unat w div 65536 mod 256 = unat w div 65536"
    by (simp add: mult.commute)
  moreover have "unat w mod (256 * 256) = 256 * (unat w div 256 mod 256) + unat w mod 256"
    by (rule mod_mult2_eq)
  ultimately show ?thesis by (simp flip: div_mult2_eq)
qed

lemma parse_v6_mapped:
  assumes "drop_bit 32 (w :: 128 word) = 0xffff"
  shows "parse_v6 (''::ffff:'' @ v4_string (ucast w)) = Some (V6 w [])"
proof -
  let ?v = "v4_string (ucast w)" and ?u = "ucast w :: 32 word"
  have "CHR ''%'' \<notin> set (''::ffff:'' @ ?v)"
    using v4_string_chars [of "CHR ''%''" ?u] by (auto simp: char_eval)
  then have cut: "Cut (''::ffff:'' @ ?v) CHR ''%'' = (''::ffff:'' @ ?v, [], False)" by (rule Cut_none)
  obtain a b c d where o4: "v4_octets ?u = [a, b, c, d]" by (simp add: v4_octets_def)
  have sp: "takeWhile is_hex ?v = itoa (unat ?u div 256 ^ 3 mod 256)" "dropWhile is_hex ?v \<noteq> []"
     "hd (dropWhile is_hex ?v) = CHR ''.''"
    using v4_string_span [of ?u] by simp_all
  have ne: "?v \<noteq> []" "hd ?v \<noteq> CHR '':''"
    using sp(2) v4_string_chars [of "hd ?v" ?u] by (cases ?v; force simp: char_eval)+
  have f: "to_hex 0xffff = ''ffff''" by (simp add: to_hex.simps hex_digit_def char_of_def bit_Suc_0_iff)
  have "v6_groups [] (Some 0) (''ffff:'' @ ?v) = v6_groups [0xffff] (Some 0) ?v"
    using group_next [of "0xffff" "[]" ?v "Some 0"] ne unfolding f by simp
  also have "\<dots> = Some ([0xffff] @ [256 * a + b, 256 * c + d], Some 0, [])"
    using o4 sp length_itoa [of "unat ?u div 256 ^ 3 mod 256"] itoa_digits [of "unat ?u div 256 ^ 3 mod 256"]
    by (intro group_v4) (auto simp: v4_fields_string)
  finally have g: "v6_groups [] (Some 0) (''ffff:'' @ ?v)
      = Some ([0xffff, unat ?u div 65536, unat ?u mod 65536], Some 0, [])"
    using octets_pairs [OF o4] by simp
  have "''::ffff:'' @ ?v = ''::'' @ (''ffff:'' @ ?v)" by simp
  then have "HasPrefix (''::ffff:'' @ ?v) ''::''" "drop 2 (''::ffff:'' @ ?v) = ''ffff:'' @ ?v" by (simp_all add: HasPrefix_iff)
  then show ?thesis
    unfolding parse_v6_def cut using g mapped_word [OF assms]
    by (simp add: v6_expand_def replicate_numeral_unfold)
qed

section \<open>Addresses and prefixes\<close>

lemma find_first_sep:
  assumes "s \<noteq> []" "\<forall>c \<in> set s. is_hex c \<or> c = CHR '':''" "CHR '':'' \<in> set s"
  shows "find (\<lambda>c. c \<in> {CHR ''.'', CHR '':'', CHR ''%''}) s = Some CHR '':''"
  using assms(2,3) hex_no_pct colon_no_hex by (induction s) auto

lemma v6_string_colon: "CHR '':'' \<in> set (v6_string w)"
proof -
  have "CHR '':'' \<in> set (Join (map to_hex (v6_parts w)) '':'')" by (simp add: v6_parts_def)
  then show ?thesis by (cases "zero_run (v6_parts w)") (simp add: v6_string_def Let_def)
qed

text \<open>Every address without a zone is read back from its printed form.\<close>

lemma ParseAddr_addr_string: "\<not> has_zone a \<Longrightarrow> ParseAddr (addr_string a) = Some a"
proof (cases a)
  case (V4 w) then show ?thesis by (simp add: ParseAddr_v4)
next
  case (V6 w z)
  assume "\<not> has_zone a"
  with V6 have [simp]: "z = []" by simp
  show ?thesis
  proof (cases "drop_bit 32 w = 0xffff")
    case True
    have "find (\<lambda>c. c \<in> {CHR ''.'', CHR '':'', CHR ''%''}) (addr_string a) = Some CHR '':''"
      using V6 True by simp
    with V6 True show ?thesis using parse_v6_mapped [OF True] by (simp add: ParseAddr_def)
  next
    case False
    have "find (\<lambda>c. c \<in> {CHR ''.'', CHR '':'', CHR ''%''}) (v6_string w) = Some CHR '':''"
      using v6_string_chars v6_string_colon [of w] by (intro find_first_sep) auto
    with V6 False show ?thesis using parse_v6_string [of w] by (simp add: ParseAddr_def)
  qed
qed

lemma ParsePrefix_prefix_string:
  assumes "\<not> has_zone a" and "b \<le> addr_bits a"
  shows "ParsePrefix (prefix_string (Prefix a b)) = Some (Prefix a b)"
proof -
  have "CHR ''/'' \<notin> set (itoa b)" using itoa_no by (fastforce simp: char_eval)
  then have c: "cut_last (prefix_string (Prefix a b)) CHR ''/'' = Some (addr_string a, itoa b)"
    using cut_last_append [of "CHR ''/''" "itoa b" "addr_string a"] by simp
  have b: "b < 2 ^ 63" using assms(2) by (cases a) simp_all
  have "is_digit (hd (itoa b))" using itoa_digits [of b] by simp
  then show ?thesis
    using assms itoa_single [of b] by (simp add: ParsePrefix_def c ParseAddr_addr_string Atoi_itoa [OF b] del: prefix_string.simps)
qed

fun prefix_wf :: "ip_prefix \<Rightarrow> bool" where
  "prefix_wf (Prefix a b) \<longleftrightarrow> \<not> has_zone a \<and> b \<le> addr_bits a"

lemma ParsePrefix_wf: "ParsePrefix s = Some p \<Longrightarrow> prefix_wf p"
  by (auto simp: ParsePrefix_def split: option.splits prod.splits if_splits)

lemma Masked_wf: "prefix_wf p \<Longrightarrow> prefix_wf (Masked p)"
  by (cases p rule: Masked.cases) auto

lemma ParsePrefix_string: "prefix_wf p \<Longrightarrow> ParsePrefix (prefix_string p) = Some p"
  by (cases p) (simp add: ParsePrefix_prefix_string del: prefix_string.simps)

lemma mask_div:
  "unat (push_bit k (drop_bit k (w :: 'a::len word))) div 2 ^ k = unat w div 2 ^ k"
proof -
  have "unat (push_bit k (drop_bit k w)) = take_bit LENGTH('a) (push_bit k (drop_bit k (unat w)))"
    by (simp only: unsigned_push_bit_eq unat_drop_bit_eq)
  also have "\<dots> = (unat w div 2 ^ k) * 2 ^ k mod 2 ^ LENGTH('a)"
    by (simp only: take_bit_eq_mod push_bit_eq_mult drop_bit_eq_div)
  also have "\<dots> = (unat w div 2 ^ k) * 2 ^ k"
    using unsigned_less [of w, where ?'a = nat]
    by (intro mod_less) (meson div_times_less_eq_dividend order_le_less_trans)
  finally show ?thesis by simp
qed

lemma Masked_contains: "prefix_contains (Masked p) a = prefix_contains p a"
  by (cases p rule: Masked.cases; cases a) (simp_all add: prefix_contains_numeric mask_div del: prefix_contains.simps)

lemma Masked_Masked: "prefix_wf p \<Longrightarrow> Masked (Masked p) = Masked p"
  by (cases p rule: Masked.cases) (auto intro!: bit_eqI simp: bit_push_bit_iff bit_drop_bit_eq)

lemma TrimSpace_fix:
  assumes "s \<noteq> []" "code (hd s) < 128" "\<not> ascii_space (hd s)" "code (last s) < 128" "\<not> ascii_space (last s)"
  shows "TrimSpace s = s"
  using assms by (simp add: TrimSpace_def trim_left_fix trim_right_fix lead_space_def trail_space_def)

lemma hex_plain: "is_hex c \<or> c = CHR '':'' \<Longrightarrow> code c < 128 \<and> \<not> ascii_space c"
  by (auto simp: char_eval)

lemma addr_string_head: "addr_string a \<noteq> [] \<and> (is_hex (hd (addr_string a)) \<or> hd (addr_string a) = CHR '':'')"
proof (cases a)
  case (V4 w)
  have "hd (itoa n @ s) = hd (itoa n)" "is_hex (hd (itoa n))" for n s
    using itoa_digits [of n] by (auto intro!: digit_is_hex)
  with V4 itoa_digits show ?thesis by (simp add: v4_string_def v4_octets_def)
next
  case (V6 w z)
  have "v6_string w \<noteq> []" using v6_string_colon [of w] by force
  with V6 v6_string_chars [of "hd (v6_string w)" w] show ?thesis by auto
qed

lemma prefix_string_trim: "TrimSpace (prefix_string p) = prefix_string p"
proof (cases p)
  case (Prefix a b)
  have "is_hex (last (itoa b))" using itoa_digits [of b] by (auto intro!: digit_is_hex)
  then show ?thesis
    using addr_string_head [of a] hex_plain [of "hd (addr_string a)"] hex_plain [of "last (itoa b)"] itoa_digits [of b] Prefix
    by (intro TrimSpace_fix) auto
qed

end
