(* ===== verification/Policy.thy ===== *)
theory Policy
  imports Go_Url Netip_Print
begin

text \<open>
  \<open>internal/policy/policy.go\<close>: access policies, the decision \<open>Evaluate\<close> takes on a target URL
  and its resolved addresses, rule validation and matching, and the non-public address blocks.
  \<open>Store.Effective\<close>, the query that loads a user's policies, is in \<open>Policy_Store\<close>.
\<close>

section \<open>Data\<close>

text \<open>
  A \<open>google/uuid\<close> value is sixteen bytes; its printer and parser are parameters of the
  definitions that use them.
\<close>

type_synonym uuid = "128 word"

definition uuid_Nil :: uuid where
  "uuid_Nil = 0"

text \<open>\<open>Mode\<close> and \<open>RuleKind\<close> are string types: any string can be stored in them.\<close>

type_synonym mode = string
type_synonym rule_kind = string

definition DenyIntranet :: mode where [simp]: "DenyIntranet = ''deny_intranet''"

definition Whitelist :: mode where [simp]: "Whitelist = ''whitelist''"

definition Blacklist :: mode where [simp]: "Blacklist = ''blacklist''"

definition DenyAll :: mode where [simp]: "DenyAll = ''deny_all''"

definition ExactHost :: rule_kind where [simp]: "ExactHost = ''exact_host''"

definition DomainSuffix :: rule_kind where [simp]: "DomainSuffix = ''domain_suffix''"

definition CIDR :: rule_kind where [simp]: "CIDR = ''cidr''"

definition URLPrefix :: rule_kind where [simp]: "URLPrefix = ''url_prefix''"

record rule =
  rule_id :: uuid
  rule_kind :: rule_kind
  rule_value :: string

record policy =
  policy_id :: uuid
  policy_name :: string
  policy_description :: string
  policy_mode :: mode
  policy_enabled :: bool
  policy_rules :: "rule list"

record decision =
  Allowed :: bool
  Reason :: string
  PolicyID :: uuid

section \<open>Non-public addresses\<close>

definition MustParsePrefix :: "string \<Rightarrow> ip_prefix" where
  "MustParsePrefix s = the (ParsePrefix s)"

definition nonPublicPrefixes :: "ip_prefix list" where
  "nonPublicPrefixes = map MustParsePrefix
    [''0.0.0.0/8'', ''10.0.0.0/8'', ''100.64.0.0/10'',
     ''127.0.0.0/8'', ''169.254.0.0/16'', ''172.16.0.0/12'',
     ''192.0.0.0/24'', ''192.0.2.0/24'', ''192.168.0.0/16'',
     ''198.18.0.0/15'', ''198.51.100.0/24'', ''203.0.113.0/24'',
     ''224.0.0.0/4'', ''240.0.0.0/4'', ''::/128'',
     ''::1/128'', ''fc00::/7'', ''fe80::/10'',
     ''ff00::/8'', ''2001:db8::/32'']"

definition IsNonPublic :: "addr \<Rightarrow> bool" where
  "IsNonPublic address =
    (let a = Unmap address
     in if list_ex (\<lambda>p. prefix_contains p a) nonPublicPrefixes then True else \<not> IsGlobalUnicast a)"

section \<open>Matching a rule\<close>

definition match :: "rule \<Rightarrow> url \<Rightarrow> addr list \<Rightarrow> bool" where
  "match r target addresses =
    (let host = ToLower (TrimSuffix (Hostname target) ''.'')
     in if rule_kind r = ExactHost then host = rule_value r
        else if rule_kind r = DomainSuffix then host = rule_value r \<or> HasSuffix host (''.'' @ rule_value r)
        else if rule_kind r = URLPrefix then
          (case url_parse (rule_value r) of
             None \<Rightarrow> False
           | Some pre \<Rightarrow> u_scheme target = u_scheme pre \<and> EqualFold (u_host target) (u_host pre)
               \<and> HasPrefix (EscapedPath target) (EscapedPath pre))
        else if rule_kind r = CIDR then
          (case ParsePrefix (rule_value r) of
             None \<Rightarrow> False
           | Some pre \<Rightarrow> list_ex (\<lambda>a. prefix_contains pre (Unmap a)) addresses)
        else False)"

definition matchesAny :: "rule list \<Rightarrow> url \<Rightarrow> addr list \<Rightarrow> bool" where
  "matchesAny rules target addresses = list_ex (\<lambda>r. match r target addresses) rules"

section \<open>The decision\<close>

definition deny :: "string \<Rightarrow> uuid \<Rightarrow> decision" where
  "deny reason i = \<lparr>Allowed = False, Reason = reason, PolicyID = i\<rparr>"

fun evaluate_loop :: "policy list \<Rightarrow> url \<Rightarrow> addr list \<Rightarrow> decision" where
  "evaluate_loop [] target addresses = \<lparr>Allowed = True, Reason = ''allowed'', PolicyID = uuid_Nil\<rparr>"
| "evaluate_loop (item # rest) target addresses =
    (let matched = matchesAny (policy_rules item) target addresses
     in if policy_mode item = DenyAll then deny ''deny_all'' (policy_id item)
        else if policy_mode item = Whitelist then
          (if \<not> matched then deny ''not_whitelisted'' (policy_id item)
           else evaluate_loop rest target addresses)
        else if policy_mode item = Blacklist then
          (if matched then deny ''blacklisted'' (policy_id item)
           else evaluate_loop rest target addresses)
        else if policy_mode item = DenyIntranet then
          (if list_ex IsNonPublic addresses then deny ''intranet_address'' (policy_id item)
           else if matched then deny ''custom_intranet'' (policy_id item)
           else evaluate_loop rest target addresses)
        else deny ''invalid_policy'' (policy_id item))"

definition Evaluate :: "policy list \<Rightarrow> url \<Rightarrow> addr list \<Rightarrow> decision" where
  "Evaluate policies target addresses =
    (if policies = [] then deny ''no_policy'' uuid_Nil
     else evaluate_loop policies target addresses)"

section \<open>Validating a rule\<close>

definition allowedScheme :: "string \<Rightarrow> bool" where
  "allowedScheme value \<longleftrightarrow> value = ''http'' \<or> value = ''https'' \<or> value = ''ws'' \<or> value = ''wss''"

definition ValidateRule :: "rule_kind \<Rightarrow> string \<Rightarrow> string result" where
  "ValidateRule kind raw =
    (let value = TrimSpace raw
     in if value = [] then Inl ''rule value is required''
        else if kind = ExactHost \<or> kind = DomainSuffix then
          (let v = ToLower (TrimSuffix value ''.'')
           in if ContainsAny v ''/:@''
              then Inl ''host rule must not include scheme, path, port, or credentials'' else Inr v)
        else if kind = CIDR then
          (case ParsePrefix value of
             None \<Rightarrow> Inl ''invalid CIDR''
           | Some pre \<Rightarrow> Inr (prefix_string (Masked pre)))
        else if kind = URLPrefix then
          (case url_parse value of
             None \<Rightarrow> Inl ''invalid URL prefix''
           | Some parsed \<Rightarrow>
               if \<not> IsAbs parsed \<or> \<not> allowedScheme (u_scheme parsed) \<or> u_user parsed \<noteq> None
               then Inl ''invalid URL prefix''
               else Inr (url_string (parsed\<lparr>u_host := ToLower (u_host parsed), u_fragment := [], u_rawquery := []\<rparr>)))
        else Inl (''unsupported rule kind '' @ Quote kind))"

section \<open>The decision as a conjunction\<close>

text \<open>
  What one policy demands of a target, and the reason it gives when the target fails. A policy
  passes a target or it does not, whatever the other policies say.
\<close>

definition passes :: "url \<Rightarrow> addr list \<Rightarrow> policy \<Rightarrow> bool" where
  "passes target addresses p \<longleftrightarrow>
     policy_mode p = Whitelist \<and> (\<exists>r \<in> set (policy_rules p). match r target addresses)
   \<or> policy_mode p = Blacklist \<and> (\<forall>r \<in> set (policy_rules p). \<not> match r target addresses)
   \<or> policy_mode p = DenyIntranet \<and> (\<forall>a \<in> set addresses. \<not> IsNonPublic a)
     \<and> (\<forall>r \<in> set (policy_rules p). \<not> match r target addresses)"

definition refusal :: "url \<Rightarrow> addr list \<Rightarrow> policy \<Rightarrow> string" where
  "refusal target addresses p =
    (if policy_mode p = DenyAll then ''deny_all''
     else if policy_mode p = Whitelist then ''not_whitelisted''
     else if policy_mode p = Blacklist then ''blacklisted''
     else if policy_mode p = DenyIntranet then
       (if \<exists>a \<in> set addresses. IsNonPublic a then ''intranet_address'' else ''custom_intranet'')
     else ''invalid_policy'')"

lemma matchesAny_iff: "matchesAny rs t as \<longleftrightarrow> (\<exists>r \<in> set rs. match r t as)"
  by (simp add: matchesAny_def list_ex_iff)

lemma evaluate_loop_find:
  "evaluate_loop ps t as =
    (case find (\<lambda>p. \<not> passes t as p) ps of
       None \<Rightarrow> \<lparr>Allowed = True, Reason = ''allowed'', PolicyID = uuid_Nil\<rparr>
     | Some p \<Rightarrow> deny (refusal t as p) (policy_id p))"
  by (induction ps) (auto simp: passes_def refusal_def matchesAny_iff list_ex_iff Let_def)

lemma Evaluate_cases:
  "Evaluate ps t as =
    (if ps = [] then deny ''no_policy'' uuid_Nil
     else case find (\<lambda>p. \<not> passes t as p) ps of
       None \<Rightarrow> \<lparr>Allowed = True, Reason = ''allowed'', PolicyID = uuid_Nil\<rparr>
     | Some p \<Rightarrow> deny (refusal t as p) (policy_id p))"
  by (simp add: Evaluate_def evaluate_loop_find)

lemma Allowed_iff: "Allowed (Evaluate ps t as) \<longleftrightarrow> ps \<noteq> [] \<and> (\<forall>p \<in> set ps. passes t as p)"
  by (auto simp: Evaluate_cases deny_def find_None_iff split: option.split dest: find_SomeD)

section \<open>The non-public blocks as intervals\<close>

lemma nonPublicPrefixes_eval: "nonPublicPrefixes = [Prefix (V4 0) 8,
     Prefix (V4 0x0a000000) 8, Prefix (V4 0x64400000) 10, Prefix (V4 0x7f000000) 8,
     Prefix (V4 0xa9fe0000) 16, Prefix (V4 0xac100000) 12, Prefix (V4 0xc0000000) 24,
     Prefix (V4 0xc0000200) 24, Prefix (V4 0xc0a80000) 16, Prefix (V4 0xc6120000) 15,
     Prefix (V4 0xc6336400) 24, Prefix (V4 0xcb007100) 24, Prefix (V4 0xe0000000) 4,
     Prefix (V4 0xf0000000) 4, Prefix (V6 0 []) 128, Prefix (V6 1 []) 128,
     Prefix (V6 (0xfc00 * 2 ^ 112) []) 7, Prefix (V6 (0xfe80 * 2 ^ 112) []) 10,
     Prefix (V6 (0xff00 * 2 ^ 112) []) 8, Prefix (V6 (0x20010db8 * 2 ^ 96) []) 32]"
  by (simp add: nonPublicPrefixes_def MustParsePrefix_def netip_eval str_eval Let_def)

definition v4_nonpublic :: "(nat \<times> nat) list" where
  "v4_nonpublic = [(0, 0x00ffffff), (0x0a000000, 0x0affffff), (0x64400000, 0x647fffff), (0x7f000000, 0x7fffffff),
   (0xa9fe0000, 0xa9feffff), (0xac100000, 0xac1fffff), (0xc0000000, 0xc00000ff), (0xc0000200, 0xc00002ff),
   (0xc0a80000, 0xc0a8ffff), (0xc6120000, 0xc613ffff), (0xc6336400, 0xc63364ff), (0xcb007100, 0xcb0071ff),
   (0xe0000000, 0xefffffff), (0xf0000000, 0xffffffff)]"

definition v6_nonpublic :: "(nat \<times> nat) list" where
  "v6_nonpublic = [(0, 0), (1, 1), (0xfc00 * 2 ^ 112, 0xfe00 * 2 ^ 112 - 1), (0xfe80 * 2 ^ 112, 0xfec0 * 2 ^ 112 - 1), 
   (0xff00 * 2 ^ 112, 2 ^ 128 - 1), (0x20010db8 * 2 ^ 96, 0x20010db9 * 2 ^ 96 - 1)]"

lemma nonPublicPrefixes_V4: "list_ex (\<lambda>p. prefix_contains p (V4 w)) nonPublicPrefixes \<longleftrightarrow> in_ranges v4_nonpublic (unat w)"
  by (simp add: nonPublicPrefixes_eval prefix_contains_numeric v4_nonpublic_def in_ranges_def div_range del: prefix_contains.simps)

lemma not_global_V4: 
  assumes "\<not> IsGlobalUnicast (V4 w)" shows "in_ranges v4_nonpublic (unat w)"
proof -
  from assms consider "w = 0" | "w = 0xffffffff" | "unat w div 2 ^ 24 = 127" | "unat w div 2 ^ 28 = 14" | "unat w div 2 ^ 16 = 43518"
    by (auto simp: IsGlobalUnicast_def drop_bit_eq_iff split: if_splits)
  then show ?thesis
  proof cases
    case 1 show ?thesis by (rule in_rangesI [of "0" "0x00ffffff"]) (use 1 in \<open>simp_all add: v4_nonpublic_def\<close>)
  next
    case 2 show ?thesis by (rule in_rangesI [of "0xf0000000" "0xffffffff"]) (use 2 in \<open>simp_all add: v4_nonpublic_def\<close>)
  next
    case 3 show ?thesis by (rule in_rangesI [of "0x7f000000" "0x7fffffff"]) (use 3 in \<open>simp_all add: v4_nonpublic_def div_range\<close>)
  next
    case 4 show ?thesis by (rule in_rangesI [of "0xe0000000" "0xefffffff"]) (use 4 in \<open>simp_all add: v4_nonpublic_def div_range\<close>)
  next
    case 5 show ?thesis by (rule in_rangesI [of "0xa9fe0000" "0xa9feffff"]) (use 5 in \<open>simp_all add: v4_nonpublic_def div_range\<close>)
  qed
qed

lemma nonPublicPrefixes_V6: "list_ex (\<lambda>p. prefix_contains p (V6 w [])) nonPublicPrefixes \<longleftrightarrow> in_ranges v6_nonpublic (unat w)"
proof -
 have "Suc 0 \<le> n \<and> n \<le> Suc 0 \<longleftrightarrow> n = Suc 0" for n by auto
  then show ?thesis
   by (simp add: nonPublicPrefixes_eval prefix_contains_numeric v6_nonpublic_def in_ranges_def div_range del: prefix_contains.simps)
qed

lemma not_global_V6:
  assumes "\<not> IsGlobalUnicast (V6 w z)" shows "in_ranges v6_nonpublic (unat w)"
proof -
  from assms consider "w = 0" | "w = 1" | "unat w div 2 ^ 120 = 255" | "unat w div 2 ^ 118 = 0x3fa"
    by (auto simp: IsGlobalUnicast_def drop_bit_eq_iff split: if_splits)
  then show ?thesis
  proof cases
    case 1 show ?thesis by (rule in_rangesI [of 0 0]) (use 1 in \<open>simp_all add: v6_nonpublic_def\<close>)
  next
    case 2 show ?thesis by (rule in_rangesI [of 1 1]) (use 2 in \<open>simp_all add: v6_nonpublic_def\<close>)
  next
    case 3 show ?thesis by (rule in_rangesI [of "0xff00 * 2 ^ 112" "2 ^ 128 - 1"]) (use 3 in \<open>simp_all add: v6_nonpublic_def div_range\<close>)
  next
    case 4 show ?thesis by (rule in_rangesI [of "0xfe80 * 2 ^ 112" "0xfec0 * 2 ^ 112 - 1"]) (use 4 in \<open>simp_all add: v6_nonpublic_def div_range\<close>)
  qed
qed

text \<open>
  The address test in full. An address without a zone is non-public when it lies in one of the
  listed intervals; one with a zone only when it is the loopback address, multicast or link local.
\<close>

definition v6_zoned_nonpublic :: "(nat \<times> nat) list" where
  "v6_zoned_nonpublic = [(1, 1), (0xfe80 * 2 ^ 112, 0xfec0 * 2 ^ 112 - 1), (0xff00 * 2 ^ 112, 2 ^ 128 - 1)]"

lemma zoned_not_contained: "z \<noteq> [] \<Longrightarrow> \<not> prefix_contains p (V6 w z)"
  by (cases "(p, V6 w z)" rule: prefix_contains.cases) auto

lemma not_global_zoned:
  assumes "z \<noteq> []" shows "\<not> IsGlobalUnicast (V6 w z) \<longleftrightarrow> in_ranges v6_zoned_nonpublic (unat w)"
proof -
  have one: "unat w = 1 \<longleftrightarrow> w = 1" by (metis unat_1 word_unat_eq_iff)
  have "\<not> IsGlobalUnicast (V6 w z) \<longleftrightarrow> w = 1 \<or> unat w div 2 ^ 118 = 0x3fa \<or> unat w div 2 ^ 120 = 0xff"
    using assms by (auto simp: IsGlobalUnicast_def drop_bit_eq_iff)
  also have "unat w div 2 ^ 120 = 0xff \<longleftrightarrow> 0xff00 * 2 ^ 112 \<le> unat w \<and> unat w \<le> 2 ^ 128 - 1"
    by (simp add: div_range)
  also have "unat w div 2 ^ 118 = 0x3fa \<longleftrightarrow> 0xfe80 * 2 ^ 112 \<le> unat w \<and> unat w \<le> 0xfec0 * 2 ^ 112 - 1"
    by (simp add: div_range)
  finally show ?thesis
    by (auto simp: in_ranges_def v6_zoned_nonpublic_def one [symmetric] simp del: One_nat_def)
qed

lemma IsNonPublic_iff:
  "IsNonPublic a = (case Unmap a of
     V4 w \<Rightarrow> in_ranges v4_nonpublic (unat w)
   | V6 w z \<Rightarrow> if z = [] then in_ranges v6_nonpublic (unat w) else in_ranges v6_zoned_nonpublic (unat w))"
proof (cases "Unmap a")
  case (V4 w)
  then show ?thesis
    using nonPublicPrefixes_V4 [of w] not_global_V4 [of w] by (auto simp: IsNonPublic_def)
next
  case (V6 w z)
  show ?thesis
  proof (cases "z = []")
    case True
    with V6 show ?thesis
      using nonPublicPrefixes_V6 [of w] not_global_V6 [of w "[]"] by (auto simp: IsNonPublic_def)
  next
    case False
    with V6 show ?thesis
      using not_global_zoned [of z w] by (auto simp: IsNonPublic_def list_ex_iff zoned_not_contained)
  qed
qed


section \<open>Properties\<close>

text \<open>
  C3: \<open>Evaluate\<close> is the conjunction of its policies. It allows a target when there is a policy and
  every policy passes it; otherwise the reason and the policy id come from the first policy,
  in the order of the list, that the target fails, and no later policy has a say.
\<close>

theorem evaluate_is_conjunction:
  "Evaluate ps t as =
    (if ps = [] then \<lparr>Allowed = False, Reason = ''no_policy'', PolicyID = uuid_Nil\<rparr>
     else case find (\<lambda>p. \<not> passes t as p) ps of
       None \<Rightarrow> \<lparr>Allowed = True, Reason = ''allowed'', PolicyID = uuid_Nil\<rparr>
     | Some p \<Rightarrow> \<lparr>Allowed = False, Reason = refusal t as p, PolicyID = policy_id p\<rparr>)"
  by (auto simp: Evaluate_cases deny_def split: option.split)

text \<open>
  More policies only restrict: if a set of policies allows a target, so does every nonempty
  subset of it, in any order and with repetitions. So the order in which the database returns the
  policies, and a policy assigned twice (directly and through a group), never change the outcome.
\<close>

theorem policies_only_restrict:
  assumes "set qs \<subseteq> set ps" and "qs \<noteq> []" and "Allowed (Evaluate ps t as)"
  shows "Allowed (Evaluate qs t as)"
  using assms by (auto simp: Allowed_iff)

definition sample_target :: url where
  "sample_target = empty_url\<lparr>u_scheme := ''https'', u_host := ''db.example.com'', u_path := ''/''\<rparr>"

definition sample_deny_intranet :: policy where
  "sample_deny_intranet = \<lparr>policy_id = 7, policy_name = ''deny intranet'', policy_description = [],
     policy_mode = ''deny_intranet'', policy_enabled = True, policy_rules = []\<rparr>"

definition sample_whitelist :: policy where
  "sample_whitelist = \<lparr>policy_id = 8, policy_name = ''example only'', policy_description = [],
     policy_mode = ''whitelist'', policy_enabled = True,
     policy_rules = [\<lparr>rule_id = 9, rule_kind = ''domain_suffix'', rule_value = ''example.com''\<rparr>]\<rparr>"

lemmas policy_eval = Evaluate_def evaluate_loop.simps match_def matchesAny_def deny_def IsNonPublic_def
  IsGlobalUnicast_def nonPublicPrefixes_eval sample_target_def sample_deny_intranet_def sample_whitelist_def
  empty_url_def Hostname_def splitHostPort_def validOptionalPort_def

lemma sample_allowed: "Allowed (Evaluate [sample_deny_intranet, sample_whitelist] sample_target [V4 0x08080808])"
  by (simp add: policy_eval str_eval Let_def)

theorem policies_only_restrict_witness:
  "Allowed (Evaluate [sample_whitelist, sample_whitelist] sample_target [V4 0x08080808])"
  by (rule policies_only_restrict [OF _ _ sample_allowed]) auto

text \<open>
  C38: The address test is exact. \<open>IsNonPublic\<close> holds of an IPv4 address (also one written as an
  IPv4-mapped IPv6 address) exactly in the fourteen listed blocks, of an IPv6 address without a zone
  exactly in the six listed blocks: the final \<open>IsGlobalUnicast\<close> test refuses no address that the
  table does not. A zone takes an IPv6 address out of every prefix, so then only loopback, link-local
  and multicast addresses are refused; a unique-local address with a zone (fd00::1%eth0) is not.
\<close>

theorem is_nonpublic_exact:
  "IsNonPublic a = (case Unmap a of
     V4 w \<Rightarrow> in_ranges v4_nonpublic (unat w)
   | V6 w z \<Rightarrow> if z = [] then in_ranges v6_nonpublic (unat w) else in_ranges v6_zoned_nonpublic (unat w))"
  by (rule IsNonPublic_iff)

text \<open>
  C28: What a deny-intranet policy guarantees, and where it stops. If it is among the policies and the
  decision is to allow, then none of the policy's own rules matches, and of the addresses the target
  resolved to no IPv4 address (also one written as an IPv4-mapped IPv6 address) and no IPv6 address without
  a zone is in a private, loopback, link-local, multicast or reserved block. For an IPv6 address with a zone
  only the blocks of loopback, link-local and multicast are ruled out: such an address may be unique-local
  (fd00::1%eth0) or in another block that is refused without the zone.
\<close>

theorem deny_intranet_safe:
  assumes "Allowed (Evaluate ps t as)" and "p \<in> set ps" and "policy_mode p = DenyIntranet" and "a \<in> set as"
  shows "(case Unmap a of
            V4 w \<Rightarrow> \<not> in_ranges v4_nonpublic (unat w)
          | V6 w z \<Rightarrow> \<not> in_ranges (if z = [] then v6_nonpublic else v6_zoned_nonpublic) (unat w))
       \<and> \<not> matchesAny (policy_rules p) t as"
proof -
  have "passes t as p" using assms(1,2) by (simp add: Allowed_iff)
  then have "\<not> IsNonPublic a" "\<not> matchesAny (policy_rules p) t as"
    using assms(3,4) by (auto simp: passes_def matchesAny_iff)
  then show ?thesis unfolding IsNonPublic_iff by (auto split: addr.split)
qed

theorem deny_intranet_safe_witness:
  "\<not> in_ranges v4_nonpublic 0x08080808 \<and> \<not> matchesAny [] sample_target [V4 0x08080808]"
  using deny_intranet_safe [OF sample_allowed, of sample_deny_intranet "V4 0x08080808"]
  by (simp add: sample_deny_intranet_def)

section \<open>Stored rules\<close>

lemma ValidateRule_CIDR:
  "ValidateRule CIDR raw =
    (if TrimSpace raw = [] then Inl ''rule value is required''
     else case ParsePrefix (TrimSpace raw) of None \<Rightarrow> Inl ''invalid CIDR'' | Some p \<Rightarrow> Inr (prefix_string (Masked p)))"
  by (simp add: ValidateRule_def Let_def)

text \<open>
  C37: A CIDR rule is stored in a canonical form that means what was typed. When \<open>ValidateRule\<close>
  accepts the text, the text parses as a prefix; the stored value matches exactly when one of the
  resolved addresses lies in that prefix, and validating the stored value again returns it unchanged.
\<close>

theorem cidr_rule_meaning:
  assumes "ValidateRule CIDR raw = Inr v"
  shows "case ParsePrefix (TrimSpace raw) of
      None \<Rightarrow> False
    | Some p \<Rightarrow> match \<lparr>rule_id = i, rule_kind = CIDR, rule_value = v\<rparr> t as = list_ex (\<lambda>a. prefix_contains p (Unmap a)) as
        \<and> ValidateRule CIDR v = Inr v"
proof -
  obtain p where p: "ParsePrefix (TrimSpace raw) = Some p" and v: "v = prefix_string (Masked p)"
    using assms unfolding ValidateRule_CIDR by (auto split: if_splits option.splits)
  have wf: "prefix_wf (Masked p)" using p by (auto intro: Masked_wf ParsePrefix_wf)
  then have pv: "ParsePrefix v = Some (Masked p)" using v by (simp add: ParsePrefix_string)
  have "v \<noteq> []" using v by (cases "Masked p") (simp add: addr_string_head)
  moreover have "Masked (Masked p) = Masked p" using p by (auto intro: Masked_Masked ParsePrefix_wf)
  ultimately have "ValidateRule CIDR v = Inr v"
    using v pv prefix_string_trim [of "Masked p"] unfolding ValidateRule_CIDR by simp
  with p pv show ?thesis by (simp add: match_def Let_def Masked_contains)
qed

lemma sample_cidr: "ValidateRule CIDR '' 10.1.2.3/8 '' = Inr ''10.0.0.0/8''"
  unfolding ValidateRule_CIDR by (simp add: netip_eval str_eval Let_def v4_string_def v4_octets_def)

theorem cidr_rule_meaning_witness:
  "match \<lparr>rule_id = 1, rule_kind = CIDR, rule_value = ''10.0.0.0/8''\<rparr> sample_target [V4 0x0a636363]"
  using cidr_rule_meaning [OF sample_cidr, of 1 sample_target "[V4 0x0a636363]"]
  by (simp add: netip_eval str_eval Let_def)

text \<open>
  A host rule is stored lower-cased and without the final dot, as the host it is compared with.
\<close>

lemma ValidateRule_host:
  assumes "kind = ExactHost \<or> kind = DomainSuffix" and "ValidateRule kind raw = Inr v"
  shows "v = ToLower (TrimSuffix (TrimSpace raw) ''.'') \<and> \<not> ContainsAny v ''/:@''"
  using assms by (auto simp: ValidateRule_def Let_def split: if_splits)

text \<open>
  A domain-suffix rule matches on label boundaries only: the host, lower-cased and without its
  final dot, is the stored domain or ends in it behind a dot. So a rule for example.com covers
  every subdomain and never notexample.com, whatever the case the rule was typed in.
\<close>

theorem domain_suffix_boundary:
  assumes "ValidateRule DomainSuffix raw = Inr v" and "ToLower (TrimSuffix (Hostname t) ''.'') = h"
  shows "match \<lparr>rule_id = i, rule_kind = DomainSuffix, rule_value = v\<rparr> t as \<longleftrightarrow>
     (\<exists>l. h = l @ ToLower (TrimSuffix (TrimSpace raw) ''.'') \<and> (l = [] \<or> last l = CHR ''.''))"
proof -
  have v: "v = ToLower (TrimSuffix (TrimSpace raw) ''.'')"
    using ValidateRule_host [of DomainSuffix raw v] assms(1) by simp
  have "HasSuffix h (CHR ''.'' # v) \<longleftrightarrow> (\<exists>l. h = l @ v \<and> l \<noteq> [] \<and> last l = CHR ''.'')"
    by (auto simp: HasSuffix_iff) (metis append.assoc append_Cons append_Nil append_butlast_last_id)
  with assms(2) v show ?thesis by (auto simp: match_def Let_def)
qed

lemma sample_suffix: "ValidateRule DomainSuffix '' Example.COM. '' = Inr ''example.com''"
  by (simp add: ValidateRule_def str_eval Let_def)

lemma sample_host: "ToLower (TrimSuffix (Hostname sample_target) ''.'') = ''db.example.com''"
  by (simp add: policy_eval str_eval Let_def)

theorem domain_suffix_boundary_witness:
  "match \<lparr>rule_id = 1, rule_kind = DomainSuffix, rule_value = ''example.com''\<rparr> sample_target []"
  using domain_suffix_boundary [OF sample_suffix sample_host, of 1 "[]"]
  by (simp add: str_eval)

end
