(* ===== verification/Go_Http.thy ===== *)
theory Go_Http
  imports Go_Url "HOL-Library.Word"
begin

text \<open>
  What the program uses of \<open>net/http\<close>: header maps with canonical names, requests and replies,
  reading and adding request cookies. A reply records the \<open>Set-Cookie\<close> values as cookie records and
  a JSON body as the value that is encoded.
\<close>

section \<open>Headers\<close>

text \<open>
  \<open>http.Header\<close> is a map from canonical names to lists of values. \<open>CanonicalHeaderKey\<close> leaves a
  name with a byte that is no token character alone.
\<close>

type_synonym header = "string \<rightharpoonup> string list"

definition token_char :: "char \<Rightarrow> bool" where
  "token_char c \<longleftrightarrow> is_alnum c \<or> c \<in> set ''!#$%&*+-.^_`|~'' \<or> code c = 39"

fun canonical_loop :: "bool \<Rightarrow> string \<Rightarrow> string" where
  "canonical_loop upper [] = []"
| "canonical_loop upper (c # s) =
    (let d = (if upper \<and> is_lower c then char_of (code c - 32)
              else if \<not> upper \<and> is_upper c then char_of (code c + 32) else c)
     in d # canonical_loop (d = CHR ''-'') s)"

definition CanonicalHeaderKey :: "string \<Rightarrow> string" where
  "CanonicalHeaderKey s = (if list_all token_char s then canonical_loop True s else s)"

definition Values :: "header \<Rightarrow> string \<Rightarrow> string list" where
  "Values h k = (case h (CanonicalHeaderKey k) of None \<Rightarrow> [] | Some vs \<Rightarrow> vs)"

definition Get :: "header \<Rightarrow> string \<Rightarrow> string" where
  "Get h k = (case Values h k of [] \<Rightarrow> [] | v # _ \<Rightarrow> v)"

definition hSet :: "string \<Rightarrow> string \<Rightarrow> header \<Rightarrow> header" where
  "hSet k v h = h(CanonicalHeaderKey k \<mapsto> [v])"

definition hAdd :: "string \<Rightarrow> string \<Rightarrow> header \<Rightarrow> header" where
  "hAdd k v h = h(CanonicalHeaderKey k \<mapsto> Values h k @ [v])"

definition hDel :: "string \<Rightarrow> header \<Rightarrow> header" where
  "hDel k h = h(CanonicalHeaderKey k := None)"

lemma Values_hDel: "Values (hDel k h) n = (if CanonicalHeaderKey n = CanonicalHeaderKey k then [] else Values h n)"
  by (simp add: Values_def hDel_def)

lemma Values_hSet: "Values (hSet k v h) n = (if CanonicalHeaderKey n = CanonicalHeaderKey k then [v] else Values h n)"
  by (simp add: Values_def hSet_def)

lemma Values_hAdd: "Values (hAdd k v h) n = (if CanonicalHeaderKey n = CanonicalHeaderKey k then Values h n @ [v] else Values h n)"
  by (simp add: Values_def hAdd_def)

lemma Get_hDel: "Get (hDel k h) n = (if CanonicalHeaderKey n = CanonicalHeaderKey k then [] else Get h n)"
  by (simp add: Get_def Values_hDel)

lemma Get_hSet: "Get (hSet k v h) n = (if CanonicalHeaderKey n = CanonicalHeaderKey k then v else Get h n)"
  by (simp add: Get_def Values_hSet)

lemma Get_hAdd: "Get (hAdd k v h) n =
    (if CanonicalHeaderKey n = CanonicalHeaderKey k \<and> Values h n = [] then v else Get h n)"
  by (auto simp: Get_def Values_hAdd split: list.split)

lemmas header_simps = Values_hDel Values_hSet Values_hAdd Get_hDel Get_hSet Get_hAdd

lemma canonical_loop_idem: "canonical_loop b (canonical_loop b s) = canonical_loop b s"
proof (induction b s rule: canonical_loop.induct)
  case (2 upper c s)
  let ?d = "if upper \<and> is_lower c then char_of (code c - 32)
            else if \<not> upper \<and> is_upper c then char_of (code c + 32) else c"
  have "(if upper \<and> is_lower ?d then char_of (code ?d - 32)
         else if \<not> upper \<and> is_upper ?d then char_of (code ?d + 32) else ?d) = ?d"
    by (auto simp: is_lower_def is_upper_def code_char_of)
  then show ?case using 2 by (simp add: Let_def)
qed simp

text \<open>Names that differ in length or, up to case, in their first letter have different canonical keys.\<close>

lemma ToLower_canonical_loop: "ToLower (canonical_loop b s) = ToLower s"
proof (induction b s rule: canonical_loop.induct)
  case (2 upper c s)
  have "lower_char (if upper \<and> is_lower c then char_of (code c - 32) else if \<not> upper \<and> is_upper c then char_of (code c + 32) else c) = lower_char c"
    by (auto simp: lower_char_def is_lower_def is_upper_def code_char_of)
  then show ?case using 2 by (simp add: ToLower_def Let_def)
qed simp

lemma ToLower_canonical: "ToLower (CanonicalHeaderKey s) = ToLower s"
  by (simp add: CanonicalHeaderKey_def ToLower_canonical_loop)

lemma canonical_neq: "length s \<noteq> length t \<or> lower_char (hd s) \<noteq> lower_char (hd t) \<Longrightarrow> CanonicalHeaderKey s \<noteq> CanonicalHeaderKey t"
  using ToLower_canonical [of s] ToLower_canonical [of t] by (cases s; cases t) (auto simp: ToLower_def dest: arg_cong [where f = length])

lemma lower_heads: "lower_char CHR ''O'' = CHR ''o''" "lower_char CHR ''R'' = CHR ''r''" "lower_char CHR ''C'' = CHR ''c''"
 "lower_char CHR ''T'' = CHR ''t''" "lower_char CHR ''U'' = CHR ''u''" "lower_char CHR ''K'' = CHR ''k''"
 "lower_char CHR ''P'' = CHR ''p''" "lower_char CHR ''A'' = CHR ''a''" "lower_char CHR ''X'' = CHR ''x''"
  by (simp_all add: lower_char_def char_eval)

section \<open>Requests and replies\<close>

datatype json = JNull | JBool bool | JNum int | JStr string | JList "json list" | JObj "(string \<times> json) list" | JTime int
  | JMap "string \<rightharpoonup> string"

datatype body = Bytes string | Json json

datatype same_site = SameSiteUnset | SameSiteDefault | SameSiteLax | SameSiteStrict | SameSiteNone

text \<open>Times are nanoseconds since the epoch; \<open>None\<close> is the zero \<open>time.Time\<close>.\<close>

record cookie =
  ck_name :: string
  ck_value :: string
  ck_path :: string
  ck_domain :: string
  ck_expires :: "int option"
  ck_max_age :: int
  ck_secure :: bool
  ck_http_only :: bool
  ck_same_site :: same_site

definition plain_cookie :: "string \<Rightarrow> string \<Rightarrow> cookie" where
  "plain_cookie n v = \<lparr>ck_name = n, ck_value = v, ck_path = [], ck_domain = [], ck_expires = None,
     ck_max_age = 0, ck_secure = False, ck_http_only = False, ck_same_site = SameSiteUnset\<rparr>"

record request =
  rq_method :: string
  rq_url :: url
  rq_host :: string
  rq_header :: header
  rq_body :: string

record response =
  rs_status :: nat
  rs_line :: string
  rs_header :: header
  rs_body :: string

text \<open>\<open>http.NewRequestWithContext\<close> checks the method, parses the URL and drops the colon of an empty port.\<close>

definition new_request :: "string \<Rightarrow> string \<Rightarrow> string \<Rightarrow> request result" where
  "new_request method raw body =
    (if method = [] \<or> \<not> list_all token_char method then Inl ''net/http: invalid method''
     else (case url_parse raw of
       None \<Rightarrow> Inl ''invalid URL''
     | Some u \<Rightarrow> (let host = TrimSuffix (u_host u) '':'' in
         Inr \<lparr>rq_method = method, rq_url = u\<lparr>u_host := host\<rparr>, rq_host = host, rq_header = (\<lambda>_. None), rq_body = body\<rparr>)))"

text \<open>What a handler wrote to its \<open>http.ResponseWriter\<close>.\<close>

record reply =
  rp_status :: nat
  rp_header :: header
  rp_cookies :: "cookie list"
  rp_body :: body

definition new_reply :: reply where
  "new_reply = \<lparr>rp_status = 200, rp_header = (\<lambda>_. None), rp_cookies = [], rp_body = Bytes []\<rparr>"

definition write_header :: "nat \<Rightarrow> reply \<Rightarrow> reply" where
  "write_header status w = w\<lparr>rp_status := status\<rparr>"

definition no_content :: "reply \<Rightarrow> reply" where
  "no_content w = w\<lparr>rp_status := 204, rp_body := Bytes []\<rparr>"

definition SetCookie :: "cookie \<Rightarrow> reply \<Rightarrow> reply" where
  "SetCookie c w = w\<lparr>rp_cookies := rp_cookies w @ [c]\<rparr>"

definition Redirect :: "string \<Rightarrow> nat \<Rightarrow> reply \<Rightarrow> reply" where
  "Redirect target status w = w\<lparr>rp_header := hSet ''Location'' target (rp_header w), rp_status := status\<rparr>"

text \<open>\<open>http.StatusText\<close>, for the statuses the program sends.\<close>

definition StatusText :: "nat \<Rightarrow> string" where
  "StatusText n =
    (if n = 400 then ''Bad Request'' else if n = 401 then ''Unauthorized'' else if n = 403 then ''Forbidden''
     else if n = 404 then ''Not Found'' else if n = 405 then ''Method Not Allowed''
     else if n = 407 then ''Proxy Authentication Required'' else if n = 409 then ''Conflict''
     else if n = 421 then ''Misdirected Request'' else if n = 422 then ''Unprocessable Entity''
     else if n = 500 then ''Internal Server Error'' else if n = 502 then ''Bad Gateway''
     else if n = 503 then ''Service Unavailable'' else [])"

section \<open>Request cookies\<close>

definition http_space :: "char \<Rightarrow> bool" where
  "http_space c \<longleftrightarrow> code c = 32 \<or> code c = 9 \<or> code c = 10 \<or> code c = 13"

definition TrimString :: "string \<Rightarrow> string" where
  "TrimString s = rev (dropWhile http_space (rev (dropWhile http_space s)))"

definition cookie_name_ok :: "string \<Rightarrow> bool" where
  "cookie_name_ok s \<longleftrightarrow> s \<noteq> [] \<and> list_all token_char s"

definition cookie_value_byte :: "char \<Rightarrow> bool" where
  "cookie_value_byte c \<longleftrightarrow> 32 \<le> code c \<and> code c < 127 \<and> code c \<noteq> 34 \<and> code c \<noteq> 59 \<and> code c \<noteq> 92"

definition parse_cookie_value :: "string \<Rightarrow> string option" where
  "parse_cookie_value raw =
    (let v = (if 1 < length raw \<and> code (hd raw) = 34 \<and> code (last raw) = 34 then butlast (tl raw) else raw)
     in if list_all cookie_value_byte v then Some v else None)"

definition read_cookie_part :: "string \<Rightarrow> (string \<times> string) option" where
  "read_cookie_part part =
    (let p = TrimString part in if p = [] then None
     else case Cut p CHR ''='' of (n, v, _) \<Rightarrow>
       let name = TrimString n in if \<not> cookie_name_ok name then None
       else map_option (Pair name) (parse_cookie_value v))"

definition read_cookies :: "header \<Rightarrow> (string \<times> string) list" where
  "read_cookies h = List.map_filter read_cookie_part (concat (map (\<lambda>line. Split (TrimString line) CHR '';'') (Values h ''Cookie'')))"

definition rCookie :: "request \<Rightarrow> string \<Rightarrow> string option" where
  "rCookie r name = map_option snd (find (\<lambda>(n, _). n = name) (read_cookies (rq_header r)))"

definition sanitize_cookie_name :: "string \<Rightarrow> string" where
  "sanitize_cookie_name = map (\<lambda>c. if code c = 10 \<or> code c = 13 then CHR ''-'' else c)"

definition sanitize_cookie_value :: "string \<Rightarrow> string" where
  "sanitize_cookie_value v =
    (let s = filter cookie_value_byte v
     in if s = [] then [] else if CHR '' '' \<in> set s \<or> CHR '','' \<in> set s then [CHR 0x22] @ s @ [CHR 0x22] else s)"

definition AddCookie :: "cookie \<Rightarrow> header \<Rightarrow> header" where
  "AddCookie c h =
    (let s = sanitize_cookie_name (ck_name c) @ ''='' @ sanitize_cookie_value (ck_value c); old = Get h ''Cookie''
     in hSet ''Cookie'' (if old \<noteq> [] then old @ ''; '' @ s else s) h)"

lemmas http_eval = token_char_def CanonicalHeaderKey_def Values_def Get_def hSet_def hAdd_def hDel_def
  http_space_def TrimString_def cookie_name_ok_def cookie_value_byte_def parse_cookie_value_def
  read_cookie_part_def read_cookies_def rCookie_def List.map_filter_def new_reply_def

end
