(* ===== verification/Database.thy ===== *)
theory Database
  imports Policy Go_Http "HOL-Library.List_Lexorder" "HOL-Library.Char_ord"
begin

text \<open>
  The tables of \<open>internal/database/migrations\<close>: a record for the rows of each, the database as the
  record of the tables, the constraints the migrations declare, and the operations on a table that
  the statements of the program are made of. Times are nanoseconds since the epoch.
\<close>

section \<open>Rows\<close>

record user_row =
  us_id :: uuid
  us_username :: string
  us_normalized :: string
  us_display :: string
  us_email :: string
  us_source :: string
  us_password :: "string option"
  us_admin :: bool
  us_disabled :: "int option"
  us_last_login :: "int option"
  us_created :: int
  us_updated :: int

record session_row =
  se_hash :: string
  se_user :: uuid
  se_csrf :: string
  se_expires :: int
  se_seen :: int
  se_created :: int

record ldap_values =
  ls_enabled :: bool
  ls_mode :: string
  ls_url :: string
  ls_start_tls :: bool
  ls_base_dn :: string
  ls_bind_dn :: string
  ls_user_filter :: string
  ls_user_dn_template :: string
  ls_username_attribute :: string
  ls_display_name_attribute :: string
  ls_email_attribute :: string
  ls_group_mode :: string
  ls_group_base_dn :: string
  ls_group_filter :: string
  ls_group_name_attribute :: string

record ldap_row = ldap_values +
  ls_updated :: int

record group_row =
  gr_id :: uuid
  gr_dn :: string
  gr_name :: string
  gr_seen :: int
  gr_created :: int

record policy_row =
  po_id :: uuid
  po_name :: string
  po_description :: string
  po_mode :: string
  po_enabled :: bool
  po_created :: int
  po_updated :: int

record rule_row =
  ru_id :: uuid
  ru_policy :: uuid
  ru_kind :: string
  ru_value :: string

record audit_row =
  au_id :: int
  au_actor :: "uuid option"
  au_type :: string
  au_outcome :: string
  au_target :: string
  au_detail :: json
  au_created :: int

record context_row =
  pc_id :: uuid
  pc_user :: uuid
  pc_url :: string
  pc_created :: int
  pc_active :: int
  pc_closed :: "int option"
  pc_upstream :: "uuid option"
  pc_compat :: bool

record route_row =
  pr_id :: uuid
  pr_context :: uuid
  pr_scheme :: string
  pr_host :: string
  pr_port :: int

record ticket_row =
  pt_hash :: string
  pt_user :: uuid
  pt_context :: uuid
  pt_expires :: int
  pt_used :: "int option"

record proxy_session_row =
  ps_hash :: string
  ps_user :: uuid
  ps_expires :: int
  ps_created :: int

record cookie_row =
  co_id :: uuid
  co_context :: uuid
  co_name :: string
  co_domain :: string
  co_path :: string
  co_value :: string
  co_host_only :: bool
  co_secure :: bool
  co_http_only :: bool
  co_same_site :: nat
  co_expires :: "int option"
  co_updated :: int

record upstream_row =
  up_id :: uuid
  up_name :: string
  up_type :: string
  up_host :: string
  up_port :: int
  up_username :: string
  up_password :: "string option"
  up_enabled :: bool
  up_created :: int
  up_updated :: int

record token_row =
  tk_id :: uuid
  tk_hash :: string
  tk_prefix :: string
  tk_user :: uuid
  tk_name :: string
  tk_scopes :: "string list"
  tk_expires :: int
  tk_last_used :: "int option"
  tk_created :: int
  tk_revoked :: "int option"

text \<open>The join tables are lists of pairs; the two single-row tables are values.\<close>

record db =
  users :: "user_row list"
  sessions :: "session_row list"
  ldap_settings :: ldap_row
  ldap_groups :: "group_row list"
  user_ldap_groups :: "(uuid \<times> uuid) list"
  policies :: "policy_row list"
  policy_rules_t :: "rule_row list"
  user_policies :: "(uuid \<times> uuid) list"
  ldap_group_policies :: "(uuid \<times> uuid) list"
  audit_events :: "audit_row list"
  proxy_contexts :: "context_row list"
  proxy_routes :: "route_row list"
  proxy_tickets :: "ticket_row list"
  proxy_sessions :: "proxy_session_row list"
  proxy_cookies :: "cookie_row list"
  upstream_proxies :: "upstream_row list"
  user_upstream_proxies :: "(uuid \<times> uuid) list"
  ldap_group_upstream_proxies :: "(uuid \<times> uuid) list"
  direct_restricted :: bool
  direct_access_users :: "uuid list"
  direct_access_ldap_groups :: "uuid list"
  program_tokens :: "token_row list"

section \<open>Constraints\<close>

text \<open>
  \<open>PRIMARY KEY\<close> and \<open>UNIQUE\<close> are \<open>distinct\<close>, \<open>REFERENCES\<close> is \<open>refers\<close>, and a \<open>CHECK\<close> is tested on
  every row. A statement whose result violates a constraint fails and changes nothing.
  PostgreSQL counts the characters of a token's name; a character has at most four bytes.
\<close>

definition refers :: "'k list \<Rightarrow> 'k list \<Rightarrow> bool" where
  "refers ks ids = list_all (\<lambda>k. k \<in> set ids) ks"

definition users_ok :: "db \<Rightarrow> bool" where
  "users_ok d \<longleftrightarrow> distinct (map us_id (users d)) \<and> distinct (map us_normalized (users d))
    \<and> list_all (\<lambda>u. us_source u = ''local'' \<and> us_password u \<noteq> None \<or> us_source u = ''ldap'') (users d)
    \<and> distinct (map se_hash (sessions d)) \<and> refers (map se_user (sessions d)) (map us_id (users d))
    \<and> distinct (map tk_id (program_tokens d)) \<and> distinct (map tk_hash (program_tokens d))
    \<and> refers (map tk_user (program_tokens d)) (map us_id (users d))
    \<and> list_all (\<lambda>t. tk_scopes t \<noteq> [] \<and> tk_name t \<noteq> [] \<and> length (tk_name t) \<le> 400) (program_tokens d)"

definition groups_ok :: "db \<Rightarrow> bool" where
  "groups_ok d \<longleftrightarrow> distinct (map gr_id (ldap_groups d)) \<and> distinct (map gr_dn (ldap_groups d))
    \<and> distinct (user_ldap_groups d) \<and> refers (map fst (user_ldap_groups d)) (map us_id (users d))
    \<and> refers (map snd (user_ldap_groups d)) (map gr_id (ldap_groups d))
    \<and> ls_mode (ldap_settings d) \<in> {''search_bind'', ''dn_template''} \<and> ls_group_mode (ldap_settings d) \<in> {''member_of'', ''search''}"

definition policies_ok :: "db \<Rightarrow> bool" where
  "policies_ok d \<longleftrightarrow> distinct (map po_id (policies d)) \<and> distinct (map po_name (policies d))
    \<and> list_all (\<lambda>p. po_mode p \<in> {''deny_intranet'', ''whitelist'', ''blacklist'', ''deny_all''}) (policies d)
    \<and> distinct (map ru_id (policy_rules_t d)) \<and> distinct (map (\<lambda>r. (ru_policy r, ru_kind r, ru_value r)) (policy_rules_t d))
    \<and> refers (map ru_policy (policy_rules_t d)) (map po_id (policies d))
    \<and> list_all (\<lambda>r. ru_kind r \<in> {''exact_host'', ''domain_suffix'', ''cidr'', ''url_prefix''}) (policy_rules_t d)
    \<and> distinct (user_policies d) \<and> refers (map fst (user_policies d)) (map us_id (users d))
    \<and> refers (map snd (user_policies d)) (map po_id (policies d))
    \<and> distinct (ldap_group_policies d) \<and> refers (map fst (ldap_group_policies d)) (map gr_id (ldap_groups d))
    \<and> refers (map snd (ldap_group_policies d)) (map po_id (policies d))
    \<and> distinct (map au_id (audit_events d)) \<and> refers (List.map_filter au_actor (audit_events d)) (map us_id (users d))
    \<and> list_all (\<lambda>e. au_outcome e \<in> {''allowed'', ''denied'', ''success'', ''failure''}) (audit_events d)"

definition proxy_ok :: "db \<Rightarrow> bool" where
  "proxy_ok d \<longleftrightarrow> distinct (map pc_id (proxy_contexts d)) \<and> refers (map pc_user (proxy_contexts d)) (map us_id (users d))
    \<and> refers (List.map_filter pc_upstream (proxy_contexts d)) (map up_id (upstream_proxies d))
    \<and> distinct (map pr_id (proxy_routes d))
    \<and> distinct (map (\<lambda>r. (pr_context r, pr_scheme r, pr_host r, pr_port r)) (proxy_routes d))
    \<and> refers (map pr_context (proxy_routes d)) (map pc_id (proxy_contexts d))
    \<and> list_all (\<lambda>r. pr_scheme r \<in> {''http'', ''https''} \<and> 1 \<le> pr_port r \<and> pr_port r \<le> 65535) (proxy_routes d)
    \<and> distinct (map pt_hash (proxy_tickets d)) \<and> refers (map pt_user (proxy_tickets d)) (map us_id (users d))
    \<and> refers (map pt_context (proxy_tickets d)) (map pc_id (proxy_contexts d))
    \<and> distinct (map ps_hash (proxy_sessions d)) \<and> refers (map ps_user (proxy_sessions d)) (map us_id (users d))
    \<and> distinct (map co_id (proxy_cookies d)) \<and> refers (map co_context (proxy_cookies d)) (map pc_id (proxy_contexts d))
    \<and> distinct (map (\<lambda>c. (co_context c, co_name c, co_domain c, co_path c)) (proxy_cookies d))"

definition upstreams_ok :: "db \<Rightarrow> bool" where
  "upstreams_ok d \<longleftrightarrow> distinct (map up_id (upstream_proxies d)) \<and> distinct (map up_name (upstream_proxies d))
    \<and> list_all (\<lambda>u. up_type u \<in> {''http'', ''socks5''} \<and> 1 \<le> up_port u \<and> up_port u \<le> 65535) (upstream_proxies d)
    \<and> distinct (user_upstream_proxies d) \<and> refers (map fst (user_upstream_proxies d)) (map us_id (users d))
    \<and> refers (map snd (user_upstream_proxies d)) (map up_id (upstream_proxies d))
    \<and> distinct (ldap_group_upstream_proxies d) \<and> refers (map fst (ldap_group_upstream_proxies d)) (map gr_id (ldap_groups d))
    \<and> refers (map snd (ldap_group_upstream_proxies d)) (map up_id (upstream_proxies d))
    \<and> distinct (direct_access_users d) \<and> refers (direct_access_users d) (map us_id (users d))
    \<and> distinct (direct_access_ldap_groups d) \<and> refers (direct_access_ldap_groups d) (map gr_id (ldap_groups d))"

definition db_ok :: "db \<Rightarrow> bool" where
  "db_ok d \<longleftrightarrow> users_ok d \<and> groups_ok d \<and> policies_ok d \<and> proxy_ok d \<and> upstreams_ok d"

section \<open>Statements\<close>

text \<open>
  A statement gets the time of \<open>now()\<close> and the database and returns its result and the changed
  database, or the error. \<open>No_Rows\<close> is \<open>pgx.ErrNoRows\<close>.
\<close>

type_synonym 'a statement = "int \<Rightarrow> db \<Rightarrow> ('a \<times> db) result"

definition No_Rows :: string where
  "No_Rows = ''no rows in result set''"

definition read_rows :: "(int \<Rightarrow> db \<Rightarrow> 'a) \<Rightarrow> 'a statement" where
  "read_rows f t d = Inr (f t d, d)"

definition read_row :: "(int \<Rightarrow> db \<Rightarrow> 'a option) \<Rightarrow> 'a statement" where
  "read_row f t d = (case f t d of None \<Rightarrow> Inl No_Rows | Some x \<Rightarrow> Inr (x, d))"

definition store_db :: "'a \<Rightarrow> db \<Rightarrow> ('a \<times> db) result" where
  "store_db x d = (if db_ok d then Inr (x, d) else Inl ''constraint violation'')"

text \<open>Updating and deleting rows; the result counts the rows that changed.\<close>

definition update_rows :: "('r \<Rightarrow> bool) \<Rightarrow> ('r \<Rightarrow> 'r) \<Rightarrow> 'r list \<Rightarrow> 'r list" where
  "update_rows P f rs = map (\<lambda>r. if P r then f r else r) rs"

definition delete_rows :: "('r \<Rightarrow> bool) \<Rightarrow> 'r list \<Rightarrow> 'r list" where
  "delete_rows P rs = filter (\<lambda>r. \<not> P r) rs"

definition affected :: "('r \<Rightarrow> bool) \<Rightarrow> 'r list \<Rightarrow> nat" where
  "affected P rs = length (filter P rs)"

lemma find_update_same: "\<lbrakk>\<And>r. P r \<Longrightarrow> Q (f r) = Q r\<rbrakk> \<Longrightarrow> find Q (update_rows P f rs) = map_option (\<lambda>r. if P r then f r else r) (find Q rs)"
  by (induction rs) (auto simp: update_rows_def)

lemma find_delete: "find Q (delete_rows P rs) = find (\<lambda>r. Q r \<and> \<not> P r) rs"
  by (induction rs) (auto simp: delete_rows_def)

lemma set_update_rows: "r \<in> set (update_rows P f rs) \<longleftrightarrow> (\<exists>s \<in> set rs. r = (if P s then f s else s))"
  by (auto simp: update_rows_def)

lemma update_rows_mem: "s \<in> set rs \<Longrightarrow> (if P s then f s else s) \<in> set (update_rows P f rs)"
  by (auto simp: update_rows_def)

lemma update_rows_hit: "s \<in> set rs \<Longrightarrow> P s \<Longrightarrow> f s \<in> set (update_rows P f rs)"
  and update_rows_miss: "s \<in> set rs \<Longrightarrow> \<not> P s \<Longrightarrow> s \<in> set (update_rows P f rs)"
  by (auto simp: update_rows_def)

lemma map_update_rows: "(\<And>r. key (f r) = key r) \<Longrightarrow> map key (update_rows P f rs) = map key rs"
  by (induction rs) (auto simp: update_rows_def)

lemma set_delete_rows [simp]: "set (delete_rows P rs) = {r \<in> set rs. \<not> P r}"
  by (auto simp: delete_rows_def)

lemma affected_one: "affected P rs = 1 \<Longrightarrow> \<exists>r. filter P rs = [r]"
  by (simp add: affected_def length_Suc_conv)

text \<open>A table with a key: at most one row answers to it.\<close>

lemma key_unique: "distinct (map key rs) \<Longrightarrow> find (\<lambda>r. key r = k) rs = Some r \<longleftrightarrow> r \<in> set rs \<and> key r = k"
  by (auto dest: find_SomeD intro: find_Some_unique distinct_mapD)

lemma store_db_ok: "store_db x d = Inr y \<longleftrightarrow> db_ok d \<and> y = (x, d)"
  by (auto simp: store_db_def)

section \<open>Marks that stay\<close>

text \<open>
  A row with a key carries a mark: a ticket is used, a context is closed, a token is revoked. The
  interface that the clients of such a table rely on: no step clears a mark, removes a marked row or
  gives a second row its key. Then a key that is marked once is marked in every later state, whoever
  runs in between.
\<close>

definition marked :: "(db \<Rightarrow> 'r list) \<Rightarrow> ('r \<Rightarrow> 'k) \<Rightarrow> ('r \<Rightarrow> bool) \<Rightarrow> 'k \<Rightarrow> db \<Rightarrow> bool" where
  "marked rows key mark k d \<longleftrightarrow> distinct (map key (rows d)) \<and> (\<exists>r \<in> set (rows d). key r = k \<and> mark r)"

definition mark_kept :: "(db \<Rightarrow> 'r list) \<Rightarrow> ('r \<Rightarrow> 'k) \<Rightarrow> ('r \<Rightarrow> bool) \<Rightarrow> db \<Rightarrow> db \<Rightarrow> bool" where
  "mark_kept rows key mark d d' \<longleftrightarrow> (\<forall>k. marked rows key mark k d \<longrightarrow> marked rows key mark k d')"

locale sticky_mark =
  fixes rows :: "db \<Rightarrow> 'r list" and key :: "'r \<Rightarrow> 'k" and mark :: "'r \<Rightarrow> bool" and step :: "db \<Rightarrow> db \<Rightarrow> bool"
  assumes step_keeps: "step d d' \<Longrightarrow> mark_kept rows key mark d d'"
begin

lemma stays_marked: "step\<^sup>*\<^sup>* d d' \<Longrightarrow> marked rows key mark k d \<Longrightarrow> marked rows key mark k d'"
  by (induction rule: rtranclp_induct) (use step_keeps in \<open>auto simp: mark_kept_def\<close>)

lemma marked_row: "marked rows key mark k d \<Longrightarrow> r \<in> set (rows d) \<Longrightarrow> key r = k \<Longrightarrow> mark r"
  by (auto simp: marked_def dest: distinct_mapD)

lemma no_unmarked_row: "marked rows key mark k d \<Longrightarrow> find (\<lambda>r. key r = k \<and> \<not> mark r \<and> P r) (rows d) = None"
  using marked_row by (auto simp: find_None_iff)

end

lemma mark_kept_same: "rows d' = rows d \<Longrightarrow> mark_kept rows key mark d d'"
  by (simp add: mark_kept_def marked_def)

lemma mark_kept_append: "rows d' = rows d @ rs \<Longrightarrow> distinct (map key (rows d')) \<Longrightarrow> mark_kept rows key mark d d'"
  by (auto simp: mark_kept_def marked_def)

lemma mark_kept_update:
  assumes "rows d' = update_rows P f (rows d)" and "\<And>r. key (f r) = key r" and "\<And>r. P r \<Longrightarrow> mark r \<Longrightarrow> mark (f r)"
  shows "mark_kept rows key mark d d'"
proof -
  have "(if P r then f r else r) \<in> set (rows d')" if "r \<in> set (rows d)" for r
    unfolding assms(1) using that by (rule update_rows_mem)
  moreover have "key (if P r then f r else r) = key r" "mark r \<Longrightarrow> mark (if P r then f r else r)" for r
    using assms(2,3) by auto
  moreover have "map key (rows d') = map key (rows d)" using assms(1,2) by (simp add: map_update_rows)
  ultimately show ?thesis unfolding mark_kept_def marked_def by metis
qed

lemma marked_update:
  assumes "rows d' = update_rows P f (rows d)" and "\<And>r. key (f r) = key r" and "distinct (map key (rows d))"
    and "r \<in> set (rows d)" and "P r" and "key r = k" and "mark (f r)"
  shows "marked rows key mark k d'"
proof -
  have "f r \<in> set (rows d')" unfolding assms(1) using assms(4,5) by (rule update_rows_hit)
  then show ?thesis using assms by (auto simp: marked_def map_update_rows)
qed

end
