(* ===== verification/Guard.thy ===== *)
theory Guard
  imports Policy
begin

text \<open>
  \<open>internal/proxy/security.go\<close>: the guard that turns a raw URL into a checked target. The resolver
  of the host's DNS names and \<open>golang.org/x/net/idna\<close>'s \<open>Lookup.ToASCII\<close> are arguments.
\<close>

section \<open>Targets\<close>

record target =
  t_url :: url
  t_addresses :: "addr list"
  t_port :: int

record guard =
  g_appHost :: string
  g_proxyDomain :: string

definition stripPort :: "string \<Rightarrow> string" where
  "stripPort value = (case SplitHostPort value of
     Some (host, _) \<Rightarrow> host
   | None \<Rightarrow> TrimSuffix value ''.'')"

definition NewGuard :: "string \<Rightarrow> string \<Rightarrow> guard result" where
  "NewGuard appOrigin proxyBaseDomain = (case url_parse appOrigin of
     None \<Rightarrow> Inl ''invalid app origin''
   | Some app \<Rightarrow>
       if Hostname app = [] then Inl ''invalid app origin''
       else let proxyHost = stripPort proxyBaseDomain
         in if proxyHost = [] then Inl ''invalid proxy base domain''
            else Inr \<lparr>g_appHost = ToLower (Hostname app), g_proxyDomain = ToLower proxyHost\<rparr>)"

definition normalizeTargetURL :: "string \<Rightarrow> string" where
  "normalizeTargetURL raw =
    (let value = TrimSpace raw
     in if value = [] \<or> Contains value ''://'' then value
        else if HasPrefix value ''//'' then ''http:'' @ value
        else ''http://'' @ value)"

definition hardDenied :: "addr \<Rightarrow> bool" where
  "hardDenied address =
    (let a = Unmap address
     in list_ex (\<lambda>value. a = the (ParseAddr value))
          [''169.254.169.254'', ''169.254.170.2'', ''100.100.100.200'', ''fd00:ec2::254''])"

section \<open>Resolving\<close>

text \<open>The port of a target: its own when it has one, the scheme's default otherwise.\<close>

definition target_port :: "url \<Rightarrow> int result" where
  "target_port parsed =
    (let port = (if u_scheme parsed = ''https'' then 443 else 80)
     in if Port parsed \<noteq> [] then
          (case Atoi (Port parsed) of
             None \<Rightarrow> Inl ''invalid port''
           | Some value \<Rightarrow> if value < 1 \<or> 65535 < value then Inl ''invalid port'' else Inr value)
        else Inr port)"

definition itoa_int :: "int \<Rightarrow> string" where
  "itoa_int n = (if n < 0 then CHR ''-'' # itoa (nat (- n)) else itoa (nat n))"

definition canonical_host :: "string \<Rightarrow> string \<Rightarrow> int \<Rightarrow> string" where
  "canonical_host scheme host port =
    (if scheme = ''http'' \<and> port \<noteq> 80 \<or> scheme = ''https'' \<and> port \<noteq> 443
     then JoinHostPort host (itoa_int port) else host)"

definition target_addresses :: "(string \<Rightarrow> addr list result) \<Rightarrow> string \<Rightarrow> addr list result" where
  "target_addresses lookup host = (case ParseAddr host of
     Some literal \<Rightarrow> Inr [Unmap literal]
   | None \<Rightarrow> (case lookup host of
       Inl err \<Rightarrow> Inl (''resolve target host: '' @ err)
     | Inr addresses \<Rightarrow> if addresses = [] then Inl ''resolve target host: %!w(<nil>)'' else Inr addresses))"

definition is_control_plane :: "guard \<Rightarrow> string \<Rightarrow> bool" where
  "is_control_plane g host \<longleftrightarrow> host = g_appHost g \<or> host = g_proxyDomain g \<or> HasSuffix host (''.'' @ g_proxyDomain g)"

definition Resolve ::
  "(string \<Rightarrow> string option) \<Rightarrow> (string \<Rightarrow> addr list result) \<Rightarrow> guard \<Rightarrow> string \<Rightarrow> target result" where
  "Resolve idna lookup g raw = (case url_parse (normalizeTargetURL raw) of
     None \<Rightarrow> Inl ''only absolute HTTP and HTTPS URLs are supported''
   | Some parsed \<Rightarrow>
       if \<not> IsAbs parsed \<or> u_scheme parsed \<noteq> ''http'' \<and> u_scheme parsed \<noteq> ''https''
       then Inl ''only absolute HTTP and HTTPS URLs are supported''
       else if u_user parsed \<noteq> None \<or> Hostname parsed = []
       then Inl ''URL credentials and empty hosts are not allowed''
       else (case idna (TrimSuffix (ToLower (Hostname parsed)) ''.'') of
         None \<Rightarrow> Inl ''invalid internationalized host''
       | Some host \<Rightarrow>
           if is_control_plane g host then Inl ''Tvpn control plane cannot be proxied''
           else (case target_port parsed of
             Inl err \<Rightarrow> Inl err
           | Inr port \<Rightarrow>
               let url = parsed\<lparr>u_host := canonical_host (u_scheme parsed) host port, u_fragment := []\<rparr>
               in (case target_addresses lookup host of
                 Inl err \<Rightarrow> Inl err
               | Inr addresses \<Rightarrow>
                   if list_ex hardDenied (map Unmap addresses) then Inl ''target address is always denied''
                   else Inr \<lparr>t_url = url, t_addresses = map Unmap addresses, t_port = port\<rparr>))))"

section \<open>What a resolved target guarantees\<close>

lemma Unmap_idem [simp]: "Unmap (Unmap a) = Unmap a"
  by (cases a) auto

lemma hardDenied_eval: "hardDenied a \<longleftrightarrow>
    Unmap a \<in> {V4 0xa9fea9fe, V4 0xa9feaa02, V4 0x646464c8, V6 (0xfd000ec2 * 2 ^ 96 + 0x254) []}"
  by (simp add: hardDenied_def netip_eval str_eval Let_def)

lemma target_port_range: "target_port u = Inr p \<Longrightarrow> 1 \<le> p \<and> p \<le> 65535"
  by (auto simp: target_port_def Let_def split: if_splits option.splits)

lemma target_addresses_nonempty: "target_addresses lookup h = Inr as \<Longrightarrow> as \<noteq> []"
  by (auto simp: target_addresses_def split: if_splits option.splits sum.splits)

text \<open>The shape of every target, and the host it was resolved for.\<close>

definition target_ok :: "guard \<Rightarrow> target \<Rightarrow> bool" where
  "target_ok g t \<longleftrightarrow>
     u_scheme (t_url t) \<in> {''http'', ''https''} \<and> u_user (t_url t) = None \<and> u_fragment (t_url t) = []
   \<and> 1 \<le> t_port t \<and> t_port t \<le> 65535
   \<and> t_addresses t \<noteq> [] \<and> (\<forall>a \<in> set (t_addresses t). \<not> hardDenied a \<and> Unmap a = a)"

lemma ResolveE:
  assumes "Resolve idna lookup g raw = Inr t"
  obtains parsed host addresses where "url_parse (normalizeTargetURL raw) = Some parsed"
    and "u_scheme parsed \<in> {''http'', ''https''}" and "u_user parsed = None" and "Hostname parsed \<noteq> []"
    and "idna (TrimSuffix (ToLower (Hostname parsed)) ''.'') = Some host" and "\<not> is_control_plane g host"
    and "target_port parsed = Inr (t_port t)" and "target_addresses lookup host = Inr addresses"
    and "\<forall>a \<in> set addresses. \<not> hardDenied (Unmap a)"
    and "t_url t = parsed\<lparr>u_host := canonical_host (u_scheme parsed) host (t_port t), u_fragment := []\<rparr>"
    and "t_addresses t = map Unmap addresses"
proof -
  show ?thesis
    using assms unfolding Resolve_def
    by (auto simp: Let_def list_ex_iff split: option.splits if_splits sum.splits intro!: that)
qed

lemma Resolve_ok: "Resolve idna lookup g raw = Inr t \<Longrightarrow> target_ok g t"
  by (erule ResolveE) (auto simp: target_ok_def dest: target_port_range target_addresses_nonempty)

text \<open>
  The host of the target's URL is the host that was resolved, and its port is the port that is
  dialled, when the encoder's output holds no colon and no bracket (it is made of letters, digits,
  hyphens and dots).
\<close>

definition plain_host :: "string \<Rightarrow> bool" where
  "plain_host h \<longleftrightarrow> CHR '':'' \<notin> set h \<and> CHR ''['' \<notin> set h \<and> CHR '']'' \<notin> set h"

lemma plain_no_bracket: "plain_host h \<Longrightarrow> \<not> HasPrefix h ''[''"
  by (cases h) (auto simp: plain_host_def HasPrefix_def)

lemma plain_no_colon: "plain_host h \<Longrightarrow> cut_last h CHR '':'' = None"
  by (simp add: plain_host_def cut_last_None_iff)

lemma splitHostPort_plain: "plain_host h \<Longrightarrow> splitHostPort h = (h, [])"
  by (simp add: splitHostPort_def plain_no_colon plain_no_bracket)

lemma splitHostPort_port:
  assumes "plain_host h" shows "splitHostPort (h @ CHR '':'' # itoa n) = (h, itoa n)"
proof -
  have c: "CHR '':'' \<notin> set (itoa n)" using itoa_no by (fastforce simp: char_eval)
  have d: "list_all is_digit (itoa n)" using itoa_no by (auto simp: list_all_iff)
  show ?thesis
    using cut_last_append [OF c, of h] d plain_no_bracket [OF assms] by (simp add: splitHostPort_def validOptionalPort_def)
qed

lemma JoinHostPort_plain: "plain_host h \<Longrightarrow> JoinHostPort h p = h @ CHR '':'' # p"
  by (simp add: JoinHostPort_def plain_host_def)

lemma canonical_host_split:
  assumes "plain_host h" and "0 \<le> p"
  shows "splitHostPort (canonical_host s h p) =
    (h, if s = ''http'' \<and> p \<noteq> 80 \<or> s = ''https'' \<and> p \<noteq> 443 then itoa (nat p) else [])"
  using assms by (simp add: canonical_host_def JoinHostPort_plain splitHostPort_plain splitHostPort_port itoa_int_def)

section \<open>Properties\<close>

text \<open>
  C2: What the guard promises of a target it returns. It is an HTTP or HTTPS URL without credentials
  and fragment; its port is between 1 and 65535; it has at least one address, each in its unmapped
  form and none of them a cloud metadata address. Its host is not the application's or the proxy
  domain's, and the addresses are those of the very host that the policies will look at: the literal
  address itself or what the resolver answered for that name. The explicit port is present exactly
  when it is not the scheme's default.
\<close>

theorem resolve_target_safe:
  assumes "Resolve idna lookup g raw = Inr t" and "\<And>s h. idna s = Some h \<Longrightarrow> plain_host h"
  shows "target_ok g t \<and> \<not> is_control_plane g (Hostname (t_url t))
    \<and> (\<exists>as. target_addresses lookup (Hostname (t_url t)) = Inr as \<and> t_addresses t = map Unmap as)
    \<and> Port (t_url t) = (if t_port t = (if u_scheme (t_url t) = ''https'' then 443 else 80) then [] else itoa (nat (t_port t)))"
  using assms(1)
proof (rule ResolveE)
  fix parsed host addresses
  assume r: "u_scheme parsed \<in> {''http'', ''https''}" "idna (TrimSuffix (ToLower (Hostname parsed)) ''.'') = Some host"
    "\<not> is_control_plane g host" "target_port parsed = Inr (t_port t)" "target_addresses lookup host = Inr addresses"
    "t_url t = parsed\<lparr>u_host := canonical_host (u_scheme parsed) host (t_port t), u_fragment := []\<rparr>"
    "t_addresses t = map Unmap addresses"
  have sp: "splitHostPort (u_host (t_url t)) = (host,
      if u_scheme parsed = ''http'' \<and> t_port t \<noteq> 80 \<or> u_scheme parsed = ''https'' \<and> t_port t \<noteq> 443 then itoa (nat (t_port t)) else [])"
    using r(2,6) assms(2) target_port_range [OF r(4)] by (simp add: canonical_host_split)
  then have "Hostname (t_url t) = host" by (simp add: Hostname_def)
  moreover have "Port (t_url t) = (if t_port t = (if u_scheme (t_url t) = ''https'' then 443 else 80) then [] else itoa (nat (t_port t)))"
    using sp r(1,6) by (auto simp: Port_def)
  ultimately show ?thesis using r Resolve_ok [OF assms(1)] by auto
qed

definition sample_guard :: guard where
  "sample_guard = \<lparr>g_appHost = ''app.example.org'', g_proxyDomain = ''proxy.example.org''\<rparr>"

definition sample_idna :: "string \<Rightarrow> string option" where
  "sample_idna h = (if plain_host h then Some h else None)"

definition sample_lookup :: "string \<Rightarrow> addr list result" where
  "sample_lookup h = (if h = ''db.example.com'' then Inr [V4 0x08080808] else Inl ''no such host'')"

lemmas url_eval = url_parse_def parse_body_def getScheme_def has_ctl_def parseAuthority_def parseHost_def
  validUserinfo_def setPath_def setFragment_def empty_url_def Hostname_def Port_def splitHostPort_def validOptionalPort_def
  validEncoded_def shouldEscape_def IsAbs_def EscapedPath_def escape_def escape_char_def pct_def upper_hex_def

lemmas guard_eval = Resolve_def sample_guard_def sample_idna_def sample_lookup_def normalizeTargetURL_def plain_host_def
  is_control_plane_def target_port_def target_addresses_def canonical_host_def JoinHostPort_def itoa_int_def

lemma sample_resolve:
  "Resolve sample_idna sample_lookup sample_guard ''https://DB.example.com:8443/q?x=1#f'' =
     Inr \<lparr>t_url = empty_url\<lparr>u_scheme := ''https'', u_host := ''db.example.com:8443'', u_path := ''/q'', u_rawquery := ''x=1''\<rparr>,
          t_addresses = [V4 0x08080808], t_port = 8443\<rparr>"
  by (simp add: guard_eval url_eval hardDenied_eval netip_eval str_eval Let_def)

theorem resolve_target_safe_witness:
  "\<not> is_control_plane sample_guard ''db.example.com'' \<and> target_addresses sample_lookup ''db.example.com'' = Inr [V4 0x08080808]"
  using resolve_target_safe [OF sample_resolve]
  by (simp add: sample_idna_def url_eval guard_eval netip_eval str_eval Let_def split: if_splits)

text \<open>
  The cloud metadata addresses are refused in every spelling of the address family: the IPv4
  ones also when the name resolves to their IPv4-mapped form. An IPv6 address that carries a zone is
  never one of the four.
\<close>

theorem hard_denied_exact:
  "hardDenied a = (case Unmap a of
     V4 w \<Rightarrow> w \<in> {0xa9fea9fe, 0xa9feaa02, 0x646464c8}
   | V6 w z \<Rightarrow> z = [] \<and> w = 0xfd000ec2 * 2 ^ 96 + 0x254)"
  by (auto simp: hardDenied_eval split: addr.split)

end
