(* ===== verification/Httpapi.thy ===== *)
theory Httpapi
  imports Go_Http
begin

text \<open>
  \<open>internal/httpapi/httpapi.go\<close>: the error codes, their catalogue, and the writers every handler
  uses to answer. The Chinese messages of the catalogue are UTF-8 byte sequences, given in hexadecimal.
\<close>

section \<open>Error codes\<close>

type_synonym error_code = string

definition ErrAdminRequired :: error_code where "ErrAdminRequired = ''admin_required''"

definition ErrContextNotFound :: error_code where "ErrContextNotFound = ''context_not_found''"

definition ErrCSRFFailed :: error_code where "ErrCSRFFailed = ''csrf_failed''"

definition ErrDirectAccessDenied :: error_code where "ErrDirectAccessDenied = ''direct_access_denied''"

definition ErrInternal :: error_code where "ErrInternal = ''internal_error''"

definition ErrInvalidAssignment :: error_code where "ErrInvalidAssignment = ''invalid_assignment''"

definition ErrInvalidCookie :: error_code where "ErrInvalidCookie = ''invalid_cookie''"

definition ErrInvalidCredentials :: error_code where "ErrInvalidCredentials = ''invalid_credentials''"

definition ErrInvalidID :: error_code where "ErrInvalidID = ''invalid_id''"

definition ErrInvalidLDAP :: error_code where "ErrInvalidLDAP = ''invalid_ldap''"

definition ErrInvalidPassword :: error_code where "ErrInvalidPassword = ''invalid_password''"

definition ErrInvalidPolicy :: error_code where "ErrInvalidPolicy = ''invalid_policy''"

definition ErrInvalidRequest :: error_code where "ErrInvalidRequest = ''invalid_request''"

definition ErrInvalidScope :: error_code where "ErrInvalidScope = ''invalid_scope''"

definition ErrInvalidTarget :: error_code where "ErrInvalidTarget = ''invalid_target''"

definition ErrInvalidTicket :: error_code where "ErrInvalidTicket = ''invalid_ticket''"

definition ErrInvalidToken :: error_code where "ErrInvalidToken = ''invalid_token''"

definition ErrInvalidUpstreamProxy :: error_code where "ErrInvalidUpstreamProxy = ''invalid_upstream_proxy''"

definition ErrInvalidUser :: error_code where "ErrInvalidUser = ''invalid_user''"

definition ErrLastAdmin :: error_code where "ErrLastAdmin = ''last_admin''"

definition ErrLDAPUnavailable :: error_code where "ErrLDAPUnavailable = ''ldap_unavailable''"

definition ErrMethodNotAllowed :: error_code where "ErrMethodNotAllowed = ''method_not_allowed''"

definition ErrNotFound :: error_code where "ErrNotFound = ''not_found''"

definition ErrProxyAuthentication :: error_code where "ErrProxyAuthentication = ''proxy_authentication_required''"

definition ErrProxySessionInvalid :: error_code where "ErrProxySessionInvalid = ''proxy_session_invalid''"

definition ErrRedirectDenied :: error_code where "ErrRedirectDenied = ''redirect_denied''"

definition ErrRewriteFailed :: error_code where "ErrRewriteFailed = ''rewrite_failed''"

definition ErrRouteNotFound :: error_code where "ErrRouteNotFound = ''route_not_found''"

definition ErrScopeRequired :: error_code where "ErrScopeRequired = ''scope_required''"

definition ErrTargetDenied :: error_code where "ErrTargetDenied = ''target_denied''"

definition ErrTargetUnavailable :: error_code where "ErrTargetUnavailable = ''target_unavailable''"

definition ErrTokenNotFound :: error_code where "ErrTokenNotFound = ''token_not_found''"

definition ErrUnauthorized :: error_code where "ErrUnauthorized = ''unauthorized''"

definition ErrUpstreamError :: error_code where "ErrUpstreamError = ''upstream_error''"

definition ErrUpstreamProxyDenied :: error_code where "ErrUpstreamProxyDenied = ''upstream_proxy_denied''"

definition ErrUpstreamProxyNotFound :: error_code where "ErrUpstreamProxyNotFound = ''upstream_proxy_not_found''"

definition ErrUpstreamProxyUnavailable :: error_code where "ErrUpstreamProxyUnavailable = ''upstream_proxy_unavailable''"

definition ErrWebSocketUpstreamFailed :: error_code where "ErrWebSocketUpstreamFailed = ''websocket_upstream_failed''"

definition ErrWebUnavailable :: error_code where "ErrWebUnavailable = ''web_unavailable''"

definition ErrMisdirectedRequest :: error_code where "ErrMisdirectedRequest = ''misdirected_request''"

lemmas error_codes = ErrAdminRequired_def ErrContextNotFound_def ErrCSRFFailed_def ErrDirectAccessDenied_def
  ErrInternal_def ErrInvalidAssignment_def ErrInvalidCookie_def ErrInvalidCredentials_def
  ErrInvalidID_def ErrInvalidLDAP_def ErrInvalidPassword_def ErrInvalidPolicy_def
  ErrInvalidRequest_def ErrInvalidScope_def ErrInvalidTarget_def ErrInvalidTicket_def
  ErrInvalidToken_def ErrInvalidUpstreamProxy_def ErrInvalidUser_def ErrLastAdmin_def
  ErrLDAPUnavailable_def ErrMethodNotAllowed_def ErrNotFound_def ErrProxyAuthentication_def
  ErrProxySessionInvalid_def ErrRedirectDenied_def ErrRewriteFailed_def ErrRouteNotFound_def
  ErrScopeRequired_def ErrTargetDenied_def ErrTargetUnavailable_def ErrTokenNotFound_def
  ErrUnauthorized_def ErrUpstreamError_def ErrUpstreamProxyDenied_def ErrUpstreamProxyNotFound_def
  ErrUpstreamProxyUnavailable_def ErrWebSocketUpstreamFailed_def ErrWebUnavailable_def
  ErrMisdirectedRequest_def

section \<open>The catalogue\<close>

record errorDefinition =
  ed_Status :: nat
  ed_MessageID :: string
  ed_ZH :: string
  ed_EN :: string

fun utf8 :: "string \<Rightarrow> string" where
  "utf8 (a # b # s) = char_of (16 * unhex a + unhex b) # utf8 s"
| "utf8 _ = []"

definition entry :: "error_code \<Rightarrow> nat \<Rightarrow> string \<Rightarrow> string \<Rightarrow> string \<Rightarrow> error_code \<times> errorDefinition" where
  "entry c status mid zh en = (c, \<lparr>ed_Status = status, ed_MessageID = mid, ed_ZH = utf8 zh, ed_EN = en\<rparr>)"

definition errorCatalog :: "(error_code \<times> errorDefinition) list" where
  "errorCatalog = [
     entry ErrAdminRequired 403 ''error.auth.admin_required''
       ''e99c80e8a681e7aea1e79086e59198e69d83e99990''
       ''Administrator access is required'',
     entry ErrContextNotFound 404 ''error.proxy.context_not_found''
       ''e4bba3e79086e4b88ae4b88be69687e4b88de5ad98e59ca8''
       ''Proxy context was not found'',
     entry ErrCSRFFailed 403 ''error.auth.csrf_failed''
       ''4353524620e6a0a1e9aa8ce5a4b1e8b4a5''
       ''CSRF validation failed'',
     entry ErrDirectAccessDenied 403 ''error.proxy.direct_access_denied''
       ''e69caae88eb7e68e88e69d83e4bdbfe794a8e69c8de58aa1e7abafe79bb4e8bf9e''
       ''Direct server access is not authorized'',
     entry ErrInternal 500 ''error.common.internal''
       ''e69c8de58aa1e599a8e58685e983a8e99499e8afaf''
       ''Internal server error'',
     entry ErrInvalidAssignment 422 ''error.admin.invalid_assignment''
       ''e8b584e6ba90e68e88e69d83e697a0e69588''
       ''Resource assignment is invalid'',
     entry ErrInvalidCookie 422 ''error.proxy.invalid_cookie''
       ''436f6f6b696520e6a0bce5bc8fe697a0e69588''
       ''Cookie is invalid'',
     entry ErrInvalidCredentials 401 ''error.auth.invalid_credentials''
       ''e794a8e688b7e5908de68896e5af86e7a081e99499e8afaf''
       ''Invalid username or password'',
     entry ErrInvalidID 400 ''error.common.invalid_id''
       ''494420e6a0bce5bc8fe697a0e69588''
       ''ID is invalid'',
     entry ErrInvalidLDAP 422 ''error.admin.invalid_ldap''
       ''4c44415020e9858de7bdaee697a0e69588''
       ''LDAP configuration is invalid'',
     entry ErrInvalidPassword 422 ''error.admin.invalid_password''
       ''e5af86e7a081e4b88de7aca6e59088e8a681e6b182''
       ''Password does not meet requirements'',
     entry ErrInvalidPolicy 422 ''error.admin.invalid_policy''
       ''e8aebfe997aee7ad96e795a5e697a0e69588''
       ''Access policy is invalid'',
     entry ErrInvalidRequest 400 ''error.common.invalid_request''
       ''e8afb7e6b182e6a0bce5bc8fe697a0e69588''
       ''Request is invalid'',
     entry ErrInvalidScope 422 ''error.auth.invalid_scope''
       ''e4bba4e7898ce69d83e99990e88c83e59bb4e697a0e69588''
       ''Token scope is invalid'',
     entry ErrInvalidTarget 422 ''error.proxy.invalid_target''
       ''e79baee6a0872055524c20e697a0e69588''
       ''Target URL is invalid'',
     entry ErrInvalidTicket 401 ''error.proxy.invalid_ticket''
       ''e4bba3e79086e7a5a8e68daee697a0e69588e68896e5b7b2e4bdbfe794a8''
       ''Proxy ticket is invalid or already used'',
     entry ErrInvalidToken 401 ''error.auth.invalid_token''
       ''e7a88be5ba8fe4bba4e7898ce697a0e69588e68896e5b7b2e8bf87e69c9f''
       ''Program token is invalid or expired'',
     entry ErrInvalidUpstreamProxy 422 ''error.admin.invalid_upstream_proxy''
       ''e4b88ae6b8b8e4bba3e79086e9858de7bdaee697a0e69588''
       ''Upstream proxy configuration is invalid'',
     entry ErrInvalidUser 422 ''error.admin.invalid_user''
       ''e794a8e688b7e9858de7bdaee697a0e69588''
       ''User configuration is invalid'',
     entry ErrLastAdmin 409 ''error.admin.last_admin''
       ''e4b88de883bde7a681e794a8e68896e9998de7baa7e69c80e5908ee4b880e4b8aae7aea1e79086e59198''
       ''The last administrator cannot be disabled or demoted'',
     entry ErrLDAPUnavailable 502 ''error.admin.ldap_unavailable''
       ''4c44415020e8bf9ee68ea5e68896e69c8de58aa1e7bb91e5ae9ae5a4b1e8b4a5''
       ''LDAP connection or service bind failed'',
     entry ErrMethodNotAllowed 405 ''error.common.method_not_allowed''
       ''e8afb7e6b182e696b9e6b395e4b88de58f97e694afe68c81''
       ''Method is not allowed'',
     entry ErrNotFound 404 ''error.common.not_found''
       ''e8b584e6ba90e4b88de5ad98e59ca8''
       ''Resource was not found'',
     entry ErrProxyAuthentication 407 ''error.proxy.authentication_required''
       ''e99c80e8a681e69c89e69588e79a84e7a88be5ba8fe4bba4e7898ce68896e4bba3e79086e4bc9ae8af9d''
       ''A valid program token or proxy session is required'',
     entry ErrProxySessionInvalid 401 ''error.proxy.session_invalid''
       ''e4bba3e79086e4bc9ae8af9de5b7b2e5a4b1e69588''
       ''Proxy session has expired'',
     entry ErrRedirectDenied 403 ''error.proxy.redirect_denied''
       ''e8aebfe997aee7ad96e795a5e68b92e7bb9de9878de5ae9ae59091e79baee6a087''
       ''Redirect target was denied by policy'',
     entry ErrRewriteFailed 502 ''error.proxy.rewrite_failed''
       ''e79baee6a087e9a1b5e99da2e697a0e6b395e5ae89e585a8e694b9e58699''
       ''Target page could not be rewritten safely'',
     entry ErrRouteNotFound 404 ''error.proxy.route_not_found''
       ''e4bba3e79086e8b7afe794b1e4b88de5ad98e59ca8''
       ''Proxy route was not found'',
     entry ErrScopeRequired 403 ''error.auth.scope_required''
       ''e7a88be5ba8fe4bba4e7898ce7bcbae5b091e68980e99c80e69d83e99990''
       ''Program token lacks the required scope'',
     entry ErrTargetDenied 403 ''error.proxy.target_denied''
       ''e8aebfe997aee7ad96e795a5e68b92e7bb9de8afa5e79baee6a087''
       ''Target was denied by policy'',
     entry ErrTargetUnavailable 502 ''error.proxy.target_unavailable''
       ''e79baee6a087e59cb0e59d80e4b88de58fafe794a8''
       ''Target is unavailable'',
     entry ErrTokenNotFound 404 ''error.auth.token_not_found''
       ''e7a88be5ba8fe4bba4e7898ce4b88de5ad98e59ca8''
       ''Program token was not found'',
     entry ErrUnauthorized 401 ''error.auth.unauthorized''
       ''e99c80e8a681e799bbe5bd95e68896e7a88be5ba8fe4bba4e7898c''
       ''Authentication is required'',
     entry ErrUpstreamError 502 ''error.proxy.upstream_error''
       ''e8bf9ee68ea5e79baee6a087e7ab99e782b9e5a4b1e8b4a5''
       ''Failed to connect to target'',
     entry ErrUpstreamProxyDenied 403 ''error.proxy.upstream_proxy_denied''
       ''e69caae88eb7e68e88e69d83e68896e4bba3e79086e5b7b2e5819ce794a8''
       ''Upstream proxy is disabled or not authorized'',
     entry ErrUpstreamProxyNotFound 404 ''error.admin.upstream_proxy_not_found''
       ''e4b88ae6b8b8e4bba3e79086e4b88de5ad98e59ca8''
       ''Upstream proxy was not found'',
     entry ErrUpstreamProxyUnavailable 502 ''error.proxy.upstream_proxy_unavailable''
       ''e4b88ae6b8b8e4bba3e79086e4b88de58fafe794a8e68896e68e88e69d83e5b7b2e692a4e99480''
       ''Upstream proxy is unavailable or authorization was revoked'',
     entry ErrWebSocketUpstreamFailed 502 ''error.proxy.websocket_upstream_failed''
       ''e697a0e6b395e8bf9ee68ea5e4b88ae6b8b820576562536f636b6574''
       ''Failed to connect to upstream WebSocket'',
     entry ErrWebUnavailable 503 ''error.common.web_unavailable''
       ''57656220e7958ce99da2e4b88de58fafe794a8''
       ''Web interface is unavailable'',
     entry ErrMisdirectedRequest 421 ''error.common.misdirected_request''
       ''e8afb7e6b18220486f737420e4b88de5b19ee4ba8ee6ada4e69c8de58aa1''
       ''Request host does not belong to this service''
    ]"

section \<open>Writers\<close>

definition prefersEnglish :: "string \<Rightarrow> bool" where
  "prefersEnglish value =
    (let languages = map (\<lambda>l. TrimSpace (hd (Split l CHR '';''))) (Split (ToLower value) CHR '','')
     in case find (\<lambda>l. HasPrefix l ''zh'' \<or> HasPrefix l ''en'') languages of
          None \<Rightarrow> False
        | Some l \<Rightarrow> \<not> HasPrefix l ''zh'')"

definition WriteJSON :: "nat \<Rightarrow> json \<Rightarrow> reply \<Rightarrow> reply" where
  "WriteJSON status value w =
    w\<lparr>rp_header := (if Get (rp_header w) ''Content-Type'' = [] then hSet ''Content-Type'' ''application/json'' (rp_header w)
                   else rp_header w), rp_status := status, rp_body := Json value\<rparr>"

definition Problem :: "reply \<Rightarrow> request \<Rightarrow> error_code \<Rightarrow> reply" where
  "Problem w r code0 =
    (let (code, ed) = (case map_of errorCatalog code0 of
           None \<Rightarrow> (ErrInternal, the (map_of errorCatalog ErrInternal))
         | Some ed \<Rightarrow> (code0, ed));
       message = (if prefersEnglish (Get (rq_header r) ''Accept-Language'') then ed_EN ed else ed_ZH ed);
       w1 = w\<lparr>rp_header := hSet ''Tvpn-Error-Code'' code (hSet ''Content-Type'' ''application/problem+json'' (rp_header w))\<rparr>
     in WriteJSON (ed_Status ed)
       (JObj [(''type'', JStr (''https://tvpn.invalid/problems/'' @ code)),
              (''title'', JStr (StatusText (ed_Status ed))),
              (''status'', JNum (int (ed_Status ed))),
              (''code'', JStr code),
              (''message_id'', JStr (ed_MessageID ed)),
              (''message'', JStr message)]) w1)"

text \<open>
  \<open>DecodeJSON\<close> reads at most a mebibyte of the body. The decoder of \<open>encoding/json\<close> for the handler's
  input struct is the argument \<open>dec\<close>; it sees the bytes the limited reader delivers.
\<close>

definition DecodeJSON :: "(string \<Rightarrow> 'a option) \<Rightarrow> reply \<Rightarrow> request \<Rightarrow> reply + 'a" where
  "DecodeJSON dec w r = (case dec (take (2 ^ 20) (rq_body r)) of
     None \<Rightarrow> Inl (Problem w r ErrInvalidRequest)
   | Some x \<Rightarrow> Inr x)"

section \<open>Problem replies\<close>

lemma errorCatalog_codes: "map fst errorCatalog =
  [ErrAdminRequired, ErrContextNotFound, ErrCSRFFailed, ErrDirectAccessDenied, ErrInternal,
   ErrInvalidAssignment, ErrInvalidCookie, ErrInvalidCredentials, ErrInvalidID, ErrInvalidLDAP,
   ErrInvalidPassword, ErrInvalidPolicy, ErrInvalidRequest, ErrInvalidScope, ErrInvalidTarget,
   ErrInvalidTicket, ErrInvalidToken, ErrInvalidUpstreamProxy, ErrInvalidUser, ErrLastAdmin,
   ErrLDAPUnavailable, ErrMethodNotAllowed, ErrNotFound, ErrProxyAuthentication,
   ErrProxySessionInvalid, ErrRedirectDenied, ErrRewriteFailed, ErrRouteNotFound, ErrScopeRequired,
   ErrTargetDenied, ErrTargetUnavailable, ErrTokenNotFound, ErrUnauthorized, ErrUpstreamError,
   ErrUpstreamProxyDenied, ErrUpstreamProxyNotFound, ErrUpstreamProxyUnavailable,
   ErrWebSocketUpstreamFailed, ErrWebUnavailable, ErrMisdirectedRequest]"
  by (simp add: errorCatalog_def entry_def del: utf8.simps)

lemma errorCatalog_status_list: "map (ed_Status \<circ> snd) errorCatalog =
  [403, 404, 403, 403, 500, 422, 422, 401, 400, 422, 422, 422, 400, 422, 422, 401, 401, 422, 422, 409,
   502, 405, 404, 407, 401, 403, 502, 404, 403, 403, 502, 404, 401, 502, 403, 404, 502, 502, 503, 421]"
  by (simp add: errorCatalog_def entry_def del: utf8.simps)

definition problem_statuses :: "nat list" where
  "problem_statuses = [400, 401, 403, 404, 405, 407, 409, 421, 422, 500, 502, 503]"

lemma StatusText_known: "n \<in> set problem_statuses \<Longrightarrow> StatusText n \<noteq> []"
  by (auto simp: problem_statuses_def StatusText_def)

lemma errorCatalog_statuses: "(c, d) \<in> set errorCatalog \<Longrightarrow> ed_Status d \<in> set problem_statuses"
proof -
  assume "(c, d) \<in> set errorCatalog"
  then have "ed_Status d \<in> set (map (ed_Status \<circ> snd) errorCatalog)" by force
  then show ?thesis unfolding errorCatalog_status_list problem_statuses_def by auto
qed

lemma ErrInternal_entry: "\<exists>d. map_of errorCatalog ErrInternal = Some d"
proof -
  have "ErrInternal \<in> set (map fst errorCatalog)"
    unfolding errorCatalog_codes by simp
  then show ?thesis by (cases "map_of errorCatalog ErrInternal") (auto simp: map_of_eq_None_iff)
qed

text \<open>The code a problem reply carries, and the entry it is built from.\<close>

definition problem_code :: "error_code \<Rightarrow> error_code" where
  "problem_code c = (if c \<in> fst ` set errorCatalog then c else ErrInternal)"

definition problem_entry :: "error_code \<Rightarrow> errorDefinition" where
  "problem_entry c = the (map_of errorCatalog (problem_code c))"

lemma problem_lookup:
  "(case map_of errorCatalog c of None \<Rightarrow> (ErrInternal, the (map_of errorCatalog ErrInternal)) | Some ed \<Rightarrow> (c, ed))
   = (problem_code c, problem_entry c)"
  by (auto simp: problem_code_def problem_entry_def map_of_eq_None_iff split: option.split dest: map_of_SomeD
      intro: rev_image_eqI)

lemma problem_entry_mem: "(problem_code c, problem_entry c) \<in> set errorCatalog"
proof -
  have "problem_code c \<in> fst ` set errorCatalog"
    using ErrInternal_entry by (auto simp: problem_code_def dest: map_of_SomeD intro: rev_image_eqI)
  then have "\<exists>d. map_of errorCatalog (problem_code c) = Some d"
    by (metis map_of_eq_None_iff not_None_eq)
  then show ?thesis by (auto simp: problem_entry_def dest: map_of_SomeD)
qed

lemma Problem_eq: "Problem w r c =
    (let d = problem_entry c in
     w\<lparr>rp_header := hSet ''Tvpn-Error-Code'' (problem_code c) (hSet ''Content-Type'' ''application/problem+json'' (rp_header w)),
       rp_status := ed_Status d,
       rp_body := rp_body (Problem w r c)\<rparr>)"
  by (simp add: Problem_def problem_lookup WriteJSON_def header_simps Let_def CanonicalHeaderKey_def token_char_def char_eval)

lemma Problem_status: "rp_status (Problem w r c) = ed_Status (problem_entry c)"
  by (subst Problem_eq) (simp add: Let_def)

lemma Problem_known_status: "rp_status (Problem w r c) \<in> set problem_statuses"
  unfolding Problem_status by (rule errorCatalog_statuses [OF problem_entry_mem])

lemma Problem_error: "400 \<le> rp_status (Problem w r c) \<and> rp_status (Problem w r c) < 600"
  using Problem_known_status [of w r c] by (auto simp: problem_statuses_def)

text \<open>The status of each code.\<close>

lemma errorCatalog_table: "map (\<lambda>(c, d). (c, ed_Status d)) errorCatalog = [(ErrAdminRequired, 403),
   (ErrContextNotFound, 404),
   (ErrCSRFFailed, 403),
   (ErrDirectAccessDenied, 403),
   (ErrInternal, 500),
   (ErrInvalidAssignment, 422),
   (ErrInvalidCookie, 422),
   (ErrInvalidCredentials, 401),
   (ErrInvalidID, 400),
   (ErrInvalidLDAP, 422),
   (ErrInvalidPassword, 422),
   (ErrInvalidPolicy, 422),
   (ErrInvalidRequest, 400),
   (ErrInvalidScope, 422),
   (ErrInvalidTarget, 422),
   (ErrInvalidTicket, 401),
   (ErrInvalidToken, 401),
   (ErrInvalidUpstreamProxy, 422),
   (ErrInvalidUser, 422),
   (ErrLastAdmin, 409),
   (ErrLDAPUnavailable, 502),
   (ErrMethodNotAllowed, 405),
   (ErrNotFound, 404),
   (ErrProxyAuthentication, 407),
   (ErrProxySessionInvalid, 401),
   (ErrRedirectDenied, 403),
   (ErrRewriteFailed, 502),
   (ErrRouteNotFound, 404),
   (ErrScopeRequired, 403),
   (ErrTargetDenied, 403),
   (ErrTargetUnavailable, 502),
   (ErrTokenNotFound, 404),
   (ErrUnauthorized, 401),
   (ErrUpstreamError, 502),
   (ErrUpstreamProxyDenied, 403),
   (ErrUpstreamProxyNotFound, 404),
   (ErrUpstreamProxyUnavailable, 502),
   (ErrWebSocketUpstreamFailed, 502),
   (ErrWebUnavailable, 503),
   (ErrMisdirectedRequest, 421)]"
  by (simp add: errorCatalog_def entry_def del: utf8.simps)

lemma Problem_status_of:
  assumes "map_of (map (\<lambda>(c, d). (c, ed_Status d)) errorCatalog) c = Some n"
  shows "rp_status (Problem w r c) = n"
proof -
  obtain d where d: "map_of errorCatalog c = Some d" "ed_Status d = n"
    using assms by (auto simp: map_of_map)
  then have "problem_code c = c" by (auto simp: problem_code_def dest!: map_of_SomeD intro: rev_image_eqI)
  then show ?thesis using d by (simp add: Problem_status problem_entry_def)
qed

lemma distinct_codes: "distinct (map fst (map (\<lambda>(c, d). (c, ed_Status d)) errorCatalog))"
  unfolding errorCatalog_table by (simp add: error_codes)

lemma Problem_statuses:
  "rp_status (Problem w r ErrAdminRequired) = 403"
  "rp_status (Problem w r ErrContextNotFound) = 404"
  "rp_status (Problem w r ErrCSRFFailed) = 403"
  "rp_status (Problem w r ErrDirectAccessDenied) = 403"
  "rp_status (Problem w r ErrInternal) = 500"
  "rp_status (Problem w r ErrInvalidAssignment) = 422"
  "rp_status (Problem w r ErrInvalidCookie) = 422"
  "rp_status (Problem w r ErrInvalidCredentials) = 401"
  "rp_status (Problem w r ErrInvalidID) = 400"
  "rp_status (Problem w r ErrInvalidLDAP) = 422"
  "rp_status (Problem w r ErrInvalidPassword) = 422"
  "rp_status (Problem w r ErrInvalidPolicy) = 422"
  "rp_status (Problem w r ErrInvalidRequest) = 400"
  "rp_status (Problem w r ErrInvalidScope) = 422"
  "rp_status (Problem w r ErrInvalidTarget) = 422"
  "rp_status (Problem w r ErrInvalidTicket) = 401"
  "rp_status (Problem w r ErrInvalidToken) = 401"
  "rp_status (Problem w r ErrInvalidUpstreamProxy) = 422"
  "rp_status (Problem w r ErrInvalidUser) = 422"
  "rp_status (Problem w r ErrLastAdmin) = 409"
  "rp_status (Problem w r ErrLDAPUnavailable) = 502"
  "rp_status (Problem w r ErrMethodNotAllowed) = 405"
  "rp_status (Problem w r ErrNotFound) = 404"
  "rp_status (Problem w r ErrProxyAuthentication) = 407"
  "rp_status (Problem w r ErrProxySessionInvalid) = 401"
  "rp_status (Problem w r ErrRedirectDenied) = 403"
  "rp_status (Problem w r ErrRewriteFailed) = 502"
  "rp_status (Problem w r ErrRouteNotFound) = 404"
  "rp_status (Problem w r ErrScopeRequired) = 403"
  "rp_status (Problem w r ErrTargetDenied) = 403"
  "rp_status (Problem w r ErrTargetUnavailable) = 502"
  "rp_status (Problem w r ErrTokenNotFound) = 404"
  "rp_status (Problem w r ErrUnauthorized) = 401"
  "rp_status (Problem w r ErrUpstreamError) = 502"
  "rp_status (Problem w r ErrUpstreamProxyDenied) = 403"
  "rp_status (Problem w r ErrUpstreamProxyNotFound) = 404"
  "rp_status (Problem w r ErrUpstreamProxyUnavailable) = 502"
  "rp_status (Problem w r ErrWebSocketUpstreamFailed) = 502"
  "rp_status (Problem w r ErrWebUnavailable) = 503"
  "rp_status (Problem w r ErrMisdirectedRequest) = 421"
  by (rule Problem_status_of, rule map_of_is_SomeI [OF distinct_codes], simp add: errorCatalog_table)+

end
