(* ===== verification/Go_Base64.thy ===== *)
theory Go_Base64
  imports Go_Strings
begin

text \<open>
  \<open>encoding/base64\<close>: the URL and the standard alphabet, without padding (\<open>RawURLEncoding\<close>,
  \<open>RawStdEncoding\<close>) and with it (\<open>StdEncoding\<close>, encoding only). The decoder skips line ends and
  does not look at the unused bits of the last character, as Go's non-strict one.
\<close>

section \<open>Alphabets\<close>

definition std_alphabet :: string where
  "std_alphabet = ''ABCDEFGHIJKLMNOPQRSTUVWXYZabcdefghijklmnopqrstuvwxyz0123456789+/''"

definition url_alphabet :: string where
  "url_alphabet = ''ABCDEFGHIJKLMNOPQRSTUVWXYZabcdefghijklmnopqrstuvwxyz0123456789-_''"

definition sextet :: "string \<Rightarrow> char \<Rightarrow> nat option" where
  "sextet al c = (if c \<in> set al then Some (length (takeWhile (\<lambda>x. x \<noteq> c) al)) else None)"

definition byte :: "nat \<Rightarrow> char" where
  "byte n = char_of (n mod 256)"

section \<open>Encoding\<close>

fun raw_encode :: "string \<Rightarrow> string \<Rightarrow> string" where
  "raw_encode al (a # b # c # s) =
    [al ! (code a div 4), al ! (code a mod 4 * 16 + code b div 16), al ! (code b mod 16 * 4 + code c div 64), al ! (code c mod 64)]
    @ raw_encode al s"
| "raw_encode al [a, b] = [al ! (code a div 4), al ! (code a mod 4 * 16 + code b div 16), al ! (code b mod 16 * 4)]"
| "raw_encode al [a] = [al ! (code a div 4), al ! (code a mod 4 * 16)]"
| "raw_encode al [] = []"

definition padded_encode :: "string \<Rightarrow> string \<Rightarrow> string" where
  "padded_encode al s = (let e = raw_encode al s in e @ replicate ((4 - length e mod 4) mod 4) CHR ''='')"

section \<open>Decoding\<close>

fun sextets_decode :: "nat list \<Rightarrow> string option" where
  "sextets_decode (p # q # r # t # s) = map_option
     (\<lambda>d. byte (p * 4 + q div 16) # byte (q * 16 + r div 4) # byte (r * 64 + t) # d) (sextets_decode s)"
| "sextets_decode [p, q, r] = Some [byte (p * 4 + q div 16), byte (q * 16 + r div 4)]"
| "sextets_decode [p, q] = Some [byte (p * 4 + q div 16)]"
| "sextets_decode [p] = None"
| "sextets_decode [] = Some []"

definition raw_decode :: "string \<Rightarrow> string \<Rightarrow> string option" where
  "raw_decode al s =
    (let xs = map (sextet al) (filter (\<lambda>c. code c \<noteq> 10 \<and> code c \<noteq> 13) s)
     in if None \<in> set xs then None else sextets_decode (map the xs))"

section \<open>Round trip\<close>

definition alphabet_ok :: "string \<Rightarrow> bool" where
  "alphabet_ok al \<longleftrightarrow> length al = 64 \<and> distinct al \<and> (\<forall>c \<in> set al. code c \<noteq> 10 \<and> code c \<noteq> 13)"

lemma alphabets_ok: "alphabet_ok std_alphabet" "alphabet_ok url_alphabet"
  by (simp_all add: alphabet_ok_def std_alphabet_def url_alphabet_def char_eval)

lemma sextet_nth:
  assumes "alphabet_ok al" and "n < 64" shows "sextet al (al ! n) = Some n"
proof -
  have n: "n < length al" using assms by (simp add: alphabet_ok_def)
  have "al ! n \<notin> set (take n al)"
    using assms(1) n by (auto simp: alphabet_ok_def in_set_conv_nth nth_eq_iff_index_eq)
  then have "takeWhile (\<lambda>x. x \<noteq> al ! n) (take n al @ al ! n # drop (Suc n) al) = take n al"
    by (subst takeWhile_append2) auto
  with n show ?thesis by (simp add: sextet_def id_take_nth_drop [symmetric])
qed

lemma sextet_bounds: "code a div 4 < 64" "code a mod 4 * 16 + code b div 16 < 64" "code b mod 16 * 4 + code c div 64 < 64"
    "code b mod 16 * 4 < 64" "code a mod 4 * 16 < 64" "code c mod 64 < 64"
proof -
  have d: "code x div 4 < 64" "code x div 16 < 16" "code x div 64 < 4" for x
    using code_less_256 [of x] by (simp_all add: less_mult_imp_div_less)
  have m: "code x mod 4 < 4" "code x mod 16 < 16" for x by simp_all
  show "code a div 4 < 64" by (rule d)
  show "code a mod 4 * 16 + code b div 16 < 64" using d(2) [of b] m(1) [of a] by linarith
  show "code b mod 16 * 4 + code c div 64 < 64" using d(3) [of c] m(2) [of b] by linarith
qed simp_all

lemma encode_members: "alphabet_ok al \<Longrightarrow> c \<in> set (raw_encode al s) \<Longrightarrow> c \<in> set al"
  by (induction al s rule: raw_encode.induct) (auto simp: alphabet_ok_def sextet_bounds)

fun to_sextets :: "string \<Rightarrow> nat list" where
  "to_sextets (a # b # c # s) = [code a div 4, code a mod 4 * 16 + code b div 16, code b mod 16 * 4 + code c div 64, code c mod 64] @ to_sextets s"
| "to_sextets [a, b] = [code a div 4, code a mod 4 * 16 + code b div 16, code b mod 16 * 4]"
| "to_sextets [a] = [code a div 4, code a mod 4 * 16]"
| "to_sextets [] = []"

lemma encode_sextets: "alphabet_ok al \<Longrightarrow> map (sextet al) (raw_encode al s) = map Some (to_sextets s)"
  by (induction s rule: to_sextets.induct) (simp_all add: sextet_nth sextet_bounds)

lemma byte_code: "n = k * 256 + code c \<Longrightarrow> byte n = c"
  by (simp add: byte_def)

lemma join_bits:
  defines "q \<equiv> \<lambda>a b. code a mod 4 * 16 + code b div 16" and "r \<equiv> \<lambda>b c. code b mod 16 * 4 + code c div 64"
  shows "code a div 4 * 4 + q a b div 16 = code a"
    and "q a b * 16 + r b c div 4 = code a mod 4 * 256 + code b"
    and "r b c * 64 + code c mod 64 = code b mod 16 * 256 + code c"
proof -
  have q: "q a b div 16 = code a mod 4" "q a b = code a mod 4 * 16 + code b div 16"
    using code_less_256 [of b] by (simp_all add: q_def less_mult_imp_div_less)
  have r: "r b c div 4 = code b mod 16" "r b c = code b mod 16 * 4 + code c div 64"
    using code_less_256 [of c] by (simp_all add: r_def less_mult_imp_div_less)
  show "code a div 4 * 4 + q a b div 16 = code a" unfolding q(1) by simp
  show "q a b * 16 + r b c div 4 = code a mod 4 * 256 + code b"
    unfolding r(1) q(2) using div_mult_mod_eq [of "code b" 16] by (simp add: distrib_right)
  show "r b c * 64 + code c mod 64 = code b mod 16 * 256 + code c"
    unfolding r(2) using div_mult_mod_eq [of "code c" 64] by (simp add: distrib_right)
qed

lemma tail_bits:
  "code a div 4 * 4 + code a mod 4 * 16 div 16 = code a"
  "(code a mod 4 * 16 + code b div 16) * 16 + code b mod 16 * 4 div 4 = code a mod 4 * 256 + code b"
  using div_mult_mod_eq [of "code b" 16] by (simp_all add: distrib_right)

lemma byte_exact: "n = code c \<Longrightarrow> byte n = c"
  using byte_code [of n 0 c] by simp

lemma decode_sextets: "sextets_decode (to_sextets s) = Some s"
proof (induction s rule: to_sextets.induct)
  case (1 a b c s)
  then show ?case
    by (simp only: to_sextets.simps append.simps sextets_decode.simps option.map byte_exact [OF join_bits(1)]
        byte_code [OF join_bits(2)] byte_code [OF join_bits(3)])
next
  case (2 a b)
  then show ?case
    by (simp only: to_sextets.simps sextets_decode.simps byte_exact [OF join_bits(1)] byte_code [OF tail_bits(2)])
next
  case (3 a)
  then show ?case by (simp only: to_sextets.simps sextets_decode.simps byte_exact [OF tail_bits(1)])
qed simp

lemma raw_decode_encode:
  assumes "alphabet_ok al" shows "raw_decode al (raw_encode al s) = Some s"
proof -
  have "filter (\<lambda>c. code c \<noteq> 10 \<and> code c \<noteq> 13) (raw_encode al s) = raw_encode al s"
    using encode_members [OF assms] assms by (auto simp: alphabet_ok_def filter_id_conv)
  then show ?thesis
    by (auto simp add: raw_decode_def encode_sextets [OF assms] decode_sextets comp_def)
qed

text \<open>The length of an encoding depends on the number of bytes alone.\<close>

lemma length_raw_encode: "length (raw_encode al s) = (length s * 4 + 2) div 3"
  by (induction al s rule: raw_encode.induct) auto

text \<open>The codecs the program uses.\<close>

definition RawURL_Encode :: "string \<Rightarrow> string" where
  "RawURL_Encode = raw_encode url_alphabet"

definition RawStd_Encode :: "string \<Rightarrow> string" where
  "RawStd_Encode = raw_encode std_alphabet"

definition RawStd_Decode :: "string \<Rightarrow> string option" where
  "RawStd_Decode = raw_decode std_alphabet"

definition RawURL_Decode :: "string \<Rightarrow> string option" where
  "RawURL_Decode = raw_decode url_alphabet"

definition Std_Encode :: "string \<Rightarrow> string" where
  "Std_Encode = padded_encode std_alphabet"

lemma RawStd_roundtrip [simp]: "RawStd_Decode (RawStd_Encode s) = Some s"
  by (simp add: RawStd_Decode_def RawStd_Encode_def raw_decode_encode alphabets_ok)

lemma RawURL_roundtrip [simp]: "RawURL_Decode (RawURL_Encode s) = Some s"
  by (simp add: RawURL_Decode_def RawURL_Encode_def raw_decode_encode alphabets_ok)

lemma RawStd_chars: "c \<in> set (RawStd_Encode s) \<Longrightarrow> c \<in> set std_alphabet"
  by (simp add: RawStd_Encode_def encode_members alphabets_ok)

lemma RawURL_inject [simp]: "RawURL_Encode s = RawURL_Encode t \<longleftrightarrow> s = t"
  by (metis RawURL_roundtrip option.inject)

end
