(* ===== verification/Effects.thy ===== *)
theory Effects
  imports Database Guard Httpapi Go_Base64 "HOL-Library.State_Monad"
begin

text \<open>
  How the handlers act on the outside. A program is a state monad over the world: the database, a
  counter of the effects so far and the trace of what left the process. The environment holds what
  the program does not decide: at each tick whether a statement fails, the clock, random bytes, fresh
  identifiers, the resolver's answer, the upstream's response; and the functions of third-party
  packages (\<open>google/uuid\<close>, \<open>go-ldap\<close>, \<open>x/net/idna\<close>, \<open>x/net/publicsuffix\<close>, \<open>x/crypto/argon2\<close>) and of Go's
  cryptography and cookie parser. Since the oracles take the tick, two lookups of one name may differ.
\<close>

section \<open>The world\<close>

text \<open>How a connection leaves: straight to an address, or through a proxy that is asked for it.\<close>

datatype dial =
    DialDirect string
  | DialHTTPProxy string "(string \<times> string) option" string
  | DialSOCKS5 string "(string \<times> string) option" string

record transport =
  tr_dial :: dial
  tr_server_name :: string

text \<open>
  A request to a directory server (package \<open>go-ldap\<close>): a connection with the server name and the root
  certificates its TLS checks, the upgrade to TLS, a bind, a search and the end of the connection.
\<close>

record ldap_tls =
  lt_server_name :: string
  lt_roots :: "string option"

record ldap_search =
  lq_base :: string
  lq_size_limit :: nat
  lq_filter :: string
  lq_attributes :: "string list"

record ldap_entry =
  le_dn :: string
  le_attributes :: "(string \<times> string list) list"

datatype ldap_event =
    Ldap_Dial string ldap_tls
  | Ldap_StartTLS ldap_tls
  | Ldap_Bind string string
  | Ldap_Search ldap_search
  | Ldap_Close

datatype event =
    Looked_Up string
  | Sent transport request
  | Opened transport string header "string list"
  | Redirected transport string
  | Framed "8 word" "32 word" body
  | Closed int string
  | Ldap ldap_event

record world =
  w_db :: db
  w_tick :: nat
  w_trace :: "event list"

record env =
  e_fault :: "nat \<Rightarrow> string option"
  e_now :: "nat \<Rightarrow> int"
  e_random :: "nat \<Rightarrow> nat \<Rightarrow> string result"
  e_uuid :: "nat \<Rightarrow> uuid"
  e_lookup :: "nat \<Rightarrow> string \<Rightarrow> addr list result"
  e_round_trip :: "nat \<Rightarrow> transport \<Rightarrow> request \<Rightarrow> response result"
  e_read_error :: "nat \<Rightarrow> nat option"
  e_uuid_string :: "uuid \<Rightarrow> string"
  e_uuid_parse :: "string \<Rightarrow> uuid option"
  e_idna :: "string \<Rightarrow> string option"
  e_public_suffix :: "string \<Rightarrow> string"
  e_sha256 :: "string \<Rightarrow> string"
  e_argon2 :: "string \<Rightarrow> string \<Rightarrow> nat \<Rightarrow> nat \<Rightarrow> nat \<Rightarrow> nat \<Rightarrow> string"
  e_seal :: "string \<Rightarrow> string \<Rightarrow> string \<Rightarrow> string \<Rightarrow> string"
  e_open :: "string \<Rightarrow> string \<Rightarrow> string \<Rightarrow> string \<Rightarrow> string option"
  e_set_cookie :: "string \<Rightarrow> cookie option"
  e_dial :: "nat \<Rightarrow> transport \<Rightarrow> string \<Rightarrow> header \<Rightarrow> string list \<Rightarrow> (string \<times> response option) result"
  e_redirects :: "nat \<Rightarrow> transport \<Rightarrow> string \<Rightarrow> string list"
  e_accept :: "nat \<Rightarrow> request \<Rightarrow> string list \<Rightarrow> reply option"
  e_messages :: "nat \<Rightarrow> (bool \<times> string) list"
  e_relay :: "nat \<Rightarrow> (int \<times> string) option"
  e_ldap :: "nat \<Rightarrow> ldap_event \<Rightarrow> ldap_entry list result"
  e_ldap_escape_filter :: "string \<Rightarrow> string"
  e_ldap_escape_dn :: "string \<Rightarrow> string"
  e_ldap_parse_dn :: "string \<Rightarrow> string list list option"
  e_pem_certificates :: "string \<Rightarrow> bool"
  e_read_file :: "nat \<Rightarrow> string \<Rightarrow> string result"
  e_getenv :: "string \<Rightarrow> string"

type_synonym 'a prog = "(world, 'a) state"

section \<open>Primitives\<close>

definition skip :: "unit prog" where
  "skip = State_Monad.return ()"

definition tick :: "nat prog" where
  "tick = State (\<lambda>w. (w_tick w, w\<lparr>w_tick := Suc (w_tick w)\<rparr>))"

definition emit :: "event \<Rightarrow> unit prog" where
  "emit e = State (\<lambda>w. ((), w\<lparr>w_trace := w_trace w @ [e]\<rparr>))"

definition now :: "env \<Rightarrow> int prog" where
  "now E = State_Monad.bind tick (\<lambda>t. State_Monad.return (e_now E t))"

definition random_bytes :: "env \<Rightarrow> nat \<Rightarrow> string result prog" where
  "random_bytes E n = State_Monad.bind tick (\<lambda>t. State_Monad.return (e_random E t n))"

definition new_uuid :: "env \<Rightarrow> uuid prog" where
  "new_uuid E = State_Monad.bind tick (\<lambda>t. State_Monad.return (e_uuid E t))"

text \<open>
  A statement at a given \<open>now()\<close>: it fails when the environment says so, and otherwise changes the
  database or reports the error of the statement, which leaves the database as it was. Outside a
  transaction \<open>now()\<close> is the time of the statement, inside it that of \<open>BEGIN\<close>.
\<close>

definition sql_at :: "env \<Rightarrow> int \<Rightarrow> 'a statement \<Rightarrow> 'a result prog" where
  "sql_at E at st = State (\<lambda>w. case e_fault E (w_tick w) of
     Some err \<Rightarrow> (Inl err, w\<lparr>w_tick := Suc (w_tick w)\<rparr>)
   | None \<Rightarrow> (case st at (w_db w) of
       Inl err \<Rightarrow> (Inl err, w\<lparr>w_tick := Suc (w_tick w)\<rparr>)
     | Inr (x, d) \<Rightarrow> (Inr x, w\<lparr>w_tick := Suc (w_tick w), w_db := d\<rparr>)))"

definition sql :: "env \<Rightarrow> 'a statement \<Rightarrow> 'a result prog" where
  "sql E st = State (\<lambda>w. run_state (sql_at E (e_now E (w_tick w)) st) w)"

text \<open>
  \<open>Begin\<close>, the body with its error returns, the deferred \<open>Rollback\<close> and the final \<open>Commit\<close>. The body
  that returns an error is rolled back, and so is one whose \<open>Commit\<close> fails.
\<close>

definition transaction :: "env \<Rightarrow> (int \<Rightarrow> 'a result prog) \<Rightarrow> 'a result prog" where
  "transaction E body = State (\<lambda>w0.
     let t0 = w_tick w0; w1 = w0\<lparr>w_tick := Suc t0\<rparr> in
     case e_fault E t0 of
       Some err \<Rightarrow> (Inl err, w1)
     | None \<Rightarrow> (case run_state (body (e_now E t0)) w1 of
         (Inl err, w2) \<Rightarrow> (Inl err, w2\<lparr>w_db := w_db w0\<rparr>)
       | (Inr x, w2) \<Rightarrow> (case e_fault E (w_tick w2) of
           Some err \<Rightarrow> (Inl err, w2\<lparr>w_db := w_db w0, w_tick := Suc (w_tick w2)\<rparr>)
         | None \<Rightarrow> (Inr x, w2\<lparr>w_tick := Suc (w_tick w2)\<rparr>))))"

definition lookup_host :: "env \<Rightarrow> string \<Rightarrow> addr list result prog" where
  "lookup_host E host = State (\<lambda>w. (e_lookup E (w_tick w) host,
     w\<lparr>w_tick := Suc (w_tick w), w_trace := w_trace w @ [Looked_Up host]\<rparr>))"

definition round_trip :: "env \<Rightarrow> transport \<Rightarrow> request \<Rightarrow> response result prog" where
  "round_trip E tr rq = State (\<lambda>w. (e_round_trip E (w_tick w) tr rq,
     w\<lparr>w_tick := Suc (w_tick w), w_trace := w_trace w @ [Sent tr rq]\<rparr>))"

text \<open>
  Reading the body of a response: the whole of it, or what had arrived when reading failed. The flag says
  whether the end was reached.
\<close>

definition read_body :: "env \<Rightarrow> response \<Rightarrow> (string \<times> bool) prog" where
  "read_body E rs = State_Monad.bind tick (\<lambda>t. State_Monad.return (case e_read_error E t of
     None \<Rightarrow> (rs_body rs, True)
   | Some n \<Rightarrow> (take n (rs_body rs), False)))"

text \<open>
  WebSocket connections (package \<open>coder/websocket\<close>): to a target, where the answer is the agreed
  subprotocol and the handshake's response; from the browser, which the package may refuse with a reply
  of its own; the messages the browser then sends (whether binary, and the data); and what ends the
  relaying between two connections: a close frame with its code and reason, or another error. The
  handshake is a request that the package makes with the \<open>http.Client\<close> it is given, which follows redirects
  when it has no \<open>CheckRedirect\<close>: the URLs they lead to are an answer of the environment, and each is
  requested on the same transport.
\<close>

definition ws_dial :: "env \<Rightarrow> transport \<Rightarrow> string \<Rightarrow> header \<Rightarrow> string list \<Rightarrow> (string \<times> response option) result prog" where
  "ws_dial E tr u h protocols = State (\<lambda>w. (e_dial E (w_tick w) tr u h protocols,
     w\<lparr>w_tick := Suc (w_tick w),
       w_trace := w_trace w @ Opened tr u h protocols # map (Redirected tr) (e_redirects E (w_tick w) tr u)\<rparr>))"

definition ws_accept :: "env \<Rightarrow> request \<Rightarrow> string list \<Rightarrow> reply option prog" where
  "ws_accept E rq protocols = State_Monad.bind tick (\<lambda>t. State_Monad.return (e_accept E t rq protocols))"

definition ws_messages :: "env \<Rightarrow> (bool \<times> string) list prog" where
  "ws_messages E = State_Monad.bind tick (\<lambda>t. State_Monad.return (e_messages E t))"

definition ws_relay :: "env \<Rightarrow> (int \<times> string) option prog" where
  "ws_relay E = State_Monad.bind tick (\<lambda>t. State_Monad.return (e_relay E t))"

text \<open>What the directory answers to a request, and the content of a file.\<close>

definition ldap_call :: "env \<Rightarrow> ldap_event \<Rightarrow> ldap_entry list result prog" where
  "ldap_call E ev = State (\<lambda>w. (e_ldap E (w_tick w) ev, w\<lparr>w_tick := Suc (w_tick w), w_trace := w_trace w @ [Ldap ev]\<rparr>))"

definition read_file :: "env \<Rightarrow> string \<Rightarrow> string result prog" where
  "read_file E name = State_Monad.bind tick (\<lambda>t. State_Monad.return (e_read_file E t name))"

text \<open>The early return of an error.\<close>

definition ok_or :: "('e + 'a) prog \<Rightarrow> ('a \<Rightarrow> ('e + 'b) prog) \<Rightarrow> ('e + 'b) prog" where
  "ok_or p f = State_Monad.bind p (\<lambda>r. case r of Inl e \<Rightarrow> State_Monad.return (Inl e) | Inr x \<Rightarrow> f x)"

text \<open>An error the caller renames, and a result whose error the caller drops.\<close>

definition wrap_err :: "('e \<Rightarrow> 'f) \<Rightarrow> ('e + 'a) prog \<Rightarrow> ('f + 'a) prog" where
  "wrap_err f p = State_Monad.bind p (\<lambda>r. State_Monad.return (map_sum f id r))"

definition ignore :: "'a prog \<Rightarrow> unit prog" where
  "ignore p = State_Monad.bind p (\<lambda>_. skip)"

section \<open>Weakest preconditions\<close>

text \<open>\<open>wp p Q w\<close>: run from the world \<open>w\<close>, the program \<open>p\<close> ends in a result and a world that satisfy \<open>Q\<close>.\<close>

definition wp :: "'a prog \<Rightarrow> ('a \<Rightarrow> world \<Rightarrow> bool) \<Rightarrow> world \<Rightarrow> bool" where
  "wp p Q w = (case run_state p w of (x, w') \<Rightarrow> Q x w')"

lemma wp_return [step_simps]: "wp (State_Monad.return x) Q w = Q x w"
  by (simp add: wp_def State_Monad.return_def)

lemma wp_bind [step_simps]: "wp (State_Monad.bind p f) Q w = wp p (\<lambda>x. wp (f x) Q) w"
  by (simp add: wp_def State_Monad.bind_def split: prod.split)

lemma wp_skip [step_simps]: "wp skip Q w = Q () w"
  by (simp add: skip_def step_simps)

lemma wp_tick [step_simps]: "wp tick Q w = Q (w_tick w) (w\<lparr>w_tick := Suc (w_tick w)\<rparr>)"
  by (simp add: wp_def tick_def)

lemma wp_emit [step_simps]: "wp (emit e) Q w = Q () (w\<lparr>w_trace := w_trace w @ [e]\<rparr>)"
  by (simp add: wp_def emit_def)

lemma wp_now [step_simps]: "wp (now E) Q w = Q (e_now E (w_tick w)) (w\<lparr>w_tick := Suc (w_tick w)\<rparr>)"
  by (simp add: now_def step_simps)

lemma wp_random [step_simps]: "wp (random_bytes E n) Q w = Q (e_random E (w_tick w) n) (w\<lparr>w_tick := Suc (w_tick w)\<rparr>)"
  by (simp add: random_bytes_def step_simps)

lemma wp_uuid [step_simps]: "wp (new_uuid E) Q w = Q (e_uuid E (w_tick w)) (w\<lparr>w_tick := Suc (w_tick w)\<rparr>)"
  by (simp add: new_uuid_def step_simps)

lemma wp_sql_at [step_simps]: "wp (sql_at E at st) Q w = (case e_fault E (w_tick w) of
     Some err \<Rightarrow> Q (Inl err) (w\<lparr>w_tick := Suc (w_tick w)\<rparr>)
   | None \<Rightarrow> (case st at (w_db w) of
       Inl err \<Rightarrow> Q (Inl err) (w\<lparr>w_tick := Suc (w_tick w)\<rparr>)
     | Inr (x, d) \<Rightarrow> Q (Inr x) (w\<lparr>w_tick := Suc (w_tick w), w_db := d\<rparr>)))"
  by (simp add: wp_def sql_at_def split: option.split sum.split prod.split)

lemma wp_sql [step_simps]: "wp (sql E st) Q w = wp (sql_at E (e_now E (w_tick w)) st) Q w"
  by (simp add: wp_def sql_def)

lemma wp_lookup [step_simps]: "wp (lookup_host E h) Q w = Q (e_lookup E (w_tick w) h)
    (w\<lparr>w_tick := Suc (w_tick w), w_trace := w_trace w @ [Looked_Up h]\<rparr>)"
  by (simp add: wp_def lookup_host_def)

lemma wp_round_trip [step_simps]: "wp (round_trip E tr rq) Q w = Q (e_round_trip E (w_tick w) tr rq)
    (w\<lparr>w_tick := Suc (w_tick w), w_trace := w_trace w @ [Sent tr rq]\<rparr>)"
  by (simp add: wp_def round_trip_def)

lemma wp_ws [step_simps]:
  "wp (ws_dial E tr u h ps) D w = D (e_dial E (w_tick w) tr u h ps)
     (w\<lparr>w_tick := Suc (w_tick w), w_trace := w_trace w @ Opened tr u h ps # map (Redirected tr) (e_redirects E (w_tick w) tr u)\<rparr>)"
  "wp (ws_accept E rq ps) A w = A (e_accept E (w_tick w) rq ps) (w\<lparr>w_tick := Suc (w_tick w)\<rparr>)"
  "wp (ws_messages E) M w = M (e_messages E (w_tick w)) (w\<lparr>w_tick := Suc (w_tick w)\<rparr>)"
  "wp (ws_relay E) R w = R (e_relay E (w_tick w)) (w\<lparr>w_tick := Suc (w_tick w)\<rparr>)"
  by (simp add: wp_def ws_dial_def) (simp_all add: ws_accept_def ws_messages_def ws_relay_def step_simps)

lemma wp_ldap_call [step_simps]: "wp (ldap_call E ev) Q w = Q (e_ldap E (w_tick w) ev) (w\<lparr>w_tick := Suc (w_tick w), w_trace := w_trace w @ [Ldap ev]\<rparr>)"
  by (simp add: wp_def ldap_call_def)

lemma wp_read_body [step_simps]: "wp (read_body E rs) Q w = Q (case e_read_error E (w_tick w) of None \<Rightarrow> (rs_body rs, True) | Some n \<Rightarrow> (take n (rs_body rs), False))
     (w\<lparr>w_tick := Suc (w_tick w)\<rparr>)"
  by (simp add: read_body_def step_simps)

lemma wp_read_file [step_simps]: "wp (read_file E name) Q w = Q (e_read_file E (w_tick w) name) (w\<lparr>w_tick := Suc (w_tick w)\<rparr>)"
  by (simp add: read_file_def step_simps)

lemma wp_ok_or [step_simps]: "wp (ok_or p f) Q w = wp p (\<lambda>r. case r of Inl e \<Rightarrow> Q (Inl e) | Inr x \<Rightarrow> wp (f x) Q) w"
proof -
  have "wp (case r of Inl e \<Rightarrow> State_Monad.return (Inl e) | Inr x \<Rightarrow> f x) Q = (case r of Inl e \<Rightarrow> Q (Inl e) | Inr x \<Rightarrow> wp (f x) Q)" for r
    by (rule ext) (simp add: step_simps split: sum.split)
  then show ?thesis by (simp add: ok_or_def step_simps)
qed

lemma wp_wrap_err [step_simps]: "wp (wrap_err f p) Q w = wp p (\<lambda>r. Q (map_sum f id r)) w"
  by (simp add: wrap_err_def wp_def State_Monad.bind_def State_Monad.return_def split: prod.split)

lemma wp_ignore [step_simps]: "wp (ignore p) Q w = wp p (\<lambda>_. Q ()) w"
  by (simp add: ignore_def skip_def wp_def State_Monad.bind_def State_Monad.return_def split: prod.split)

lemma wp_transaction [step_simps]: "wp (transaction E body) Q w0 =
    (let t0 = w_tick w0; w1 = w0\<lparr>w_tick := Suc t0\<rparr> in
     case e_fault E t0 of
       Some err \<Rightarrow> Q (Inl err) w1
     | None \<Rightarrow> wp (body (e_now E t0)) (\<lambda>r w2. case r of
         Inl err \<Rightarrow> Q (Inl err) (w2\<lparr>w_db := w_db w0\<rparr>)
       | Inr x \<Rightarrow> (case e_fault E (w_tick w2) of
           Some err \<Rightarrow> Q (Inl err) (w2\<lparr>w_db := w_db w0, w_tick := Suc (w_tick w2)\<rparr>)
         | None \<Rightarrow> Q (Inr x) (w2\<lparr>w_tick := Suc (w_tick w2)\<rparr>))) w1)"
  by (simp add: wp_def transaction_def Let_def split: option.split sum.split prod.split)

lemma wp_mono: "wp p Q w \<Longrightarrow> (\<And>x w'. Q x w' \<Longrightarrow> R x w') \<Longrightarrow> wp p R w"
  by (simp add: wp_def split: prod.splits)

text \<open>Sequencing through a known postcondition of the first program.\<close>

lemma wp_seq: "wp p R w \<Longrightarrow> (\<And>e w'. R (Inl e) w' \<Longrightarrow> Q (Inl e) w') \<Longrightarrow> (\<And>x w'. R (Inr x) w' \<Longrightarrow> wp (f x) Q w') \<Longrightarrow> wp (ok_or p f) Q w"
  unfolding wp_ok_or by (erule wp_mono) (auto split: sum.splits)

lemma wp_then: "wp p R w \<Longrightarrow> (\<And>x w'. R x w' \<Longrightarrow> wp (f x) Q w') \<Longrightarrow> wp (State_Monad.bind p f) Q w"
  unfolding wp_bind by (erule wp_mono)

text \<open>A statement whose error is passed on, and a transaction that is rolled back as a whole.\<close>

lemma wp_sql_at_seq:
  assumes "\<And>x d v. st at (w_db w) = Inr (x, d) \<Longrightarrow> w_db v = d \<Longrightarrow> w_trace v = w_trace w \<Longrightarrow> wp (f x) Q v"
    and "\<And>e v. w_db v = w_db w \<Longrightarrow> w_trace v = w_trace w \<Longrightarrow> Q (Inl e) v"
  shows "wp (ok_or (sql_at E at st) f) Q w"
  using assms by (auto simp: wp_ok_or wp_sql_at split: option.split sum.split)

lemma wp_sql_seq:
  assumes "\<And>x d v. st (e_now E (w_tick w)) (w_db w) = Inr (x, d) \<Longrightarrow> w_db v = d \<Longrightarrow> w_trace v = w_trace w \<Longrightarrow> wp (f x) Q v"
    and "\<And>e v. w_db v = w_db w \<Longrightarrow> w_trace v = w_trace w \<Longrightarrow> Q (Inl e) v"
  shows "wp (ok_or (sql E st) f) Q w"
  using assms by (auto simp: wp_ok_or wp_sql wp_sql_at split: option.split sum.split)

lemma wp_transaction_all_or_nothing:
  assumes "\<And>at v. w_db v = w_db w \<Longrightarrow> w_trace v = w_trace w \<Longrightarrow>
     wp (body at) (\<lambda>r v'. w_trace v' = w_trace w \<and> (case r of Inl _ \<Rightarrow> True | Inr x \<Rightarrow> R x (w_db v'))) v"
  shows "wp (transaction E body) (\<lambda>r w'. w_trace w' = w_trace w \<and> (case r of Inl _ \<Rightarrow> w_db w' = w_db w | Inr x \<Rightarrow> R x (w_db w'))) w"
  unfolding wp_transaction Let_def
  by (auto split: option.split sum.splits intro!: wp_mono [OF assms])

lemma wp_conj: "wp p (\<lambda>x w'. Q x w' \<and> R x w') w \<longleftrightarrow> wp p Q w \<and> wp p R w"
  by (simp add: wp_def split: prod.splits)

lemma wp_run: "wp p Q w \<longleftrightarrow> Q (fst (run_state p w)) (snd (run_state p w))"
  by (simp add: wp_def split: prod.splits)

text \<open>A postcondition that does not depend on the run, and the equations under a bound result.\<close>

lemma wp_any: "(\<And>x w. Q x w) \<Longrightarrow> wp p Q w"
  by (simp add: wp_run)

lemma wp_weaken: "(\<And>w. wp p (\<lambda>x _. Q x) w) \<Longrightarrow> (\<And>x w. Q x \<Longrightarrow> R x w) \<Longrightarrow> wp p R w"
  by (auto simp: wp_run)

lemma wp_fun: "wp (State_Monad.return x) P = P x" "wp (State_Monad.bind p f) Q = wp p (\<lambda>x. wp (f x) Q)"
  "wp skip R = R ()" "wp (if b then q else q') S = (if b then wp q S else wp q' S)"
  by (simp_all add: fun_eq_iff wp_return wp_bind wp_skip)

lemma wp_fst: "wp p (\<lambda>x _. P x) w \<Longrightarrow> P (fst (run_state p w))"
  by (simp add: wp_run)

lemma run_stateI: "wp p (\<lambda>x _. x = r) w \<Longrightarrow> \<exists>w1. run_state p w = (r, w1)"
  by (simp add: wp_run prod_eq_iff)

lemma is_ok_run: "is_ok (fst (run_state p w)) \<Longrightarrow> \<exists>x w1. run_state p w = (Inr x, w1)"
  by (cases "run_state p w") (auto simp: is_ok_iff)

text \<open>Two programs in a row, both results known.\<close>

lemma run_twice:
  assumes "wp p (\<lambda>x. wp q (\<lambda>y _. x = a \<and> y = b)) w"
  shows "\<exists>w1 w2. run_state p w = (a, w1) \<and> run_state q w1 = (b, w2)"
  using assms by (auto simp: wp_def split: prod.splits)

lemma wp_if [step_simps]: "wp (if b then p else q) Q w = (if b then wp p Q w else wp q Q w)"
  by simp

lemmas wp_cases = sum.case_distrib [where h = "\<lambda>p. wp p Q w" for Q w] option.case_distrib [where h = "\<lambda>p. wp p Q w" for Q w]
  prod.case_distrib [where h = "\<lambda>p. wp p Q w" for Q w] list.case_distrib [where h = "\<lambda>p. wp p Q w" for Q w]

section \<open>Invariants\<close>

text \<open>A program keeps a property of the world when every run that starts in it ends in it.\<close>

definition keeps :: "(world \<Rightarrow> bool) \<Rightarrow> 'a prog \<Rightarrow> bool" where
  "keeps I p \<longleftrightarrow> (\<forall>w. I w \<longrightarrow> wp p (\<lambda>_. I) w)"

lemma keepsI: "(\<And>w. I w \<Longrightarrow> wp p (\<lambda>_. I) w) \<Longrightarrow> keeps I p"
  by (simp add: keeps_def)

lemma keepsD: "keeps I p \<Longrightarrow> I w \<Longrightarrow> I (snd (run_state p w))"
  by (simp add: keeps_def wp_run)

lemma keeps_return [keeps_intro]: "keeps I (State_Monad.return x)"
  by (simp add: keeps_def step_simps)

lemma keeps_bind [keeps_intro]: "keeps I p \<Longrightarrow> (\<And>x. keeps I (f x)) \<Longrightarrow> keeps I (State_Monad.bind p f)"
  by (rule keepsI, unfold wp_bind, rule wp_mono [where Q = "\<lambda>_. I"]) (auto simp: keeps_def)

lemma keeps_ok_or [keeps_intro]: "keeps I p \<Longrightarrow> (\<And>x. keeps I (f x)) \<Longrightarrow> keeps I (ok_or p f)"
  unfolding ok_or_def by (auto intro!: keeps_bind keeps_return split: sum.split)

lemma keeps_wrap_err [keeps_intro]: "keeps I p \<Longrightarrow> keeps I (wrap_err f p)"
  unfolding wrap_err_def by (auto intro!: keeps_bind keeps_return)

lemma keeps_ignore [keeps_intro]: "keeps I p \<Longrightarrow> keeps I (ignore p)"
  unfolding ignore_def skip_def by (auto intro!: keeps_bind keeps_return)

lemma keeps_if [keeps_intro]: "(b \<Longrightarrow> keeps I p) \<Longrightarrow> (\<not> b \<Longrightarrow> keeps I q) \<Longrightarrow> keeps I (if b then p else q)"
  by simp

lemma keeps_case_sum [keeps_intro]: "(\<And>e. keeps I (f e)) \<Longrightarrow> (\<And>x. keeps I (g x)) \<Longrightarrow> keeps I (case r of Inl e \<Rightarrow> f e | Inr x \<Rightarrow> g x)"
  by (simp split: sum.split)

lemma keeps_case_option [keeps_intro]: "keeps I p \<Longrightarrow> (\<And>x. keeps I (g x)) \<Longrightarrow> keeps I (case r of None \<Rightarrow> p | Some x \<Rightarrow> g x)"
  by (simp split: option.split)

lemma keeps_case_prod [keeps_intro]: "(\<And>x y. keeps I (g x y)) \<Longrightarrow> keeps I (case r of (x, y) \<Rightarrow> g x y)"
  by (simp split: prod.split)

lemma keeps_case_list [keeps_intro]: "keeps I p \<Longrightarrow> (\<And>x xs. keeps I (g x xs)) \<Longrightarrow> keeps I (case r of [] \<Rightarrow> p | x # xs \<Rightarrow> g x xs)"
  by (simp split: list.split)

lemma keeps_let [keeps_intro]: "(\<And>x. keeps I (f x)) \<Longrightarrow> keeps I (Let v f)"
  by simp

text \<open>A fallible step of a handler, what it replies on an error and how it goes on otherwise.\<close>

definition attempt :: "('e + 'a) prog \<Rightarrow> ('e \<Rightarrow> 'b prog) \<Rightarrow> ('a \<Rightarrow> 'b prog) \<Rightarrow> 'b prog" where
  "attempt p err ok = State_Monad.bind p (\<lambda>r. case r of Inl e \<Rightarrow> err e | Inr x \<Rightarrow> ok x)"

definition refuse :: "reply \<Rightarrow> request \<Rightarrow> error_code \<Rightarrow> reply prog" where
  "refuse w r c = State_Monad.return (Problem w r c)"

lemma wp_attempt [step_simps]: "wp (attempt p err ok) Q w = wp p (\<lambda>r. case r of Inl e \<Rightarrow> wp (err e) Q | Inr x \<Rightarrow> wp (ok x) Q) w"
proof -
  have "wp (case r of Inl e \<Rightarrow> err e | Inr x \<Rightarrow> ok x) Q = (case r of Inl e \<Rightarrow> wp (err e) Q | Inr x \<Rightarrow> wp (ok x) Q)" for r
    by (simp split: sum.split)
  then show ?thesis by (simp add: attempt_def wp_bind)
qed

lemma wp_refuse [step_simps]: "wp (refuse w r c) Q v = Q (Problem w r c) v"
  by (simp add: refuse_def step_simps)

lemma keeps_attempt [keeps_intro]:
  "keeps I p \<Longrightarrow> (\<And>e. keeps I (err e)) \<Longrightarrow> (\<And>x. keeps I (ok x)) \<Longrightarrow> keeps I (attempt p err ok)"
  unfolding attempt_def by (auto intro!: keeps_bind split: sum.split)

lemma keeps_refuse [keeps_intro]: "keeps I (refuse w r c)"
  by (simp add: refuse_def keeps_return)

text \<open>An identifier that may be absent, as JSON.\<close>

definition json_optional_id :: "env \<Rightarrow> uuid option \<Rightarrow> json" where
  "json_optional_id E i = (case i of None \<Rightarrow> JNull | Some u \<Rightarrow> JStr (e_uuid_string E u))"

text \<open>Properties of the database alone.\<close>

definition on_db :: "(db \<Rightarrow> bool) \<Rightarrow> world \<Rightarrow> bool" where
  "on_db J w = J (w_db w)"

definition statement_keeps :: "(db \<Rightarrow> bool) \<Rightarrow> 'a statement \<Rightarrow> bool" where
  "statement_keeps J st \<longleftrightarrow> (\<forall>t d x d'. st t d = Inr (x, d') \<longrightarrow> J d \<longrightarrow> J d')"

lemma statement_keepsD: "statement_keeps J st \<Longrightarrow> st t d = Inr (x, d') \<Longrightarrow> J d \<Longrightarrow> J d'"
  by (auto simp: statement_keeps_def)

lemma keeps_sql_at [keeps_intro]: "statement_keeps J st \<Longrightarrow> keeps (on_db J) (sql_at E at st)"
  by (rule keepsI) (auto simp: step_simps on_db_def split: option.split sum.split prod.split dest: statement_keepsD)

lemma keeps_sql [keeps_intro]: "statement_keeps J st \<Longrightarrow> keeps (on_db J) (sql E st)"
  by (rule keepsI) (simp only: wp_sql keeps_sql_at [unfolded keeps_def, rule_format])

lemma keeps_transaction [keeps_intro]:
  assumes "\<And>at. keeps (on_db J) (body at)" shows "keeps (on_db J) (transaction E body)"
proof (rule keepsI)
  fix w assume w: "on_db J w"
  let ?w1 = "w\<lparr>w_tick := Suc (w_tick w)\<rparr>"
  have "wp (body (e_now E (w_tick w))) (\<lambda>_. on_db J) ?w1"
    using assms w by (simp add: keeps_def on_db_def)
  then show "wp (transaction E body) (\<lambda>_. on_db J) w"
    using w by (auto simp: step_simps Let_def on_db_def split: option.split sum.split elim!: wp_mono)
qed

lemma keeps_db_prims [keeps_intro]:
  "keeps (on_db J) tick" "keeps (on_db J) skip" "keeps (on_db J) (now E)" "keeps (on_db J) (random_bytes E n)"
  "keeps (on_db J) (new_uuid E)" "keeps (on_db J) (lookup_host E h)" "keeps (on_db J) (round_trip E tr rq)"
  "keeps (on_db J) (emit ev)" "keeps (on_db J) (ws_dial E tr u hs ps)" "keeps (on_db J) (ws_accept E rq ps)"
  "keeps (on_db J) (ws_messages E)" "keeps (on_db J) (ws_relay E)" "keeps (on_db J) (ldap_call E le)" "keeps (on_db J) (read_file E f)"
  by (simp_all add: keeps_def step_simps on_db_def)

lemma keeps_read_body [keeps_intro]: "keeps I tick \<Longrightarrow> keeps I (read_body E rs)"
  unfolding read_body_def by (rule keeps_bind) (simp_all add: keeps_return)

lemma statement_keeps_read [keeps_intro]: "statement_keeps J (read_rows f)" "statement_keeps J (read_row g)"
  by (auto simp: statement_keeps_def read_rows_def read_row_def split: option.splits)

text \<open>Programs that leave the database or the trace alone.\<close>

definition db_const :: "'a prog \<Rightarrow> bool" where
  "db_const p \<longleftrightarrow> (\<forall>d. keeps (\<lambda>w. w_db w = d) p)"

definition silent :: "'a prog \<Rightarrow> bool" where
  "silent p \<longleftrightarrow> (\<forall>tr. keeps (\<lambda>w. w_trace w = tr) p)"

end
