(* ===== verification/Policy_Store.thy ===== *)
theory Policy_Store
  imports Effects "HOL-Library.Product_Lexorder"
begin

text \<open>
  \<open>Store.Effective\<close> of \<open>internal/policy/policy.go\<close>: the enabled policies that a user has, directly or
  through an LDAP group, each with its rules; and what it returns in terms of the tables. \<open>ORDER BY\<close>
  is the lexicographic order of bytes.
\<close>

section \<open>The queries\<close>

definition has_policy :: "db \<Rightarrow> uuid \<Rightarrow> uuid \<Rightarrow> bool" where
  "has_policy d user pid \<longleftrightarrow>
     list_ex (\<lambda>(u, p). p = pid \<and> u = user) (user_policies d)
   \<or> list_ex (\<lambda>(u, g). u = user \<and> list_ex (\<lambda>(g', p). g' = g \<and> p = pid) (ldap_group_policies d)) (user_ldap_groups d)"

definition select_policies :: "uuid \<Rightarrow> policy_row list statement" where
  "select_policies user = read_rows (\<lambda>_ d. sort_key po_name (filter (\<lambda>p. po_enabled p \<and> has_policy d user (po_id p)) (policies d)))"

definition select_rules :: "uuid \<Rightarrow> rule list statement" where
  "select_rules pid = read_rows (\<lambda>_ d. map (\<lambda>r. \<lparr>rule_id = ru_id r, rule_kind = ru_kind r, rule_value = ru_value r\<rparr>)
     (sort_key (\<lambda>r. (ru_kind r, ru_value r)) (filter (\<lambda>r. ru_policy r = pid) (policy_rules_t d))))"

definition scan_policy :: "policy_row \<Rightarrow> rule list \<Rightarrow> policy" where
  "scan_policy p rules = \<lparr>policy_id = po_id p, policy_name = po_name p, policy_description = po_description p,
     policy_mode = po_mode p, policy_enabled = po_enabled p, policy_rules = rules\<rparr>"

primrec load_rules :: "env \<Rightarrow> policy_row list \<Rightarrow> policy list result prog" where
  "load_rules E [] = State_Monad.return (Inr [])"
| "load_rules E (p # ps) =
     ok_or (sql E (select_rules (po_id p))) (\<lambda>rules.
     ok_or (load_rules E ps) (\<lambda>rest.
     State_Monad.return (Inr (scan_policy p rules # rest))))"

definition Effective :: "env \<Rightarrow> uuid \<Rightarrow> policy list result prog" where
  "Effective E userID = ok_or (sql E (select_policies userID)) (load_rules E)"

section \<open>What it returns\<close>

text \<open>A policy as the tables hold it.\<close>

definition stored_rules :: "db \<Rightarrow> uuid \<Rightarrow> rule list" where
  "stored_rules d pid = map (\<lambda>r. \<lparr>rule_id = ru_id r, rule_kind = ru_kind r, rule_value = ru_value r\<rparr>)
     (sort_key (\<lambda>r. (ru_kind r, ru_value r)) (filter (\<lambda>r. ru_policy r = pid) (policy_rules_t d)))"

definition effective_policies :: "db \<Rightarrow> uuid \<Rightarrow> policy list" where
  "effective_policies d user = map (\<lambda>p. scan_policy p (stored_rules d (po_id p)))
     (sort_key po_name (filter (\<lambda>p. po_enabled p \<and> has_policy d user (po_id p)) (policies d)))"

lemma set_stored_rules: "set (stored_rules d pid) =
    (\<lambda>r. \<lparr>rule_id = ru_id r, rule_kind = ru_kind r, rule_value = ru_value r\<rparr>) ` {r \<in> set (policy_rules_t d). ru_policy r = pid}"
  by (simp add: stored_rules_def)

lemma set_effective_policies: "set (effective_policies d user) =
    (\<lambda>p. scan_policy p (stored_rules d (po_id p))) ` {p \<in> set (policies d). po_enabled p \<and> has_policy d user (po_id p)}"
  by (simp add: effective_policies_def)

text \<open>
  A run reads and changes nothing but the clock; it returns the policies or the error of a
  statement the environment made fail.
\<close>

definition reads_only :: "world \<Rightarrow> world \<Rightarrow> bool" where
  "reads_only w w' \<longleftrightarrow> w_db w' = w_db w \<and> w_trace w' = w_trace w \<and> w_tick w \<le> w_tick w'"

lemma reads_only_refl [simp]: "reads_only w w"
  by (simp add: reads_only_def)

lemma reads_only_trans: "reads_only w w' \<Longrightarrow> reads_only w' w'' \<Longrightarrow> reads_only w w''"
  by (auto simp: reads_only_def)

lemma wp_read_rows: "wp (sql E (read_rows f)) Q w = (case e_fault E (w_tick w) of
     Some err \<Rightarrow> Q (Inl err) (w\<lparr>w_tick := Suc (w_tick w)\<rparr>)
   | None \<Rightarrow> Q (Inr (f (e_now E (w_tick w)) (w_db w))) (w\<lparr>w_tick := Suc (w_tick w)\<rparr>))"
  by (simp add: step_simps read_rows_def split: option.split)

lemma load_rules_spec:
  "wp (load_rules E ps) (\<lambda>r w'. reads_only w w' \<and>
     (case r of Inl _ \<Rightarrow> True | Inr qs \<Rightarrow> qs = map (\<lambda>p. scan_policy p (stored_rules (w_db w) (po_id p))) ps)) w"
proof (induction ps arbitrary: w)
  case Nil
  then show ?case by (simp add: step_simps)
next
  case (Cons p ps)
  let ?w = "w\<lparr>w_tick := Suc (w_tick w)\<rparr>"
  from Cons [of ?w] show ?case
    by (auto simp: step_simps wp_read_rows select_rules_def stored_rules_def reads_only_def
        simp del: wp_sql split: option.split sum.splits elim!: wp_mono)
qed

lemma Effective_spec:
  "wp (Effective E u) (\<lambda>r w'. reads_only w w' \<and> (case r of Inl _ \<Rightarrow> True | Inr ps \<Rightarrow> ps = effective_policies (w_db w) u)) w"
proof -
  let ?w = "w\<lparr>w_tick := Suc (w_tick w)\<rparr>"
  let ?ps = "sort_key po_name (filter (\<lambda>p. po_enabled p \<and> has_policy (w_db w) u (po_id p)) (policies (w_db w)))"
  show ?thesis
    using load_rules_spec [of E ?ps ?w]
    by (auto simp: Effective_def wp_ok_or select_policies_def wp_read_rows effective_policies_def reads_only_def
        split: option.split sum.splits elim!: wp_mono)
qed

end
