(* ===== verification/Sample.thy ===== *)
theory Sample
  imports Policy_Store Netip_Print
begin

text \<open>
  What the development assumes of the third-party functions of the environment, as named predicates,
  and one concrete environment and database that satisfy them, on which properties are evaluated.
\<close>

section \<open>Assumptions on the packages\<close>

text \<open>
  \<open>google/uuid\<close> prints sixteen bytes in groups of 8, 4, 4, 4 and 12 hexadecimal digits with hyphens
  between them, and parses what it prints.
\<close>

definition uuid_text :: "string \<Rightarrow> bool" where
  "uuid_text s \<longleftrightarrow> (\<exists>a b c d e. s = a @ ''-'' @ b @ ''-'' @ c @ ''-'' @ d @ ''-'' @ e
     \<and> length a = 8 \<and> length b = 4 \<and> length c = 4 \<and> length d = 4 \<and> length e = 12
     \<and> list_all is_hex (a @ b @ c @ d @ e))"

definition uuid_package :: "env \<Rightarrow> bool" where
  "uuid_package E \<longleftrightarrow> (\<forall>i. uuid_text (e_uuid_string E i) \<and> e_uuid_parse E (e_uuid_string E i) = Some i)"

text \<open>The authenticated cipher opens what it sealed, and only under the same key, nonce and data.\<close>

definition aead_correct :: "env \<Rightarrow> bool" where
  "aead_correct E \<longleftrightarrow> (\<forall>k n p a. e_open E k n (e_seal E k n p a) a = Some p)"

definition aead_binds :: "env \<Rightarrow> bool" where
  "aead_binds E \<longleftrightarrow> (\<forall>k n p a a' q. e_open E k n (e_seal E k n p a) a' = Some q \<longrightarrow> a' = a)"

text \<open>SHA-256 has no collision, \<open>Lookup.ToASCII\<close> returns plain host names.\<close>

definition hash_injective :: "env \<Rightarrow> bool" where
  "hash_injective E \<longleftrightarrow> inj (e_sha256 E)"

definition idna_plain :: "env \<Rightarrow> bool" where
  "idna_plain E \<longleftrightarrow> (\<forall>s h. e_idna E s = Some h \<longrightarrow> plain_host h)"

text \<open>Random bytes come in the requested number.\<close>

definition random_lengths :: "env \<Rightarrow> bool" where
  "random_lengths E \<longleftrightarrow> (\<forall>t n r. e_random E t n = Inr r \<longrightarrow> length r = n)"

section \<open>A concrete environment\<close>

definition nibbles :: "nat \<Rightarrow> nat \<Rightarrow> string" where
  "nibbles k n = map (\<lambda>i. hex_digit (n div 16 ^ i mod 16)) (rev [0..<k])"

definition sample_uuid_string :: "uuid \<Rightarrow> string" where
  "sample_uuid_string u = (let s = nibbles 32 (unat u) in
     take 8 s @ ''-'' @ take 4 (drop 8 s) @ ''-'' @ take 4 (drop 12 s) @ ''-'' @ take 4 (drop 16 s) @ ''-'' @ drop 20 s)"

definition sample_uuid_parse :: "string \<Rightarrow> uuid option" where
  "sample_uuid_parse s = (if length s = 36 then Some (of_nat (hex_value (filter (\<lambda>c. c \<noteq> CHR ''-'') s))) else None)"

text \<open>A toy cipher: the plaintext behind the data it is bound to.\<close>

definition sample_seal :: "string \<Rightarrow> string \<Rightarrow> string \<Rightarrow> string \<Rightarrow> string" where
  "sample_seal k n p a = replicate (length a) CHR ''x'' @ CHR ''y'' # a @ p"

definition sample_open :: "string \<Rightarrow> string \<Rightarrow> string \<Rightarrow> string \<Rightarrow> string option" where
  "sample_open k n c a = (let m = length (takeWhile (\<lambda>x. x = CHR ''x'') c); body = drop (Suc m) c
     in if take m body = a then Some (drop m body) else None)"

definition sample_env :: env where
  "sample_env = \<lparr>e_fault = (\<lambda>_. None), e_now = (\<lambda>t. int t * 1000000000), e_random = (\<lambda>t n. Inr (replicate n (byte t))),
     e_uuid = (\<lambda>t. of_nat (t + 100)), e_lookup = (\<lambda>_. sample_lookup),
     e_round_trip = (\<lambda>_ _ _. Inr \<lparr>rs_status = 204, rs_line = ''204 No Content'', rs_header = (\<lambda>_. None), rs_body = []\<rparr>), e_read_error = (\<lambda>_. None),
     e_uuid_string = sample_uuid_string, e_uuid_parse = sample_uuid_parse, e_idna = sample_idna,
     e_public_suffix = (\<lambda>_. ''com''), e_sha256 = (\<lambda>s. ''sha256:'' @ s), e_argon2 = (\<lambda>pw salt t m p n. take n (pw @ salt @ replicate n CHR 0x00)),
     e_seal = sample_seal, e_open = sample_open, e_set_cookie = (\<lambda>_. None),
     e_dial = (\<lambda>_ _ _ _ _. Inl ''refused''), e_redirects = (\<lambda>_ _ _. []), e_accept = (\<lambda>_ _ _. None), e_messages = (\<lambda>_. []), e_relay = (\<lambda>_. None),
     e_ldap = (\<lambda>_ _. Inr []), e_ldap_escape_filter = (\<lambda>s. s), e_ldap_escape_dn = (\<lambda>s. s), e_ldap_parse_dn = (\<lambda>_. None),
     e_pem_certificates = (\<lambda>_. True), e_read_file = (\<lambda>_ _. Inl ''no such file''), e_getenv = (\<lambda>_. [])\<rparr>"

lemma digit_no_dash: "m < 16 \<Longrightarrow> is_hex (hex_digit m)"
  by (auto simp: hex_digit_def is_hex_def is_digit_def code_char_of)

lemma nibbles_hex: "list_all is_hex (nibbles k n)"
  by (auto simp: nibbles_def list_all_iff digit_no_dash)

lemma length_nibbles [simp]: "length (nibbles k n) = k"
  by (simp add: nibbles_def)

lemma hex_value_nibbles: "n < 16 ^ k \<Longrightarrow> hex_value (nibbles k n) = n"
proof -
  assume n: "n < 16 ^ k"
  have "foldl (\<lambda>m c. 16 * m + unhex c) a (map (\<lambda>i. hex_digit (n div 16 ^ i mod 16)) is)
      = foldl (\<lambda>m f. 16 * m + f) a (map (\<lambda>i. n div 16 ^ i mod 16) is)" for a "is"
    by (induction "is" arbitrary: a) (simp_all add: unhex_hex_digit)
  then show ?thesis using digits_fold [OF n] by (simp add: hex_value_def nibbles_def)
qed

lemma hex_not_dash: "is_hex c \<Longrightarrow> c \<noteq> CHR ''-''"
  by (auto simp: char_eval)

lemma filter_no_dash: "list_all is_hex s \<Longrightarrow> filter (\<lambda>c. c \<noteq> CHR ''-'') s = s"
  by (auto simp: list_all_iff filter_id_conv hex_not_dash)

lemma split5: "take 8 s @ take 4 (drop 8 s) @ take 4 (drop 12 s) @ take 4 (drop 16 s) @ drop 20 s = s"
  using append_take_drop_id [of 8 s] append_take_drop_id [of 4 "drop 8 s"] append_take_drop_id [of 4 "drop 12 s"]
    append_take_drop_id [of 4 "drop 16 s"] by simp

lemma sample_uuid: "uuid_package sample_env"
proof -
  have "uuid_text (sample_uuid_string u) \<and> sample_uuid_parse (sample_uuid_string u) = Some u" for u
  proof
    let ?s = "nibbles 32 (unat u)"
    have h: "list_all is_hex (take 8 ?s @ take 4 (drop 8 ?s) @ take 4 (drop 12 ?s) @ take 4 (drop 16 ?s) @ drop 20 ?s)"
      unfolding split5 by (rule nibbles_hex)
    then show "uuid_text (sample_uuid_string u)"
      unfolding uuid_text_def sample_uuid_string_def Let_def by (intro exI conjI; (rule refl)?) simp_all
    have "filter (\<lambda>c. c \<noteq> CHR ''-'') (sample_uuid_string u) = filter (\<lambda>c. c \<noteq> CHR ''-'')
        (take 8 ?s @ take 4 (drop 8 ?s) @ take 4 (drop 12 ?s) @ take 4 (drop 16 ?s) @ drop 20 ?s)"
      by (simp add: sample_uuid_string_def Let_def)
    also have "\<dots> = ?s" unfolding split5 by (rule filter_no_dash [OF nibbles_hex])
    finally have "filter (\<lambda>c. c \<noteq> CHR ''-'') (sample_uuid_string u) = ?s" .
    moreover have "unat u < 16 ^ 32" using unsigned_less [of u, where ?'a = nat] by simp
    moreover have "length (sample_uuid_string u) = 36" by (simp add: sample_uuid_string_def Let_def)
    ultimately show "sample_uuid_parse (sample_uuid_string u) = Some u"
      by (simp add: sample_uuid_parse_def hex_value_nibbles)
  qed
  then show ?thesis by (simp add: uuid_package_def sample_env_def)
qed

lemma sample_seal_span:
  "takeWhile (\<lambda>x. x = CHR ''x'') (sample_seal k n p a) = replicate (length a) CHR ''x''"
  by (simp add: sample_seal_def takeWhile_append)

lemma sample_aead: "aead_correct sample_env" "aead_binds sample_env"
  by (auto simp: aead_correct_def aead_binds_def sample_env_def sample_open_def sample_seal_span Let_def split: if_splits)
    (simp_all add: sample_seal_def)

lemma sample_hash: "hash_injective sample_env"
  by (simp add: hash_injective_def sample_env_def inj_def)

lemma sample_idna_plain: "idna_plain sample_env"
  by (simp add: idna_plain_def sample_env_def sample_idna_def)

lemma sample_random: "random_lengths sample_env"
  by (auto simp: random_lengths_def sample_env_def)

section \<open>A concrete database\<close>

text \<open>
  Alice (1) may use the policy that denies intranet addresses (7) and direct access is not
  restricted; Bob (2) is a disabled user without policies.
\<close>

definition sample_user :: "uuid \<Rightarrow> string \<Rightarrow> int option \<Rightarrow> user_row" where
  "sample_user i name off = \<lparr>us_id = i, us_username = name, us_normalized = name, us_display = name, us_email = [],
     us_source = ''local'', us_password = Some ''x'', us_admin = False, us_disabled = off, us_last_login = None,
     us_created = 0, us_updated = 0\<rparr>"

definition sample_ldap :: ldap_row where
  "sample_ldap = \<lparr>ls_enabled = False, ls_mode = ''search_bind'', ls_url = [], ls_start_tls = True, ls_base_dn = [],
     ls_bind_dn = [], ls_user_filter = [], ls_user_dn_template = [], ls_username_attribute = ''uid'',
     ls_display_name_attribute = ''cn'', ls_email_attribute = ''mail'', ls_group_mode = ''member_of'', ls_group_base_dn = [],
     ls_group_filter = [], ls_group_name_attribute = ''cn'', ls_updated = 0\<rparr>"

definition sample_db :: db where
  "sample_db = \<lparr>users = [sample_user 1 ''alice'' None, sample_user 2 ''bob'' (Some 0)], sessions = [], ldap_settings = sample_ldap,
     ldap_groups = [], user_ldap_groups = [],
     policies = [\<lparr>po_id = 7, po_name = ''deny intranet'', po_description = [], po_mode = ''deny_intranet'', po_enabled = True,
       po_created = 0, po_updated = 0\<rparr>],
     policy_rules_t = [], user_policies = [(1, 7)], ldap_group_policies = [], audit_events = [], proxy_contexts = [],
     proxy_routes = [], proxy_tickets = [], proxy_sessions = [], proxy_cookies = [], upstream_proxies = [],
     user_upstream_proxies = [], ldap_group_upstream_proxies = [], direct_restricted = False, direct_access_users = [],
     direct_access_ldap_groups = [], program_tokens = []\<rparr>"

definition sample_world :: "db \<Rightarrow> world" where
  "sample_world d = \<lparr>w_db = d, w_tick = 0, w_trace = []\<rparr>"

lemmas db_ok_eval = db_ok_def users_ok_def groups_ok_def policies_ok_def proxy_ok_def upstreams_ok_def refers_def
  List.map_filter_def sample_db_def sample_user_def sample_ldap_def

lemma sample_db_ok: "db_ok sample_db"
  by (simp add: db_ok_eval)

end
