(* ===== verification/Password.thy ===== *)
theory Password
  imports Sample
begin

text \<open>
  \<open>internal/auth/password.go\<close>: Argon2id hashes in the PHC string format. The derivation
  \<open>argon2.IDKey\<close> belongs to the environment.
\<close>

section \<open>Hashing and verifying\<close>

definition argonMemory :: nat where "argonMemory = 64 * 1024"

definition argonIterations :: nat where "argonIterations = 3"

definition argonParallelism :: nat where "argonParallelism = 2"

definition argonSaltLength :: nat where "argonSaltLength = 16"

definition argonKeyLength :: nat where "argonKeyLength = 32"

definition phc_string :: "string \<Rightarrow> string \<Rightarrow> string" where
  "phc_string salt hash = ''$argon2id$v=19$m='' @ itoa argonMemory @ '',t='' @ itoa argonIterations @ '',p='' @ itoa argonParallelism
     @ ''$'' @ RawStd_Encode salt @ ''$'' @ RawStd_Encode hash"

definition HashPassword :: "env \<Rightarrow> string \<Rightarrow> string result prog" where
  "HashPassword E password =
    (if length password < 12 then State_Monad.return (Inl ''password must contain at least 12 characters'')
     else do {
       r \<leftarrow> random_bytes E argonSaltLength;
       State_Monad.return (case r of
         Inl err \<Rightarrow> Inl (''generate password salt: '' @ err)
       | Inr salt \<Rightarrow> Inr (phc_string salt
           (e_argon2 E password salt argonIterations argonMemory argonParallelism argonKeyLength)))})"

text \<open>The parameters, read field by field; a later field of the same name overwrites an earlier one.\<close>

fun read_params :: "string list \<Rightarrow> nat \<times> nat \<times> nat \<Rightarrow> (nat \<times> nat \<times> nat) option" where
  "read_params [] (m, t, p) = Some (m, t, p)"
| "read_params (item # items) (m, t, p) =
    (case Cut item CHR ''='' of (key, value, found) \<Rightarrow>
       if \<not> found then None
       else (case ParseUint value 32 of
           None \<Rightarrow> None
         | Some n \<Rightarrow> if key = ''m'' then read_params items (n, t, p)
             else if key = ''t'' then read_params items (m, n, p)
             else if key = ''p'' then read_params items (m, t, n)
             else None))"

definition params_ok :: "nat \<times> nat \<times> nat \<Rightarrow> bool" where
  "params_ok = (\<lambda>(memory, iterations, parallelism). \<not> (memory = 0 \<or> 256 * 1024 < memory \<or> iterations = 0 \<or> 10 < iterations
     \<or> parallelism = 0 \<or> 16 < parallelism))"

definition VerifyPassword :: "env \<Rightarrow> string \<Rightarrow> string \<Rightarrow> bool" where
  "VerifyPassword E password encoded =
    (let parts = Split encoded CHR ''$''
     in if length parts \<noteq> 6 \<or> parts ! 1 \<noteq> ''argon2id'' \<or> parts ! 2 \<noteq> ''v=19'' then False
        else (case read_params (Split (parts ! 3) CHR '','') (0, 0, 0) of
          None \<Rightarrow> False
        | Some (memory, iterations, parallelism) \<Rightarrow>
            if \<not> params_ok (memory, iterations, parallelism) then False
            else (case RawStd_Decode (parts ! 4) of
              None \<Rightarrow> False
            | Some salt \<Rightarrow>
                if length salt < 8 \<or> 64 < length salt then False
                else (case RawStd_Decode (parts ! 5) of
                  None \<Rightarrow> False
                | Some want \<Rightarrow>
                    if length want < 16 \<or> 64 < length want then False
                    else e_argon2 E password salt iterations memory parallelism (length want) = want))))"

section \<open>Properties\<close>

text \<open>The derivation returns a key of the requested length.\<close>

definition argon_lengths :: "env \<Rightarrow> bool" where
  "argon_lengths E \<longleftrightarrow> (\<forall>pw salt t m p n. length (e_argon2 E pw salt t m p n) = n)"

lemma phc_parts:
  "Split (phc_string salt hash) CHR ''$'' = ['''', ''argon2id'', ''v=19'', ''m=65536,t=3,p=2'', RawStd_Encode salt, RawStd_Encode hash]"
proof -
  have n: "CHR ''$'' \<notin> set (RawStd_Encode s)" for s
    using RawStd_chars [of "CHR ''$''" s] by (auto simp: std_alphabet_def)
  have "phc_string salt hash = Join ['''', ''argon2id'', ''v=19'', ''m=65536,t=3,p=2'', RawStd_Encode salt, RawStd_Encode hash] [CHR ''$'']"
    by (simp add: phc_string_def argonMemory_def argonIterations_def argonParallelism_def str_eval)
  then show ?thesis by (simp only:) (rule Split_Join; simp add: n)
qed

lemma phc_params: "read_params (Split ''m=65536,t=3,p=2'' CHR '','') (0, 0, 0) = Some (65536, 3, 2)"
  by (simp add: str_eval)

lemma VerifyPassword_phc:
  assumes "8 \<le> length salt" "length salt \<le> 64" "16 \<le> length hash" "length hash \<le> 64"
  shows "VerifyPassword E pw (phc_string salt hash) \<longleftrightarrow> e_argon2 E pw salt 3 65536 2 (length hash) = hash"
proof -
  have n: "ps ! 1 = ''argon2id''" "ps ! 2 = ''v=19''" "ps ! 3 = ''m=65536,t=3,p=2''"
    "ps ! 4 = RawStd_Encode salt" "ps ! 5 = RawStd_Encode hash" "length ps = 6"
    if "ps = ['''', ''argon2id'', ''v=19'', ''m=65536,t=3,p=2'', RawStd_Encode salt, RawStd_Encode hash]" for ps
    using that by simp_all
  show ?thesis
    unfolding VerifyPassword_def Let_def n [OF phc_parts] phc_params
    using assms by (simp add: params_ok_def not_less)
qed

lemma HashPassword_hash:
  assumes "fst (run_state (HashPassword E pw) w) = Inr enc" and "random_lengths E" and "argon_lengths E"
  shows "12 \<le> length pw \<and> VerifyPassword E pw enc
    \<and> (\<exists>salt. length salt = 16 \<and> (\<forall>pw'. VerifyPassword E pw' enc = (e_argon2 E pw' salt 3 65536 2 32 = e_argon2 E pw salt 3 65536 2 32)))"
proof -
  have pw: "12 \<le> length pw"
    using assms(1) by (auto simp: HashPassword_def State_Monad.return_def split: if_splits)
  obtain salt where salt: "e_random E (w_tick w) 16 = Inr salt"
      and enc: "enc = phc_string salt (e_argon2 E pw salt 3 65536 2 32)"
    using assms(1) pw by (auto simp: HashPassword_def random_bytes_def tick_def State_Monad.bind_def State_Monad.return_def
        argonSaltLength_def argonIterations_def argonMemory_def argonParallelism_def argonKeyLength_def split: sum.splits)
  have len: "length salt = 16" "length (e_argon2 E pw salt 3 65536 2 32) = 32"
    using assms(2,3) salt by (auto simp: random_lengths_def argon_lengths_def)
  have v: "VerifyPassword E pw' enc = (e_argon2 E pw' salt 3 65536 2 32 = e_argon2 E pw salt 3 65536 2 32)" for pw'
    unfolding enc using len by (subst VerifyPassword_phc) simp_all
  show ?thesis using pw v len(1) by auto
qed

text \<open>
  C40: A stored hash accepts its password, and another one only if Argon2id itself maps both to the
  same key under the stored salt. Passwords shorter than twelve bytes are never hashed.
\<close>

theorem hash_then_verify:
  assumes "fst (run_state (HashPassword E pw) w) = Inr enc" and "random_lengths E" and "argon_lengths E"
  shows "12 \<le> length pw \<and> VerifyPassword E pw enc
    \<and> (\<exists>salt. length salt = 16 \<and> (\<forall>pw'. VerifyPassword E pw' enc = (e_argon2 E pw' salt 3 65536 2 32 = e_argon2 E pw salt 3 65536 2 32)))"
  by (rule HashPassword_hash [OF assms])

lemma sample_argon: "argon_lengths sample_env"
  by (auto simp: argon_lengths_def sample_env_def min_def)

lemma sample_hash_ok: "\<exists>enc. fst (run_state (HashPassword sample_env ''correct horse'') (sample_world sample_db)) = Inr enc"
  by (simp add: HashPassword_def random_bytes_def tick_def State_Monad.bind_def State_Monad.return_def sample_env_def)

theorem hash_then_verify_witness: "\<exists>enc. VerifyPassword sample_env ''correct horse'' enc"
  using hash_then_verify [OF _ sample_random sample_argon] sample_hash_ok by blast

definition derivation_bounded :: "string \<Rightarrow> nat \<Rightarrow> nat \<Rightarrow> nat \<Rightarrow> nat \<Rightarrow> bool" where
  "derivation_bounded salt iterations memory parallelism n \<longleftrightarrow> 1 \<le> iterations \<and> iterations \<le> 10 \<and> 1 \<le> memory \<and> memory \<le> 262144
     \<and> 1 \<le> parallelism \<and> parallelism \<le> 16 \<and> 8 \<le> length salt \<and> length salt \<le> 64 \<and> 16 \<le> n \<and> n \<le> 64"

text \<open>
  Verifying is bounded. Whatever string is stored as a hash, the derivation is only run with at
  most 256 MiB, ten iterations, sixteen lanes, a salt of 8 to 64 bytes and a key of 16 to 64 bytes:
  what it would do elsewhere has no influence on the answer.
\<close>

theorem verify_bounded:
  assumes "\<And>salt t m p n. derivation_bounded salt t m p n \<Longrightarrow> e_argon2 E pw salt t m p n = e_argon2 E' pw salt t m p n"
  shows "VerifyPassword E pw enc = VerifyPassword E' pw enc"
  unfolding VerifyPassword_def Let_def
  by (auto simp: params_ok_def derivation_bounded_def assms split: option.split)

theorem verify_bounded_witness:
  "VerifyPassword sample_env ''pw'' ''x'' = VerifyPassword (sample_env\<lparr>e_argon2 := \<lambda>pw salt t m p n.
      if derivation_bounded salt t m p n then e_argon2 sample_env pw salt t m p n else []\<rparr>) ''pw'' ''x''"
  by (rule verify_bounded) simp

end
