(* ===== verification/Proxy_Store.thy ===== *)
theory Proxy_Store
  imports Sample
begin

text \<open>
  \<open>internal/proxy/store.go\<close>: proxy contexts, the routes of a context, one-time tickets and proxy
  sessions. Each statement of the code is a \<open>statement\<close>; the methods compose them as the code does.
\<close>

section \<open>Values\<close>

record proxy_context =
  cx_id :: uuid
  cx_url :: string
  cx_upstream :: "uuid option"
  cx_compat :: bool
  cx_created :: int
  cx_active :: int

record route =
  rt_id :: uuid
  rt_context :: uuid
  rt_user :: uuid
  rt_scheme :: string
  rt_host :: string
  rt_port :: int
  rt_url :: string
  rt_upstream :: "uuid option"
  rt_compat :: bool

definition second :: int where
  "second = 1000000000"

definition two_minutes :: int where
  "two_minutes = 120 * second"

section \<open>Statements\<close>

definition insert_context :: "uuid \<Rightarrow> uuid \<Rightarrow> string \<Rightarrow> uuid option \<Rightarrow> bool \<Rightarrow> unit statement" where
  "insert_context i user url upstream cmode t d = store_db () (d\<lparr>proxy_contexts := proxy_contexts d @
     [\<lparr>pc_id = i, pc_user = user, pc_url = url, pc_created = t, pc_active = t, pc_closed = None,
       pc_upstream = upstream, pc_compat = cmode\<rparr>]\<rparr>)"

definition insert_ticket :: "string \<Rightarrow> uuid \<Rightarrow> uuid \<Rightarrow> unit statement" where
  "insert_ticket hash user ctx t d = store_db () (d\<lparr>proxy_tickets := proxy_tickets d @
     [\<lparr>pt_hash = hash, pt_user = user, pt_context = ctx, pt_expires = t + two_minutes, pt_used = None\<rparr>]\<rparr>)"

definition select_owner :: "uuid \<Rightarrow> uuid statement" where
  "select_owner ctx = read_row (\<lambda>_ d. map_option pc_user (find (\<lambda>c. pc_id c = ctx \<and> pc_closed c = None) (proxy_contexts d)))"

text \<open>The conflicting row keeps its values: its host is set to the host it has.\<close>

definition insert_route :: "uuid \<Rightarrow> uuid \<Rightarrow> string \<Rightarrow> string \<Rightarrow> int \<Rightarrow> uuid statement" where
  "insert_route i ctx scheme host port t d =
    (case find (\<lambda>r. pr_context r = ctx \<and> pr_scheme r = scheme \<and> pr_host r = host \<and> pr_port r = port) (proxy_routes d) of
       Some r \<Rightarrow> Inr (pr_id r, d)
     | None \<Rightarrow> store_db i (d\<lparr>proxy_routes := proxy_routes d @
         [\<lparr>pr_id = i, pr_context = ctx, pr_scheme = scheme, pr_host = host, pr_port = port\<rparr>]\<rparr>))"

definition select_route :: "uuid \<Rightarrow> route statement" where
  "select_route i = read_row (\<lambda>_ d.
     case find (\<lambda>r. pr_id r = i) (proxy_routes d) of
       None \<Rightarrow> None
     | Some r \<Rightarrow> (case find (\<lambda>c. pc_id c = pr_context r \<and> pc_closed c = None) (proxy_contexts d) of
         None \<Rightarrow> None
       | Some c \<Rightarrow> Some \<lparr>rt_id = pr_id r, rt_context = pr_context r, rt_user = pc_user c, rt_scheme = pr_scheme r,
           rt_host = pr_host r, rt_port = pr_port r, rt_url = pc_url c, rt_upstream = pc_upstream c, rt_compat = pc_compat c\<rparr>))"

definition ticket_usable :: "int \<Rightarrow> string \<Rightarrow> ticket_row \<Rightarrow> bool" where
  "ticket_usable t hash k \<longleftrightarrow> pt_hash k = hash \<and> pt_used k = None \<and> t < pt_expires k"

definition use_ticket :: "string \<Rightarrow> (uuid \<times> uuid) statement" where
  "use_ticket hash t d = (case find (ticket_usable t hash) (proxy_tickets d) of
     None \<Rightarrow> Inl No_Rows
   | Some k \<Rightarrow> Inr ((pt_user k, pt_context k),
       d\<lparr>proxy_tickets := update_rows (ticket_usable t hash) (\<lambda>k. k\<lparr>pt_used := Some t\<rparr>) (proxy_tickets d)\<rparr>))"

definition insert_proxy_session :: "string \<Rightarrow> uuid \<Rightarrow> int \<Rightarrow> unit statement" where
  "insert_proxy_session hash user expires t d = store_db () (d\<lparr>proxy_sessions := proxy_sessions d @
     [\<lparr>ps_hash = hash, ps_user = user, ps_expires = expires, ps_created = t\<rparr>]\<rparr>)"

definition select_proxy_session :: "string \<Rightarrow> uuid statement" where
  "select_proxy_session hash = read_row (\<lambda>t d. map_option ps_user (find (\<lambda>s. ps_hash s = hash \<and> t < ps_expires s) (proxy_sessions d)))"

definition scan_context :: "context_row \<Rightarrow> proxy_context" where
  "scan_context c = \<lparr>cx_id = pc_id c, cx_url = pc_url c, cx_upstream = pc_upstream c, cx_compat = pc_compat c,
     cx_created = pc_created c, cx_active = pc_active c\<rparr>"

definition select_context :: "uuid \<Rightarrow> uuid \<Rightarrow> proxy_context statement" where
  "select_context i user = read_row (\<lambda>_ d. map_option scan_context
     (find (\<lambda>c. pc_id c = i \<and> pc_user c = user \<and> pc_closed c = None) (proxy_contexts d)))"

definition close_context :: "uuid \<Rightarrow> uuid \<Rightarrow> nat statement" where
  "close_context i user t d =
    (let mine = (\<lambda>c. pc_id c = i \<and> pc_user c = user \<and> pc_closed c = None)
     in Inr (affected mine (proxy_contexts d),
         d\<lparr>proxy_contexts := update_rows mine (\<lambda>c. c\<lparr>pc_closed := Some t\<rparr>) (proxy_contexts d)\<rparr>))"

definition update_current_url :: "uuid \<Rightarrow> string \<Rightarrow> unit statement" where
  "update_current_url i value t d = Inr ((),
     d\<lparr>proxy_contexts := update_rows (\<lambda>c. pc_id c = i) (\<lambda>c. c\<lparr>pc_url := value, pc_active := t\<rparr>) (proxy_contexts d)\<rparr>)"

section \<open>Methods\<close>

definition randomToken :: "env \<Rightarrow> (string \<times> string) result prog" where
  "randomToken E = ok_or (random_bytes E 32) (\<lambda>raw.
     let token = RawURL_Encode raw in State_Monad.return (Inr (token, e_sha256 E token)))"

text \<open>
  The port of the URL or the scheme's default. \<open>Atoi\<close>'s error is dropped; then the port is not in
  the range the table allows.
\<close>

definition route_port :: "url \<Rightarrow> int" where
  "route_port u = (if Port u \<noteq> [] then (case Atoi (Port u) of Some n \<Rightarrow> n | None \<Rightarrow> 0)
     else if u_scheme u = ''https'' then 443 else 80)"

definition createRoute :: "env \<Rightarrow> int \<Rightarrow> uuid \<Rightarrow> uuid \<Rightarrow> url \<Rightarrow> route result prog" where
  "createRoute E t contextID userID target = do {
     i \<leftarrow> new_uuid E;
     ok_or (sql_at E t (insert_route i contextID (u_scheme target) (Hostname target) (route_port target))) (\<lambda>i'.
     State_Monad.return (Inr \<lparr>rt_id = i', rt_context = contextID, rt_user = userID, rt_scheme = u_scheme target,
       rt_host = Hostname target, rt_port = route_port target, rt_url = [], rt_upstream = None, rt_compat = False\<rparr>))}"

definition CreateContext :: "env \<Rightarrow> uuid \<Rightarrow> url \<Rightarrow> uuid option \<Rightarrow> bool \<Rightarrow> (proxy_context \<times> route \<times> string) result prog" where
  "CreateContext E userID target upstreamProxyID compatibilityMode = transaction E (\<lambda>t. do {
     i \<leftarrow> new_uuid E;
     created \<leftarrow> now E;
     active \<leftarrow> now E;
     ok_or (sql_at E t (insert_context i userID (url_string target) upstreamProxyID compatibilityMode)) (\<lambda>_.
     ok_or (createRoute E t i userID target) (\<lambda>route.
     ok_or (randomToken E) (\<lambda>(ticket, hash).
     ok_or (sql_at E t (insert_ticket hash userID i)) (\<lambda>_.
     State_Monad.return (Inr (\<lparr>cx_id = i, cx_url = url_string target, cx_upstream = upstreamProxyID,
       cx_compat = compatibilityMode, cx_created = created, cx_active = active\<rparr>, route, ticket))))))})"

definition check_owner :: "uuid result \<Rightarrow> uuid \<Rightarrow> unit result" where
  "check_owner r userID = (case r of
     Inl _ \<Rightarrow> Inl ''proxy context not found''
   | Inr owner \<Rightarrow> if owner \<noteq> userID then Inl ''proxy context not found'' else Inr ())"

definition CreateTicket :: "env \<Rightarrow> uuid \<Rightarrow> uuid \<Rightarrow> string result prog" where
  "CreateTicket E userID contextID = do {
     owner \<leftarrow> sql E (select_owner contextID);
     ok_or (State_Monad.return (check_owner owner userID)) (\<lambda>_.
     ok_or (randomToken E) (\<lambda>(token, hash).
     ok_or (sql E (insert_ticket hash userID contextID)) (\<lambda>_.
     State_Monad.return (Inr token))))}"

definition ResolveRoute :: "env \<Rightarrow> uuid \<Rightarrow> uuid \<Rightarrow> url \<Rightarrow> route result prog" where
  "ResolveRoute E contextID userID target = transaction E (\<lambda>t. do {
     owner \<leftarrow> sql_at E t (select_owner contextID);
     ok_or (State_Monad.return (check_owner owner userID)) (\<lambda>_.
     createRoute E t contextID userID target)})"

definition routeLabel :: "env \<Rightarrow> uuid \<Rightarrow> string" where
  "routeLabel E i = ReplaceAll (e_uuid_string E i) ''-'' []"

definition parseLabel :: "env \<Rightarrow> string \<Rightarrow> uuid result" where
  "parseLabel E value =
    (if length value \<noteq> 32 then Inl ''invalid route label''
     else (case e_uuid_parse E (take 8 value @ ''-'' @ take 4 (drop 8 value) @ ''-'' @ take 4 (drop 12 value)
             @ ''-'' @ take 4 (drop 16 value) @ ''-'' @ drop 20 value) of
         None \<Rightarrow> Inl ''invalid UUID''
       | Some i \<Rightarrow> Inr i))"

definition RouteByLabel :: "env \<Rightarrow> string \<Rightarrow> route result prog" where
  "RouteByLabel E label = ok_or (State_Monad.return (parseLabel E label)) (\<lambda>i. sql E (select_route i))"

definition ConsumeTicket :: "env \<Rightarrow> string \<Rightarrow> int \<Rightarrow> (string \<times> uuid \<times> uuid) result prog" where
  "ConsumeTicket E token ttl = transaction E (\<lambda>t.
     ok_or (sql_at E t (use_ticket (e_sha256 E token))) (\<lambda>(userID, contextID).
     ok_or (randomToken E) (\<lambda>(session, sessionHash). do {
       created \<leftarrow> now E;
       ok_or (sql_at E t (insert_proxy_session sessionHash userID (created + ttl))) (\<lambda>_.
       State_Monad.return (Inr (session, userID, contextID)))})))"

definition AuthenticateProxy :: "env \<Rightarrow> string \<Rightarrow> uuid result prog" where
  "AuthenticateProxy E token = sql E (select_proxy_session (e_sha256 E token))"

definition GetContext :: "env \<Rightarrow> uuid \<Rightarrow> uuid \<Rightarrow> proxy_context result prog" where
  "GetContext E i userID = sql E (select_context i userID)"

definition CloseContext :: "env \<Rightarrow> uuid \<Rightarrow> uuid \<Rightarrow> unit result prog" where
  "CloseContext E i userID = ok_or (sql E (close_context i userID)) (\<lambda>n.
     State_Monad.return (if n \<noteq> 1 then Inl No_Rows else Inr ()))"

definition UpdateCurrentURL :: "env \<Rightarrow> uuid \<Rightarrow> string \<Rightarrow> unit prog" where
  "UpdateCurrentURL E i value = do { r \<leftarrow> sql E (update_current_url i value); skip }"

section \<open>Labels\<close>

lemma replace_dash: "length s \<le> n \<Longrightarrow> replace_aux n s ''-'' [] = filter (\<lambda>c. c \<noteq> CHR ''-'') s"
  by (induction n s "''-''" "[] :: string" rule: replace_aux.induct) (auto simp: HasPrefix_def)

lemma ReplaceAll_dash: "ReplaceAll s ''-'' [] = filter (\<lambda>c. c \<noteq> CHR ''-'') s"
  by (simp add: ReplaceAll_def replace_dash)

lemma uuid_package_cut:
  assumes "uuid_package E"
  obtains a b c d e where "e_uuid_string E i = a @ ''-'' @ b @ ''-'' @ c @ ''-'' @ d @ ''-'' @ e"
    and "length a = 8" "length b = 4" "length c = 4" "length d = 4" "length e = 12"
    and "routeLabel E i = a @ b @ c @ d @ e" and "list_all is_hex (a @ b @ c @ d @ e)"
proof -
  from assms obtain a b c d e where u: "e_uuid_string E i = a @ ''-'' @ b @ ''-'' @ c @ ''-'' @ d @ ''-'' @ e"
      "length a = 8" "length b = 4" "length c = 4" "length d = 4" "length e = 12" "list_all is_hex (a @ b @ c @ d @ e)"
    unfolding uuid_package_def uuid_text_def by metis
  then have "routeLabel E i = a @ b @ c @ d @ e"
    by (simp add: routeLabel_def ReplaceAll_dash filter_no_dash)
  with u show thesis by (intro that)
qed

lemma routeLabel_hex: "uuid_package E \<Longrightarrow> length (routeLabel E i) = 32 \<and> list_all is_hex (routeLabel E i)"
  by (erule uuid_package_cut [of E i]) simp

lemma parseLabel_routeLabel: "uuid_package E \<Longrightarrow> parseLabel E (routeLabel E i) = Inr i"
proof -
  assume E: "uuid_package E"
  obtain a b c d e where u: "e_uuid_string E i = a @ ''-'' @ b @ ''-'' @ c @ ''-'' @ d @ ''-'' @ e"
    "length a = 8" "length b = 4" "length c = 4" "length d = 4" "length e = 12" "routeLabel E i = a @ b @ c @ d @ e"
    by (rule uuid_package_cut [OF E, of i])
  then have eq: "take 8 (routeLabel E i) @ ''-'' @ take 4 (drop 8 (routeLabel E i)) @ ''-'' @ take 4 (drop 12 (routeLabel E i))
             @ ''-'' @ take 4 (drop 16 (routeLabel E i)) @ ''-'' @ drop 20 (routeLabel E i) = e_uuid_string E i"
    by simp
  have "e_uuid_parse E (e_uuid_string E i) = Some i" using E by (simp add: uuid_package_def)
  moreover have "length (routeLabel E i) = 32" using u by simp
  ultimately show ?thesis unfolding parseLabel_def eq by simp
qed

text \<open>
  The label of a route names it. It is one DNS label of 32 hexadecimal digits, parsing it gives
  the route's identifier back, and so no two routes share a label.
\<close>

theorem route_label_roundtrip:
  assumes "uuid_package E"
  shows "parseLabel E (routeLabel E i) = Inr i \<and> length (routeLabel E i) = 32 \<and> CHR ''.'' \<notin> set (routeLabel E i)
    \<and> (routeLabel E i = routeLabel E j \<longleftrightarrow> i = j)"
proof -
  have "CHR ''.'' \<notin> set (routeLabel E i)"
    using routeLabel_hex [OF assms, of i] by (auto simp: list_all_iff char_eval)
  moreover have "routeLabel E i = routeLabel E j \<longleftrightarrow> i = j"
    by (metis parseLabel_routeLabel [OF assms] sum.inject(2))
  ultimately show ?thesis using parseLabel_routeLabel [OF assms, of i] routeLabel_hex [OF assms, of i] by simp
qed

theorem route_label_roundtrip_witness: "parseLabel sample_env (routeLabel sample_env 42) = Inr 42"
  using route_label_roundtrip [OF sample_uuid, of 42 42] by simp

section \<open>The writes of the store\<close>

text \<open>
  One committed statement of this store on contexts, routes, tickets and proxy sessions, with any arguments
  at any time. A sequence of such steps is what any interleaving of its methods does to these tables. The
  statements of the whole program, which also delete contexts with their upstream proxy, are those of
  \<open>db_write\<close> in \<open>Writes\<close>.
\<close>

inductive proxy_write :: "db \<Rightarrow> db \<Rightarrow> bool" where
  Insert_Context: "insert_context i u url up c t d = Inr (x, d') \<Longrightarrow> proxy_write d d'"
| Insert_Ticket: "insert_ticket h u c t d = Inr (x, d') \<Longrightarrow> proxy_write d d'"
| Insert_Route: "insert_route i c sc ho po t d = Inr (y, d') \<Longrightarrow> proxy_write d d'"
| Use_Ticket: "use_ticket h t d = Inr (uc, d') \<Longrightarrow> proxy_write d d'"
| Insert_Session: "insert_proxy_session h u ex t d = Inr (x, d') \<Longrightarrow> proxy_write d d'"
| Close_Context: "close_context i u t d = Inr (n, d') \<Longrightarrow> proxy_write d d'"
| Update_URL: "update_current_url i url t d = Inr (x, d') \<Longrightarrow> proxy_write d d'"

inductive_cases proxy_writeE: "proxy_write d d'"

lemma reads_change_nothing:
  "select_owner c t d = Inr (x, d') \<Longrightarrow> d' = d" "select_route i t d = Inr (r, d') \<Longrightarrow> d' = d"
  "select_proxy_session h t d = Inr (y, d') \<Longrightarrow> d' = d" "select_context i u t d = Inr (z, d') \<Longrightarrow> d' = d"
  by (auto simp: select_owner_def select_route_def select_proxy_session_def select_context_def read_row_def split: option.splits)

lemma statements_are_writes [keeps_intro]:
  "statement_keeps (proxy_write\<^sup>*\<^sup>* d0) (insert_context i u url up c)"
  "statement_keeps (proxy_write\<^sup>*\<^sup>* d0) (insert_ticket h u i)"
  "statement_keeps (proxy_write\<^sup>*\<^sup>* d0) (insert_route i j sc ho po)"
  "statement_keeps (proxy_write\<^sup>*\<^sup>* d0) (use_ticket h)"
  "statement_keeps (proxy_write\<^sup>*\<^sup>* d0) (insert_proxy_session h u ex)"
  "statement_keeps (proxy_write\<^sup>*\<^sup>* d0) (close_context i u)"
  "statement_keeps (proxy_write\<^sup>*\<^sup>* d0) (update_current_url i url)"
  by (auto simp: statement_keeps_def intro: rtranclp.rtrancl_into_rtrancl proxy_write.intros)

lemma selects_keep [keeps_intro]:
  "statement_keeps J (select_owner c)" "statement_keeps J (select_route i)"
  "statement_keeps J (select_proxy_session h)" "statement_keeps J (select_context i u)"
  by (auto simp: statement_keeps_def dest: reads_change_nothing)

lemma keeps_randomToken [keeps_intro]: "keeps (on_db J) (randomToken E)"
  unfolding randomToken_def by (intro keeps_intro)

text \<open>Every method is a sequence of such writes, also when it fails or is rolled back.\<close>

lemma methods_are_writes [keeps_intro]:
  fixes d0 :: db
  defines "J \<equiv> on_db (proxy_write\<^sup>*\<^sup>* d0)"
  shows "keeps J (CreateContext E user target up cm)" "keeps J (CreateTicket E user ctx)"
    "keeps J (ResolveRoute E ctx user target)" "keeps J (RouteByLabel E label)" "keeps J (ConsumeTicket E token ttl)"
    "keeps J (AuthenticateProxy E token)" "keeps J (GetContext E i user)" "keeps J (CloseContext E i user)"
    "keeps J (UpdateCurrentURL E i url)"
  unfolding J_def CreateContext_def CreateTicket_def ResolveRoute_def RouteByLabel_def ConsumeTicket_def
    AuthenticateProxy_def GetContext_def CloseContext_def UpdateCurrentURL_def createRoute_def
  by (intro keeps_intro)+

section \<open>Marks\<close>

abbreviation spent :: "string \<Rightarrow> db \<Rightarrow> bool" where
  "spent \<equiv> marked proxy_tickets pt_hash (\<lambda>k. pt_used k \<noteq> None)"

lemma db_ok_keys: "db_ok d \<Longrightarrow> distinct (map pt_hash (proxy_tickets d))" "db_ok d \<Longrightarrow> distinct (map pc_id (proxy_contexts d))"
    "db_ok d \<Longrightarrow> distinct (map pr_id (proxy_routes d))" "db_ok d \<Longrightarrow> distinct (map ps_hash (proxy_sessions d))"
  by (simp_all add: db_ok_def proxy_ok_def)

lemma store_rowsD:
  "insert_context i u url up cm t d = Inr (x, d') \<Longrightarrow> db_ok d' \<and> proxy_tickets d' = proxy_tickets d
     \<and> proxy_routes d' = proxy_routes d \<and> (\<exists>c. proxy_contexts d' = proxy_contexts d @ [c])"
  "insert_ticket h u j t d = Inr (x, d') \<Longrightarrow> db_ok d' \<and> proxy_contexts d' = proxy_contexts d
     \<and> proxy_routes d' = proxy_routes d \<and> (\<exists>k. proxy_tickets d' = proxy_tickets d @ [k])"
  "insert_route i j sc ho po t d = Inr (y, d') \<Longrightarrow> proxy_tickets d' = proxy_tickets d \<and> proxy_contexts d' = proxy_contexts d
     \<and> (d' = d \<or> db_ok d' \<and> proxy_routes d' = proxy_routes d @ [\<lparr>pr_id = i, pr_context = j, pr_scheme = sc, pr_host = ho, pr_port = po\<rparr>])"
  "insert_proxy_session h u ex t d = Inr (x, d') \<Longrightarrow> db_ok d' \<and> proxy_tickets d' = proxy_tickets d
     \<and> proxy_contexts d' = proxy_contexts d \<and> proxy_routes d' = proxy_routes d"
  "use_ticket h t d = Inr (uc, d') \<Longrightarrow>
     d' = d\<lparr>proxy_tickets := update_rows (ticket_usable t h) (\<lambda>k. k\<lparr>pt_used := Some t\<rparr>) (proxy_tickets d)\<rparr>"
  "close_context i u t d = Inr (n, d') \<Longrightarrow>
     d' = d\<lparr>proxy_contexts := update_rows (\<lambda>c. pc_id c = i \<and> pc_user c = u \<and> pc_closed c = None) (\<lambda>c. c\<lparr>pc_closed := Some t\<rparr>) (proxy_contexts d)\<rparr>"
  "update_current_url i url t d = Inr (x, d') \<Longrightarrow>
     d' = d\<lparr>proxy_contexts := update_rows (\<lambda>c. pc_id c = i) (\<lambda>c. c\<lparr>pc_url := url, pc_active := t\<rparr>) (proxy_contexts d)\<rparr>"
  by (auto simp: insert_context_def insert_ticket_def insert_route_def use_ticket_def insert_proxy_session_def
      close_context_def update_current_url_def store_db_ok Let_def split: option.splits)

interpretation ticket_marks: sticky_mark proxy_tickets pt_hash "\<lambda>k. pt_used k \<noteq> None" proxy_write
proof
  fix d d' assume "proxy_write d d'"
  then show "mark_kept proxy_tickets pt_hash (\<lambda>k. pt_used k \<noteq> None) d d'"
  proof cases
    case (Use_Ticket h t uc)
    from store_rowsD(5) [OF this] show ?thesis
      by (intro mark_kept_update [where P = "ticket_usable t h" and f = "\<lambda>k. k\<lparr>pt_used := Some t\<rparr>"]) auto
  qed (auto dest!: store_rowsD intro: mark_kept_same mark_kept_append db_ok_keys)
qed

section \<open>Tickets\<close>

lemma use_ticketD:
  assumes "use_ticket h t d = Inr ((u, c), d')"
  obtains k where "k \<in> set (proxy_tickets d)" and "ticket_usable t h k" and "u = pt_user k" and "c = pt_context k"
    and "d' = d\<lparr>proxy_tickets := update_rows (ticket_usable t h) (\<lambda>k. k\<lparr>pt_used := Some t\<rparr>) (proxy_tickets d)\<rparr>"
  using assms by (auto simp: use_ticket_def split: option.splits dest: find_SomeD)

lemma use_ticket_spends:
  assumes "use_ticket h t d = Inr ((u, c), d')" and "db_ok d" shows "spent h d'"
  using assms(1)
proof (rule use_ticketD)
  fix k assume "k \<in> set (proxy_tickets d)" "ticket_usable t h k"
    "d' = d\<lparr>proxy_tickets := update_rows (ticket_usable t h) (\<lambda>k. k\<lparr>pt_used := Some t\<rparr>) (proxy_tickets d)\<rparr>"
  then show ?thesis
    using db_ok_keys(1) [OF assms(2)]
    by (intro marked_update [where P = "ticket_usable t h" and f = "\<lambda>k. k\<lparr>pt_used := Some t\<rparr>" and r = k])
      (auto simp: ticket_usable_def)
qed

lemma spent_unusable: "spent h d \<Longrightarrow> use_ticket h t d = Inl No_Rows"
  using ticket_marks.no_unmarked_row [of h d "\<lambda>k. t < pt_expires k"]
  by (simp add: use_ticket_def ticket_usable_def [abs_def])

text \<open>What a run of \<open>ConsumeTicket\<close> does.\<close>

definition consumed :: "env \<Rightarrow> string \<Rightarrow> int \<Rightarrow> world \<Rightarrow> string \<times> uuid \<times> uuid \<Rightarrow> world \<Rightarrow> bool" where
  "consumed E token ttl w = (\<lambda>(session, user, ctx) w'. \<exists>k \<in> set (proxy_tickets (w_db w)).
     pt_hash k = e_sha256 E token \<and> pt_used k = None \<and> e_now E (w_tick w) < pt_expires k \<and> user = pt_user k \<and> ctx = pt_context k
   \<and> spent (e_sha256 E token) (w_db w') \<and> db_ok (w_db w')
   \<and> (\<exists>s \<in> set (proxy_sessions (w_db w')). ps_hash s = e_sha256 E session \<and> ps_user s = user
       \<and> ps_expires s = e_now E (w_tick w + 3) + ttl))"

lemma spent_session: "insert_proxy_session h' u ex t d = Inr (x, d') \<Longrightarrow> spent h d \<Longrightarrow> spent h d'"
  by (rule ticket_marks.stays_marked [OF r_into_rtranclp [of proxy_write, OF Insert_Session]])

lemma ConsumeTicket_spec:
  assumes "db_ok (w_db w)"
  shows "wp (ConsumeTicket E token ttl) (\<lambda>r w'. w_trace w' = w_trace w \<and> (case r of
     Inl _ \<Rightarrow> w_db w' = w_db w | Inr x \<Rightarrow> consumed E token ttl w x w')) w"
proof -
  have one: "consumed E token ttl w (RawURL_Encode raw, u, c) (w'\<lparr>w_db := d'', w_tick := n\<rparr>)"
    if use: "use_ticket (e_sha256 E token) (e_now E (w_tick w)) (w_db w) = Inr ((u, c), d')"
      and ins: "insert_proxy_session (e_sha256 E (RawURL_Encode raw)) u (e_now E (w_tick w + 3) + ttl) at d' = Inr (x, d'')"
    for raw u c d' "at" x d'' w' n
  proof -
    obtain k where k: "k \<in> set (proxy_tickets (w_db w))" "ticket_usable (e_now E (w_tick w)) (e_sha256 E token) k" "u = pt_user k" "c = pt_context k"
      by (rule use_ticketD [OF use])
    have "spent (e_sha256 E token) d'" using use assms by (rule use_ticket_spends)
    then have "spent (e_sha256 E token) d''" using ins spent_session by blast
    moreover have "db_ok d''" "\<exists>s \<in> set (proxy_sessions d''). ps_hash s = e_sha256 E (RawURL_Encode raw) \<and> ps_user s = u
       \<and> ps_expires s = e_now E (w_tick w + 3) + ttl"
      using ins by (auto simp: insert_proxy_session_def store_db_ok)
    ultimately show ?thesis using k by (auto simp: consumed_def ticket_usable_def)
  qed
  show ?thesis
    by (auto simp: ConsumeTicket_def randomToken_def step_simps Let_def eval_nat_numeral
        split: option.split sum.split prod.split intro!: one [simplified eval_nat_numeral])
qed

lemma ConsumeTicket_spent:
  assumes "spent (e_sha256 E token) (w_db w)"
  shows "wp (ConsumeTicket E token ttl) (\<lambda>r w'. \<exists>e. r = Inl e) w"
  using spent_unusable [OF assms]
  by (auto simp: ConsumeTicket_def step_simps Let_def split: option.split)

text \<open>
  C11: A ticket opens one session. Once \<open>ConsumeTicket\<close> has accepted a token, no later call with that
  token succeeds, whatever statements of the store are committed in between, by however many
  concurrent requests, and whatever the clock shows.
\<close>

theorem ticket_single_use:
  assumes "run_state (ConsumeTicket E token ttl) w = (Inr r, w1)" and "db_ok (w_db w)"
    and "proxy_write\<^sup>*\<^sup>* (w_db w1) (w_db w2)" and "e_sha256 E' = e_sha256 E"
  shows "\<exists>err. fst (run_state (ConsumeTicket E' token ttl') w2) = Inl err"
proof -
  have "consumed E token ttl w r w1"
    using ConsumeTicket_spec [OF assms(2), of E token ttl] assms(1) by (simp add: wp_def)
  then have "spent (e_sha256 E token) (w_db w1)" by (auto simp: consumed_def split: prod.splits)
  then have "spent (e_sha256 E' token) (w_db w2)"
    using ticket_marks.stays_marked [OF assms(3)] assms(4) by simp
  from ConsumeTicket_spent [OF this, of ttl'] show ?thesis by (simp add: wp_run)
qed

text \<open>A database with one open context and one fresh ticket.\<close>

definition ticket_db :: db where
  "ticket_db = sample_db\<lparr>
     proxy_contexts := [\<lparr>pc_id = 5, pc_user = 1, pc_url = ''http://db.example.com/'', pc_created = 0, pc_active = 0,
       pc_closed = None, pc_upstream = None, pc_compat = False\<rparr>],
     proxy_tickets := [\<lparr>pt_hash = ''sha256:t'', pt_user = 1, pt_context = 5, pt_expires = two_minutes, pt_used = None\<rparr>]\<rparr>"

lemma ticket_db_ok: "db_ok ticket_db"
  by (simp add: ticket_db_def db_ok_eval)

lemma sample_consume:
  "\<exists>w1. run_state (ConsumeTicket sample_env ''t'' 3600) (sample_world ticket_db) = (Inr (RawURL_Encode (replicate 32 (byte 2)), 1, 5), w1)"
  by (rule run_stateI)
    (simp add: ConsumeTicket_def step_simps Let_def sample_env_def sample_world_def use_ticket_def ticket_usable_def
      ticket_db_def randomToken_def insert_proxy_session_def store_db_def db_ok_eval update_rows_def two_minutes_def second_def
      numeral_2_eq_2)

theorem ticket_single_use_witness:
  "\<exists>w1. (\<exists>r. run_state (ConsumeTicket sample_env ''t'' 3600) (sample_world ticket_db) = (Inr r, w1))
     \<and> (\<exists>err. fst (run_state (ConsumeTicket sample_env ''t'' 3600) w1) = Inl err)"
proof -
  obtain r w1 where r: "run_state (ConsumeTicket sample_env ''t'' 3600) (sample_world ticket_db) = (Inr r, w1)"
    using sample_consume by blast
  have "db_ok (w_db (sample_world ticket_db))" by (simp add: sample_world_def ticket_db_ok)
  from ticket_single_use [OF r this rtranclp.rtrancl_refl refl] r show ?thesis by blast
qed

text \<open>
  C29: What a ticket is good for. An accepted token is the token of a stored ticket that was unused and
  had not expired at the \<open>now()\<close> of the transaction; the reply names that ticket's user and context;
  the session token it returns authenticates that user and nobody else, until its lifetime is over.
  A refused token leaves the database as it was.
\<close>

theorem ticket_opens_session:
  assumes "db_ok (w_db w)"
  shows "case run_state (ConsumeTicket E token ttl) w of
      (Inl _, w1) \<Rightarrow> w_db w1 = w_db w
    | (Inr (session, user, ctx), w1) \<Rightarrow>
        (\<exists>k \<in> set (proxy_tickets (w_db w)). pt_hash k = e_sha256 E token \<and> pt_used k = None
           \<and> e_now E (w_tick w) < pt_expires k \<and> pt_user k = user \<and> pt_context k = ctx)
      \<and> fst (run_state (AuthenticateProxy E session) w1) =
          (case e_fault E (w_tick w1) of Some err \<Rightarrow> Inl err
           | None \<Rightarrow> if e_now E (w_tick w1) < e_now E (w_tick w + 3) + ttl then Inr user else Inl No_Rows)"
proof (cases "run_state (ConsumeTicket E token ttl) w")
  case (Pair r w1)
  note spec = ConsumeTicket_spec [OF assms(1), of E token ttl, unfolded wp_def Pair prod.case]
  show ?thesis
  proof (cases r)
    case (Inl e)
    with Pair spec show ?thesis by simp
  next
    case (Inr x)
    obtain session user ctx where x: "x = (session, user, ctx)" by (cases x)
    have c: "consumed E token ttl w (session, user, ctx) w1" using spec Inr x by simp
    then obtain row where row: "row \<in> set (proxy_sessions (w_db w1))" "ps_hash row = e_sha256 E session" "ps_user row = user"
        "ps_expires row = e_now E (w_tick w + 3) + ttl" and ok: "db_ok (w_db w1)"
      by (auto simp: consumed_def)
    have uniq: "row' = row" if "row' \<in> set (proxy_sessions (w_db w1))" "ps_hash row' = e_sha256 E session" for row'
      using distinct_mapD [OF db_ok_keys(4) [OF ok] that(1) row(1)] that(2) row(2) by simp
    have "find (\<lambda>s. ps_hash s = e_sha256 E session \<and> t < ps_expires s) (proxy_sessions (w_db w1)) =
        (if t < ps_expires row then Some row else None)" for t
    proof (cases "t < ps_expires row")
      case True
      have "find (\<lambda>s. ps_hash s = e_sha256 E session \<and> t < ps_expires s) (proxy_sessions (w_db w1)) = Some row"
        by (rule find_Some_unique [OF row(1)]) (use row(2) True uniq in blast)+
      with True show ?thesis by simp
    next
      case False
      then have "\<not> (\<exists>s. s \<in> set (proxy_sessions (w_db w1)) \<and> ps_hash s = e_sha256 E session \<and> t < ps_expires s)"
        using uniq by blast
      with False show ?thesis by (simp add: find_None_iff)
    qed
    then have a: "fst (run_state (AuthenticateProxy E session) w1) =
          (case e_fault E (w_tick w1) of Some err \<Rightarrow> Inl err
           | None \<Rightarrow> if e_now E (w_tick w1) < e_now E (w_tick w + 3) + ttl then Inr user else Inl No_Rows)"
      using row by (simp add: AuthenticateProxy_def sql_def sql_at_def select_proxy_session_def read_row_def split: option.split)
    have b: "\<exists>k \<in> set (proxy_tickets (w_db w)). pt_hash k = e_sha256 E token \<and> pt_used k = None
           \<and> e_now E (w_tick w) < pt_expires k \<and> pt_user k = user \<and> pt_context k = ctx"
      using c unfolding consumed_def prod.case by blast
    show ?thesis unfolding Pair Inr x prod.case sum.case by (rule conjI [OF b a])
  qed
qed

theorem ticket_opens_session_witness:
  "\<exists>k \<in> set (proxy_tickets (w_db (sample_world ticket_db))). pt_user k = 1 \<and> pt_context k = 5"
proof -
  have "db_ok (w_db (sample_world ticket_db))" by (simp add: sample_world_def ticket_db_ok)
  note open_session = ticket_opens_session [OF this, of sample_env "''t''" 3600]
  obtain w1 where "run_state (ConsumeTicket sample_env ''t'' 3600) (sample_world ticket_db) = (Inr (RawURL_Encode (replicate 32 (byte 2)), 1, 5), w1)"
    using sample_consume by blast
  from open_session [unfolded this prod.case sum.case] show ?thesis by blast
qed

section \<open>Contexts and routes\<close>

definition owned_open :: "db \<Rightarrow> uuid \<Rightarrow> uuid \<Rightarrow> bool" where
  "owned_open d ctx user \<longleftrightarrow> (\<exists>c \<in> set (proxy_contexts d). pc_id c = ctx \<and> pc_user c = user \<and> pc_closed c = None)"

definition route_origin :: "route_row \<Rightarrow> uuid \<times> string \<times> string \<times> int" where
  "route_origin r = (pr_context r, pr_scheme r, pr_host r, pr_port r)"

definition url_origin :: "uuid \<Rightarrow> url \<Rightarrow> uuid \<times> string \<times> string \<times> int" where
  "url_origin ctx u = (ctx, u_scheme u, Hostname u, route_port u)"

lemma db_ok_origins: "db_ok d \<Longrightarrow> distinct (map route_origin (proxy_routes d))"
  by (simp add: db_ok_def proxy_ok_def route_origin_def [abs_def])

text \<open>A route keeps its identifier as long as its context lives: the rows of the table are only added.\<close>

interpretation route_marks: sticky_mark proxy_routes route_origin "\<lambda>r. pr_id r = i" proxy_write for i
proof
  fix d d' assume "proxy_write d d'"
  then show "mark_kept proxy_routes route_origin (\<lambda>r. pr_id r = i) d d'"
    by cases (auto dest!: store_rowsD intro: mark_kept_same mark_kept_append db_ok_origins)
qed

lemma insert_routeD:
  assumes "insert_route i ctx (u_scheme u) (Hostname u) (route_port u) t d = Inr (j, d')" and "db_ok d"
  shows "db_ok d' \<and> marked proxy_routes route_origin (\<lambda>r. pr_id r = j) (url_origin ctx u) d' \<and> proxy_contexts d' = proxy_contexts d"
proof -
  from assms have ok: "db_ok d'" by (auto simp: insert_route_def store_db_ok split: option.splits)
  have "\<exists>r \<in> set (proxy_routes d'). route_origin r = url_origin ctx u \<and> pr_id r = j"
    using assms(1) by (auto simp: insert_route_def store_db_ok route_origin_def url_origin_def split: option.splits dest: find_SomeD)
  then show ?thesis using ok db_ok_origins [OF ok] store_rowsD(3) [OF assms(1)] by (auto simp: marked_def)
qed

lemma createRoute_spec:
  assumes "db_ok (w_db w)"
  shows "wp (createRoute E t ctx user u) (\<lambda>r w'. w_trace w' = w_trace w \<and> w_tick w \<le> w_tick w' \<and> (case r of
     Inl _ \<Rightarrow> w_db w' = w_db w
   | Inr rt \<Rightarrow> db_ok (w_db w') \<and> proxy_contexts (w_db w') = proxy_contexts (w_db w)
       \<and> marked proxy_routes route_origin (\<lambda>r. pr_id r = rt_id rt) (url_origin ctx u) (w_db w')
       \<and> rt_context rt = ctx \<and> rt_user rt = user \<and> rt_scheme rt = u_scheme u \<and> rt_host rt = Hostname u \<and> rt_port rt = route_port u)) w"
  using insert_routeD [OF _ assms]
  by (auto simp: createRoute_def step_simps split: option.split sum.split prod.split)

lemma select_ownerD: "select_owner ctx t d = Inr (owner, d') \<Longrightarrow> d' = d \<and> owned_open d ctx owner"
  by (auto simp: select_owner_def read_row_def owned_open_def split: option.splits dest: find_SomeD)

lemma ResolveRoute_spec:
  assumes "db_ok (w_db w)"
  shows "wp (ResolveRoute E ctx user u) (\<lambda>r w'. w_trace w' = w_trace w \<and> w_tick w \<le> w_tick w' \<and> (case r of
     Inl _ \<Rightarrow> w_db w' = w_db w
   | Inr rt \<Rightarrow> owned_open (w_db w) ctx user \<and> db_ok (w_db w') \<and> proxy_contexts (w_db w') = proxy_contexts (w_db w)
       \<and> marked proxy_routes route_origin (\<lambda>r. pr_id r = rt_id rt) (url_origin ctx u) (w_db w')
       \<and> rt_context rt = ctx \<and> rt_user rt = user \<and> rt_scheme rt = u_scheme u \<and> rt_host rt = Hostname u \<and> rt_port rt = route_port u)) w"
proof -
  have c: "wp (createRoute E t ctx user u) (\<lambda>r w'. w_trace w' = w_trace w \<and> Suc (Suc (w_tick w)) \<le> w_tick w' \<and> (case r of
     Inl _ \<Rightarrow> True
   | Inr rt \<Rightarrow> db_ok (w_db w') \<and> proxy_contexts (w_db w') = proxy_contexts (w_db w)
       \<and> marked proxy_routes route_origin (\<lambda>r. pr_id r = rt_id rt) (url_origin ctx u) (w_db w')
       \<and> rt_context rt = ctx \<and> rt_user rt = user \<and> rt_scheme rt = u_scheme u \<and> rt_host rt = Hostname u \<and> rt_port rt = route_port u))
     (w\<lparr>w_tick := Suc (Suc (w_tick w))\<rparr>)" for t
    using createRoute_spec [of "w\<lparr>w_tick := Suc (Suc (w_tick w))\<rparr>" E t ctx user u] assms
    by (auto elim!: wp_mono split: sum.splits)
  show ?thesis
    by (auto simp: ResolveRoute_def step_simps Let_def check_owner_def dest!: select_ownerD
        split: option.split sum.split prod.split intro!: wp_mono [OF c])
qed

text \<open>The owner of a context never changes.\<close>

interpretation owner_marks: sticky_mark proxy_contexts pc_id "\<lambda>c. pc_user c = u" proxy_write for u
proof
  fix d d' assume "proxy_write d d'"
  then show "mark_kept proxy_contexts pc_id (\<lambda>c. pc_user c = u) d d'"
  proof cases
    case (Close_Context i v t n)
    from store_rowsD(6) [OF this] show ?thesis
      by (intro mark_kept_update [where P = "\<lambda>c. pc_id c = i \<and> pc_user c = v \<and> pc_closed c = None"
            and f = "\<lambda>c. c\<lparr>pc_closed := Some t\<rparr>"]) auto
  next
    case (Update_URL i url t x)
    from store_rowsD(7) [OF this] show ?thesis
      by (intro mark_kept_update [where P = "\<lambda>c. pc_id c = i" and f = "\<lambda>c. c\<lparr>pc_url := url, pc_active := t\<rparr>"]) auto
  qed (auto dest!: store_rowsD intro: mark_kept_same mark_kept_append db_ok_keys)
qed

lemma map_filter_update: "(\<And>r. g (f r) = g r) \<Longrightarrow> List.map_filter g (update_rows P f rs) = List.map_filter g rs"
  by (induction rs) (auto simp: update_rows_def List.map_filter_def)

lemma db_ok_update_tickets:
  "(\<And>k. pt_hash (f k) = pt_hash k \<and> pt_user (f k) = pt_user k \<and> pt_context (f k) = pt_context k) \<Longrightarrow>
   db_ok (d\<lparr>proxy_tickets := update_rows P f (proxy_tickets d)\<rparr>) = db_ok d"
  by (simp add: db_ok_def users_ok_def groups_ok_def policies_ok_def proxy_ok_def upstreams_ok_def map_update_rows)

lemma db_ok_update_contexts:
  "(\<And>c. pc_id (f c) = pc_id c \<and> pc_user (f c) = pc_user c \<and> pc_upstream (f c) = pc_upstream c) \<Longrightarrow>
   db_ok (d\<lparr>proxy_contexts := update_rows P f (proxy_contexts d)\<rparr>) = db_ok d"
  by (simp add: db_ok_def users_ok_def groups_ok_def policies_ok_def proxy_ok_def upstreams_ok_def map_update_rows map_filter_update)

lemma write_db_ok: "proxy_write d d' \<Longrightarrow> db_ok d \<Longrightarrow> db_ok d'"
  by (erule proxy_writeE; drule store_rowsD) (auto simp: db_ok_update_tickets db_ok_update_contexts)

lemma writes_db_ok: "proxy_write\<^sup>*\<^sup>* d d' \<Longrightarrow> db_ok d \<Longrightarrow> db_ok d'"
  by (induction rule: rtranclp_induct) (auto intro: write_db_ok)

lemma owned_open_marks: "owned_open d ctx user \<Longrightarrow> db_ok d \<Longrightarrow> marked proxy_contexts pc_id (\<lambda>c. pc_user c = user) ctx d"
  by (auto simp: owned_open_def marked_def dest: db_ok_keys)

text \<open>
  C30: A route is the name of one origin within one context, for good. When an origin has been resolved
  in a context, resolving it again later gives the same identifier (so the same host label, and the
  browser keeps seeing one origin), and only the same user can do it, whatever the store wrote in
  between.
\<close>

theorem route_identity:
  assumes "run_state (ResolveRoute E ctx user u) w = (Inr rt, w1)" and "db_ok (w_db w)"
    and "proxy_write\<^sup>*\<^sup>* (w_db w1) (w_db w2)"
    and "run_state (ResolveRoute E' ctx user' u') w2 = (Inr rt', w3)" and "url_origin ctx u' = url_origin ctx u"
  shows "rt_id rt' = rt_id rt \<and> user' = user"
proof -
  note one = ResolveRoute_spec [OF assms(2), of E ctx user u, unfolded wp_def assms(1), simplified]
  have ok: "db_ok (w_db w2)" using one assms(3) by (auto intro: writes_db_ok)
  note two = ResolveRoute_spec [OF ok, of E' ctx user' u', unfolded wp_def assms(4), simplified]
  have three: "proxy_write\<^sup>*\<^sup>* (w_db w2) (w_db w3)"
    using keepsD [OF methods_are_writes(3) [of "w_db w2" E' ctx user' u'], of w2] assms(4) by (simp add: on_db_def)
  have m: "marked proxy_routes route_origin (\<lambda>r. pr_id r = rt_id rt) (url_origin ctx u) (w_db w3)"
    using one assms(3) three by (intro route_marks.stays_marked [OF three] route_marks.stays_marked [OF assms(3)]) simp
  have "marked proxy_contexts pc_id (\<lambda>c. pc_user c = user) ctx (w_db w1)"
    using one owned_open_marks [OF _ assms(2)] by (auto simp: marked_def)
  then have o: "marked proxy_contexts pc_id (\<lambda>c. pc_user c = user) ctx (w_db w2)"
    by (rule owner_marks.stays_marked [OF assms(3)])
  obtain r where "r \<in> set (proxy_routes (w_db w3))" "route_origin r = url_origin ctx u" "pr_id r = rt_id rt'"
    using two assms(5) by (auto simp: marked_def)
  with route_marks.marked_row [OF m] have "rt_id rt' = rt_id rt" by simp
  moreover obtain c where "c \<in> set (proxy_contexts (w_db w2))" "pc_id c = ctx" "pc_user c = user'"
    using two by (auto simp: owned_open_def)
  with owner_marks.marked_row [OF o] have "user' = user" by simp
  ultimately show ?thesis ..
qed

definition sample_route :: route where
  "sample_route = \<lparr>rt_id = 102, rt_context = 5, rt_user = 1, rt_scheme = ''https'', rt_host = ''db.example.com'', rt_port = 443,
       rt_url = [], rt_upstream = None, rt_compat = False\<rparr>"

lemmas store_eval = ResolveRoute_def createRoute_def step_simps Let_def sample_env_def sample_world_def select_owner_def
  read_row_def check_owner_def ticket_db_def insert_route_def store_db_def db_ok_eval sample_target_def url_eval str_eval
  route_port_def sample_route_def

lemma sample_route_twice: "\<exists>w1 w2. run_state (ResolveRoute sample_env 5 1 sample_target) (sample_world ticket_db) = (Inr sample_route, w1)
    \<and> run_state (ResolveRoute sample_env 5 1 sample_target) w1 = (Inr sample_route, w2)"
  by (rule run_twice) (simp add: store_eval)

theorem route_identity_witness:
  "\<exists>w1 w2. run_state (ResolveRoute sample_env 5 1 sample_target) (sample_world ticket_db) = (Inr sample_route, w1)
    \<and> run_state (ResolveRoute sample_env 5 1 sample_target) w1 = (Inr sample_route, w2) \<and> rt_id sample_route = rt_id sample_route"
proof -
  obtain w1 w2 where r: "run_state (ResolveRoute sample_env 5 1 sample_target) (sample_world ticket_db) = (Inr sample_route, w1)"
    "run_state (ResolveRoute sample_env 5 1 sample_target) w1 = (Inr sample_route, w2)"
    using sample_route_twice by blast
  have "db_ok (w_db (sample_world ticket_db))" by (simp add: sample_world_def ticket_db_ok)
  from route_identity [OF r(1) this rtranclp.rtrancl_refl r(2) refl] r show ?thesis by blast
qed

end
