(* ===== verification/Auth_Store.thy ===== *)
theory Auth_Store
  imports Password Proxy_Store
begin

text \<open>
  \<open>internal/auth/store.go\<close> and \<open>tokens.go\<close>: users, browser sessions, program tokens and the audit
  log. Statements first, the methods that compose them after.
\<close>

section \<open>Values\<close>

datatype auth_error = User_Not_Found | Invalid_Credentials | Token_Not_Found | Failed string

record ldap_identity =
  li_username :: string
  li_display :: string
  li_email :: string
  li_groups :: "(string \<times> string) list"

record user =
  uu_id :: uuid
  uu_username :: string
  uu_display :: string
  uu_email :: string
  uu_source :: string
  uu_admin :: bool
  uu_hash :: string

record session =
  sn_token :: string
  sn_csrf :: string
  sn_expires :: int
  sn_user :: user
  sn_method :: string
  sn_scopes :: "string list"

record program_token =
  pg_id :: uuid
  pg_name :: string
  pg_prefix :: string
  pg_scopes :: "string list"
  pg_expires :: int
  pg_last_used :: "int option"
  pg_created :: int

definition ScopeProxy :: string where "ScopeProxy = ''proxy''"

definition ScopeAdmin :: string where "ScopeAdmin = ''admin''"

definition five_minutes :: int where "five_minutes = 300 * second"

definition year :: int where "year = 366 * 24 * 3600 * second"

definition normalizeUsername :: "string \<Rightarrow> string" where
  "normalizeUsername value = ToLower (TrimSpace value)"

text \<open>What a query scans of a user; only the login query selects the password hash.\<close>

definition scan_user :: "user_row \<Rightarrow> user" where
  "scan_user u = \<lparr>uu_id = us_id u, uu_username = us_username u, uu_display = us_display u, uu_email = us_email u,
     uu_source = us_source u, uu_admin = us_admin u, uu_hash = []\<rparr>"

section \<open>Statements\<close>

definition select_user :: "string \<Rightarrow> user statement" where
  "select_user name = read_row (\<lambda>_ d. map_option
     (\<lambda>u. (scan_user u)\<lparr>uu_hash := (case us_password u of None \<Rightarrow> [] | Some h \<Rightarrow> h)\<rparr>)
     (find (\<lambda>u. us_normalized u = name \<and> us_disabled u = None) (users d)))"

definition count_users :: "nat statement" where
  "count_users = read_rows (\<lambda>_ d. length (users d))"

text \<open>The upsert of an LDAP user: a conflicting row of another source is not updated and not returned.\<close>

definition overwrite_user :: "user \<Rightarrow> int \<Rightarrow> user_row \<Rightarrow> user_row" where
  "overwrite_user x t u = u\<lparr>us_username := uu_username x, us_display := uu_display x, us_email := uu_email x, us_updated := t\<rparr>"

definition upsert_ldap_user :: "uuid \<Rightarrow> user \<Rightarrow> (uuid \<times> bool) statement" where
  "upsert_ldap_user i x t d = (let name = normalizeUsername (uu_username x) in
     case find (\<lambda>u. us_normalized u = name) (users d) of
       None \<Rightarrow> store_db (i, False) (d\<lparr>users := users d @ [\<lparr>us_id = i, us_username = uu_username x, us_normalized = name,
         us_display = uu_display x, us_email = uu_email x, us_source = ''ldap'', us_password = None, us_admin = False,
         us_disabled = None, us_last_login = None, us_created = t, us_updated = t\<rparr>]\<rparr>)
     | Some u \<Rightarrow> if us_source u \<noteq> ''ldap'' then Inl No_Rows
         else store_db (us_id u, us_admin u)
           (d\<lparr>users := update_rows (\<lambda>u. us_normalized u = name) (overwrite_user x t) (users d)\<rparr>))"

definition clear_groups :: "uuid \<Rightarrow> unit statement" where
  "clear_groups user t d = Inr ((), d\<lparr>user_ldap_groups := delete_rows (\<lambda>(u, _). u = user) (user_ldap_groups d)\<rparr>)"

definition upsert_group :: "uuid \<Rightarrow> string \<Rightarrow> string \<Rightarrow> uuid statement" where
  "upsert_group i dn name t d =
    (case find (\<lambda>g. gr_dn g = dn) (ldap_groups d) of
       Some g \<Rightarrow> store_db (gr_id g) (d\<lparr>ldap_groups := update_rows (\<lambda>g. gr_dn g = dn) (\<lambda>g. g\<lparr>gr_name := name, gr_seen := t\<rparr>) (ldap_groups d)\<rparr>)
     | None \<Rightarrow> store_db i (d\<lparr>ldap_groups := ldap_groups d @ [\<lparr>gr_id = i, gr_dn = dn, gr_name = name, gr_seen = t, gr_created = t\<rparr>]\<rparr>))"

definition insert_membership :: "uuid \<Rightarrow> uuid \<Rightarrow> unit statement" where
  "insert_membership user grp t d = store_db () (d\<lparr>user_ldap_groups := user_ldap_groups d @ [(user, grp)]\<rparr>)"

definition touch_login :: "uuid \<Rightarrow> unit statement" where
  "touch_login user t d = Inr ((), d\<lparr>users := update_rows (\<lambda>u. us_id u = user) (\<lambda>u. u\<lparr>us_last_login := Some t\<rparr>) (users d)\<rparr>)"

definition insert_local_user :: "user \<Rightarrow> unit statement" where
  "insert_local_user x t d = store_db () (d\<lparr>users := users d @ [\<lparr>us_id = uu_id x, us_username = uu_username x,
     us_normalized = normalizeUsername (uu_username x), us_display = uu_display x, us_email = uu_email x, us_source = ''local'',
     us_password = Some (uu_hash x), us_admin = uu_admin x, us_disabled = None, us_last_login = None, us_created = t, us_updated = t\<rparr>]\<rparr>)"

definition insert_session :: "string \<Rightarrow> uuid \<Rightarrow> string \<Rightarrow> int \<Rightarrow> unit statement" where
  "insert_session hash user csrf expires t d = store_db () (d\<lparr>sessions := sessions d @
     [\<lparr>se_hash = hash, se_user = user, se_csrf = csrf, se_expires = expires, se_seen = t, se_created = t\<rparr>]\<rparr>)"

definition enabled_user :: "db \<Rightarrow> uuid \<Rightarrow> user_row option" where
  "enabled_user d i = find (\<lambda>u. us_id u = i \<and> us_disabled u = None) (users d)"

definition select_session :: "string \<Rightarrow> session statement" where
  "select_session hash = read_row (\<lambda>t d.
     case find (\<lambda>s. se_hash s = hash \<and> t < se_expires s) (sessions d) of
       None \<Rightarrow> None
     | Some s \<Rightarrow> map_option (\<lambda>u. \<lparr>sn_token = [], sn_csrf = se_csrf s, sn_expires = se_expires s, sn_user = scan_user u,
           sn_method = [], sn_scopes = []\<rparr>) (enabled_user d (se_user s)))"

definition touch_session :: "string \<Rightarrow> unit statement" where
  "touch_session hash t d = Inr ((), d\<lparr>sessions :=
     update_rows (\<lambda>s. se_hash s = hash \<and> se_seen s < t - five_minutes) (\<lambda>s. s\<lparr>se_seen := t\<rparr>) (sessions d)\<rparr>)"

definition delete_session :: "string \<Rightarrow> unit statement" where
  "delete_session hash t d = Inr ((), d\<lparr>sessions := delete_rows (\<lambda>s. se_hash s = hash) (sessions d)\<rparr>)"

text \<open>The identity column counts up. (A failed insert leaves a gap, which the model closes.)\<close>

definition next_audit_id :: "db \<Rightarrow> int" where
  "next_audit_id d = 1 + foldl max 0 (map au_id (audit_events d))"

definition insert_audit :: "uuid option \<Rightarrow> string \<Rightarrow> string \<Rightarrow> string \<Rightarrow> json \<Rightarrow> unit statement" where
  "insert_audit user kind outcome target detail t d = store_db () (d\<lparr>audit_events := audit_events d @
     [\<lparr>au_id = next_audit_id d, au_actor = user, au_type = kind, au_outcome = outcome, au_target = target, au_detail = detail, au_created = t\<rparr>]\<rparr>)"

definition insert_token :: "string \<Rightarrow> uuid \<Rightarrow> program_token \<Rightarrow> unit statement" where
  "insert_token hash user x t d = store_db () (d\<lparr>program_tokens := program_tokens d @
     [\<lparr>tk_id = pg_id x, tk_hash = hash, tk_prefix = pg_prefix x, tk_user = user, tk_name = pg_name x, tk_scopes = pg_scopes x,
       tk_expires = pg_expires x, tk_last_used = None, tk_created = pg_created x, tk_revoked = None\<rparr>]\<rparr>)"

definition scan_token :: "token_row \<Rightarrow> program_token" where
  "scan_token k = \<lparr>pg_id = tk_id k, pg_name = tk_name k, pg_prefix = tk_prefix k, pg_scopes = tk_scopes k,
     pg_expires = tk_expires k, pg_last_used = tk_last_used k, pg_created = tk_created k\<rparr>"

definition select_tokens :: "uuid \<Rightarrow> program_token list statement" where
  "select_tokens user = read_rows (\<lambda>_ d. map scan_token
     (sort_key (\<lambda>k. - tk_created k) (filter (\<lambda>k. tk_user k = user \<and> tk_revoked k = None) (program_tokens d))))"

definition own_live_token :: "uuid \<Rightarrow> uuid \<Rightarrow> token_row \<Rightarrow> bool" where
  "own_live_token user i k \<longleftrightarrow> tk_id k = i \<and> tk_user k = user \<and> tk_revoked k = None"

definition revoke_token :: "uuid \<Rightarrow> uuid \<Rightarrow> nat statement" where
  "revoke_token user i t d = Inr (affected (own_live_token user i) (program_tokens d),
     d\<lparr>program_tokens := update_rows (own_live_token user i) (\<lambda>k. k\<lparr>tk_revoked := Some t\<rparr>) (program_tokens d)\<rparr>)"

definition select_token_session :: "string \<Rightarrow> session statement" where
  "select_token_session hash = read_row (\<lambda>t d.
     case find (\<lambda>k. tk_hash k = hash \<and> tk_revoked k = None \<and> t < tk_expires k) (program_tokens d) of
       None \<Rightarrow> None
     | Some k \<Rightarrow> map_option (\<lambda>u. \<lparr>sn_token = [], sn_csrf = [], sn_expires = tk_expires k, sn_user = scan_user u,
           sn_method = [], sn_scopes = tk_scopes k\<rparr>) (enabled_user d (tk_user k)))"

definition touch_token :: "string \<Rightarrow> unit statement" where
  "touch_token hash t d = Inr ((), d\<lparr>program_tokens := update_rows
     (\<lambda>k. tk_hash k = hash \<and> (case tk_last_used k of None \<Rightarrow> True | Some l \<Rightarrow> l < t - five_minutes))
     (\<lambda>k. k\<lparr>tk_last_used := Some t\<rparr>) (program_tokens d)\<rparr>)"

section \<open>Users\<close>

text \<open>The driver's \<open>ErrNoRows\<close> becomes the error of the caller's choice.\<close>

definition no_rows_as :: "auth_error \<Rightarrow> string \<Rightarrow> auth_error" where
  "no_rows_as e err = (if err = No_Rows then e else Failed err)"

definition FindUserByUsername :: "env \<Rightarrow> string \<Rightarrow> (auth_error + user) prog" where
  "FindUserByUsername E username = wrap_err (no_rows_as User_Not_Found) (sql E (select_user (normalizeUsername username)))"

primrec save_groups :: "env \<Rightarrow> int \<Rightarrow> uuid \<Rightarrow> (string \<times> string) list \<Rightarrow> unit result prog" where
  "save_groups E t user [] = State_Monad.return (Inr ())"
| "save_groups E t user (g # gs) = do {
     i \<leftarrow> new_uuid E;
     ok_or (sql_at E t (upsert_group i (fst g) (snd g))) (\<lambda>grp.
     ok_or (sql_at E t (insert_membership user grp)) (\<lambda>_.
     save_groups E t user gs))}"

definition ldap_user :: "ldap_identity \<Rightarrow> user" where
  "ldap_user identity = \<lparr>uu_id = 0, uu_username = TrimSpace (li_username identity), uu_display = TrimSpace (li_display identity),
     uu_email = TrimSpace (li_email identity), uu_source = ''ldap'', uu_admin = False, uu_hash = []\<rparr>"

definition UpsertLDAPUser :: "env \<Rightarrow> ldap_identity \<Rightarrow> user result prog" where
  "UpsertLDAPUser E identity = transaction E (\<lambda>t. do {
     i \<leftarrow> new_uuid E;
     ok_or (sql_at E t (upsert_ldap_user i (ldap_user identity))) (\<lambda>(user, admin).
     ok_or (sql_at E t (clear_groups user)) (\<lambda>_.
     ok_or (save_groups E t user (li_groups identity)) (\<lambda>_.
     ok_or (sql_at E t (touch_login user)) (\<lambda>_.
     State_Monad.return (Inr ((ldap_user identity)\<lparr>uu_id := user, uu_admin := admin\<rparr>))))))})"

definition CreateLocalUser :: "env \<Rightarrow> string \<Rightarrow> string \<Rightarrow> string \<Rightarrow> string \<Rightarrow> bool \<Rightarrow> user result prog" where
  "CreateLocalUser E username displayName email password admin = ok_or (HashPassword E password) (\<lambda>hash. do {
     i \<leftarrow> new_uuid E;
     let x = \<lparr>uu_id = i, uu_username = TrimSpace username, uu_display = TrimSpace displayName, uu_email = TrimSpace email,
       uu_source = ''local'', uu_admin = admin, uu_hash = []\<rparr>;
     (if uu_username x = [] then State_Monad.return (Inl ''username is required'')
      else ok_or (sql E (insert_local_user (x\<lparr>uu_hash := hash\<rparr>))) (\<lambda>_. State_Monad.return (Inr x)))})"

definition EnsureBootstrapAdmin :: "env \<Rightarrow> string \<Rightarrow> string \<Rightarrow> unit result prog" where
  "EnsureBootstrapAdmin E username password =
    (if TrimSpace username = [] then State_Monad.return (Inr ())
     else ok_or (sql E count_users) (\<lambda>count.
       if count \<noteq> 0 then State_Monad.return (Inr ())
       else ok_or (CreateLocalUser E username username [] password True) (\<lambda>_. State_Monad.return (Inr ()))))"

section \<open>Sessions\<close>

definition authRandomToken :: "env \<Rightarrow> (string \<times> string) result prog" where
  "authRandomToken E = ok_or (random_bytes E 32) (\<lambda>raw.
     let token = RawURL_Encode raw in State_Monad.return (Inr (token, e_sha256 E token)))"

definition CreateSession :: "env \<Rightarrow> user \<Rightarrow> int \<Rightarrow> session result prog" where
  "CreateSession E user ttl = ok_or (authRandomToken E) (\<lambda>(token, tokenHash).
     ok_or (authRandomToken E) (\<lambda>(csrf, _). do {
       t \<leftarrow> now E;
       ok_or (sql E (insert_session tokenHash (uu_id user) csrf (t + ttl))) (\<lambda>_.
       State_Monad.return (Inr \<lparr>sn_token = token, sn_csrf = csrf, sn_expires = t + ttl, sn_user = user, sn_method = ''session'',
         sn_scopes = []\<rparr>))}))"

definition SessionByToken :: "env \<Rightarrow> string \<Rightarrow> (auth_error + session) prog" where
  "SessionByToken E token = ok_or (wrap_err (no_rows_as Invalid_Credentials) (sql E (select_session (e_sha256 E token)))) (\<lambda>s. do {
     ignore (sql E (touch_session (e_sha256 E token)));
     State_Monad.return (Inr (s\<lparr>sn_method := ''session''\<rparr>))})"

definition DeleteSession :: "env \<Rightarrow> string \<Rightarrow> unit result prog" where
  "DeleteSession E token = sql E (delete_session (e_sha256 E token))"

definition Audit :: "env \<Rightarrow> uuid option \<Rightarrow> string \<Rightarrow> string \<Rightarrow> string \<Rightarrow> unit prog" where
  "Audit E user kind outcome target = ignore (sql E (insert_audit user kind outcome target (JObj [])))"

section \<open>Program tokens\<close>

fun validate_scopes :: "bool \<Rightarrow> string list \<Rightarrow> string list \<Rightarrow> string list result" where
  "validate_scopes admin acc [] = (if acc = [] then Inl ''at least one scope is required'' else Inr acc)"
| "validate_scopes admin acc (s # ss) =
    (let scope = TrimSpace s in
     if scope \<noteq> ScopeProxy \<and> scope \<noteq> ScopeAdmin then Inl ''unsupported scope''
     else if scope = ScopeAdmin \<and> \<not> admin then Inl ''admin scope requires administrator''
     else validate_scopes admin (if scope \<in> set acc then acc else acc @ [scope]) ss)"

definition ValidateScopes :: "string list \<Rightarrow> bool \<Rightarrow> string list result" where
  "ValidateScopes scopes admin = validate_scopes admin [] scopes"

definition token_prefix :: string where
  "token_prefix = ''tvpn_pat_''"

text \<open>The clock is read once for each comparison; the second one only when the first held.\<close>

definition token_metadata_ok :: "env \<Rightarrow> string \<Rightarrow> int \<Rightarrow> bool prog" where
  "token_metadata_ok E name expiresAt =
    (if name = [] \<or> 100 < length name then State_Monad.return False
     else do {
       t1 \<leftarrow> now E;
       (if \<not> t1 < expiresAt then State_Monad.return False
        else do {
          t2 \<leftarrow> now E;
          State_Monad.return (\<not> t2 + year < expiresAt)})})"

definition CreateProgramToken :: "env \<Rightarrow> user \<Rightarrow> string \<Rightarrow> string list \<Rightarrow> int \<Rightarrow> (program_token \<times> string) result prog" where
  "CreateProgramToken E user name scopes expiresAt = do {
     ok \<leftarrow> token_metadata_ok E (TrimSpace name) expiresAt;
     (if \<not> ok then State_Monad.return (Inl ''invalid token metadata'')
      else ok_or (State_Monad.return (ValidateScopes scopes (uu_admin user))) (\<lambda>scopes'.
        ok_or (random_bytes E 32) (\<lambda>raw. do {
          let plain = token_prefix @ RawURL_Encode raw;
          i \<leftarrow> new_uuid E;
          created \<leftarrow> now E;
          let x = \<lparr>pg_id = i, pg_name = TrimSpace name, pg_prefix = take 17 plain, pg_scopes = scopes', pg_expires = expiresAt,
            pg_last_used = None, pg_created = created\<rparr>;
          ok_or (sql E (insert_token (e_sha256 E plain) (uu_id user) x)) (\<lambda>_.
          State_Monad.return (Inr (x, plain)))})))}"

definition ProgramTokens :: "env \<Rightarrow> uuid \<Rightarrow> program_token list result prog" where
  "ProgramTokens E user = sql E (select_tokens user)"

definition RevokeProgramToken :: "env \<Rightarrow> uuid \<Rightarrow> uuid \<Rightarrow> (auth_error + unit) prog" where
  "RevokeProgramToken E user i = ok_or (wrap_err Failed (sql E (revoke_token user i))) (\<lambda>n.
     State_Monad.return (if n \<noteq> 1 then Inl Token_Not_Found else Inr ()))"

definition SessionByProgramToken :: "env \<Rightarrow> string \<Rightarrow> (auth_error + session) prog" where
  "SessionByProgramToken E token =
    (if \<not> HasPrefix token token_prefix then State_Monad.return (Inl Invalid_Credentials)
     else ok_or (wrap_err (no_rows_as Invalid_Credentials) (sql E (select_token_session (e_sha256 E token)))) (\<lambda>s. do {
       ignore (sql E (touch_token (e_sha256 E token)));
       State_Monad.return (Inr (s\<lparr>sn_method := ''token''\<rparr>))}))"

section \<open>Who a token stands for\<close>

definition session_row_for :: "db \<Rightarrow> int \<Rightarrow> string \<Rightarrow> session_row \<Rightarrow> user_row \<Rightarrow> bool" where
  "session_row_for d t hash s u \<longleftrightarrow> s \<in> set (sessions d) \<and> se_hash s = hash \<and> t < se_expires s
     \<and> u \<in> set (users d) \<and> us_id u = se_user s \<and> us_disabled u = None"

definition token_row_for :: "db \<Rightarrow> int \<Rightarrow> string \<Rightarrow> token_row \<Rightarrow> user_row \<Rightarrow> bool" where
  "token_row_for d t hash k u \<longleftrightarrow> k \<in> set (program_tokens d) \<and> tk_hash k = hash \<and> tk_revoked k = None \<and> t < tk_expires k
     \<and> u \<in> set (users d) \<and> us_id u = tk_user k \<and> us_disabled u = None"

definition session_of :: "session_row \<Rightarrow> user_row \<Rightarrow> session" where
  "session_of s u = \<lparr>sn_token = [], sn_csrf = se_csrf s, sn_expires = se_expires s, sn_user = scan_user u, sn_method = ''session'',
     sn_scopes = []\<rparr>"

definition token_session_of :: "token_row \<Rightarrow> user_row \<Rightarrow> session" where
  "token_session_of k u = \<lparr>sn_token = [], sn_csrf = [], sn_expires = tk_expires k, sn_user = scan_user u, sn_method = ''token'',
     sn_scopes = tk_scopes k\<rparr>"

text \<open>The hash names a session at a time: the answer of the two queries.\<close>

definition names_session :: "db \<Rightarrow> int \<Rightarrow> string \<Rightarrow> session \<Rightarrow> bool" where
  "names_session d t hash x \<longleftrightarrow> (\<exists>s u. session_row_for d t hash s u \<and> x = session_of s u)"

definition names_token :: "db \<Rightarrow> int \<Rightarrow> string \<Rightarrow> session \<Rightarrow> bool" where
  "names_token d t hash x \<longleftrightarrow> (\<exists>k u. token_row_for d t hash k u \<and> x = token_session_of k u)"

lemma db_ok_user_keys:
  "db_ok d \<Longrightarrow> distinct (map us_id (users d))" "db_ok d \<Longrightarrow> distinct (map us_normalized (users d))"
  "db_ok d \<Longrightarrow> distinct (map se_hash (sessions d))" "db_ok d \<Longrightarrow> distinct (map tk_hash (program_tokens d))"
  "db_ok d \<Longrightarrow> distinct (map tk_id (program_tokens d))"
  by (simp_all add: db_ok_def users_ok_def)

text \<open>In a table with a key, the first matching row is the only one.\<close>

lemma find_by_key:
  assumes "distinct (map key rs)" and "r \<in> set rs" and "key r = k" and "P r"
  shows "find (\<lambda>r. key r = k \<and> P r) rs = Some r"
proof (rule find_Some_unique [OF assms(2)])
  fix y assume "y \<in> set rs" "key y = k \<and> P y"
  with assms show "y = r" by (metis distinct_mapD)
qed (use assms in simp)

lemma find_by_key_iff:
  assumes "distinct (map key rs)"
  shows "find (\<lambda>r. key r = k \<and> P r) rs = Some r \<longleftrightarrow> r \<in> set rs \<and> key r = k \<and> P r"
proof
  assume "r \<in> set rs \<and> key r = k \<and> P r"
  then show "find (\<lambda>r. key r = k \<and> P r) rs = Some r" by (intro find_by_key [OF assms]) auto
qed (use find_SomeD in fast)

lemma enabled_user_iff: "db_ok d \<Longrightarrow> enabled_user d i = Some u \<longleftrightarrow> u \<in> set (users d) \<and> us_id u = i \<and> us_disabled u = None"
  unfolding enabled_user_def by (rule find_by_key_iff) (rule db_ok_user_keys)

lemma select_session_None:
  assumes "select_session hash t d = Inl e" and "db_ok d" shows "\<not> names_session d t hash x"
proof
  assume "names_session d t hash x"
  then obtain s u where row: "session_row_for d t hash s u" by (auto simp: names_session_def)
  then have "find (\<lambda>s. se_hash s = hash \<and> t < se_expires s) (sessions d) = Some s"
    by (intro find_by_key [OF db_ok_user_keys(3) [OF assms(2)]]) (auto simp: session_row_for_def)
  moreover have "enabled_user d (se_user s) = Some u"
    using assms row by (simp add: enabled_user_iff session_row_for_def)
  ultimately show False using assms(1) by (simp add: select_session_def read_row_def)
qed

lemma select_token_session_None:
  assumes "select_token_session hash t d = Inl e" and "db_ok d" shows "\<not> names_token d t hash x"
proof
  assume "names_token d t hash x"
  then obtain k u where row: "token_row_for d t hash k u" by (auto simp: names_token_def)
  then have "find (\<lambda>k. tk_hash k = hash \<and> tk_revoked k = None \<and> t < tk_expires k) (program_tokens d) = Some k"
    by (intro find_by_key [OF db_ok_user_keys(4) [OF assms(2)]]) (auto simp: token_row_for_def)
  moreover have "enabled_user d (tk_user k) = Some u"
    using assms row by (simp add: enabled_user_iff token_row_for_def)
  ultimately show False using assms(1) by (simp add: select_token_session_def read_row_def)
qed

lemma select_sessionD:
  assumes "select_session hash t d = Inr (x, d')" and "db_ok d"
  shows "d' = d \<and> names_session d t hash (x\<lparr>sn_method := ''session''\<rparr>)"
proof (cases "find (\<lambda>s. se_hash s = hash \<and> t < se_expires s) (sessions d)")
  case None
  then show ?thesis using assms(1) by (simp add: select_session_def read_row_def)
next
  case r: (Some s)
  show ?thesis
  proof (cases "enabled_user d (se_user s)")
    case None
    with r show ?thesis using assms(1) by (simp add: select_session_def read_row_def)
  next
    case u: (Some u)
    have "session_row_for d t hash s u"
      using find_SomeD [OF r] u by (simp add: session_row_for_def enabled_user_iff [OF assms(2)])
    moreover have "d' = d \<and> x\<lparr>sn_method := ''session''\<rparr> = session_of s u"
      using assms(1) r u by (auto simp: select_session_def read_row_def session_of_def)
    ultimately show ?thesis unfolding names_session_def by blast
  qed
qed

lemma select_token_sessionD:
  assumes "select_token_session hash t d = Inr (x, d')" and "db_ok d"
  shows "d' = d \<and> names_token d t hash (x\<lparr>sn_method := ''token''\<rparr>)"
proof (cases "find (\<lambda>k. tk_hash k = hash \<and> tk_revoked k = None \<and> t < tk_expires k) (program_tokens d)")
  case None
  then show ?thesis using assms(1) by (simp add: select_token_session_def read_row_def)
next
  case r: (Some k)
  show ?thesis
  proof (cases "enabled_user d (tk_user k)")
    case None
    with r show ?thesis using assms(1) by (simp add: select_token_session_def read_row_def)
  next
    case u: (Some u)
    have "token_row_for d t hash k u"
      using find_SomeD [OF r] u by (simp add: token_row_for_def enabled_user_iff [OF assms(2)])
    moreover have "d' = d \<and> x\<lparr>sn_method := ''token''\<rparr> = token_session_of k u"
      using assms(1) r u by (auto simp: select_token_session_def read_row_def token_session_of_def)
    ultimately show ?thesis unfolding names_token_def by blast
  qed
qed

text \<open>Touching a session or a token changes nothing that is read of it.\<close>

definition touched :: "db \<Rightarrow> db \<Rightarrow> bool" where
  "touched d d' \<longleftrightarrow> (let erase = (\<lambda>d. d\<lparr>sessions := map (\<lambda>s. s\<lparr>se_seen := 0\<rparr>) (sessions d),
     program_tokens := map (\<lambda>k. k\<lparr>tk_last_used := None\<rparr>) (program_tokens d)\<rparr>) in erase d' = erase d)"

lemma touched_refl: "touched d d"
  by (simp add: touched_def)

lemma touch_touched: "touch_session h t d = Inr (x, d') \<Longrightarrow> touched d d'" "touch_token h t d = Inr (x, d') \<Longrightarrow> touched d d'"
  by (auto simp: touch_session_def touch_token_def touched_def map_update_rows)

lemma SessionByToken_spec:
  assumes "db_ok (w_db w)"
  shows "wp (SessionByToken E token) (\<lambda>r w'. touched (w_db w) (w_db w') \<and> w_trace w' = w_trace w \<and> (case r of
     Inl _ \<Rightarrow> e_fault E (w_tick w) \<noteq> None \<or> (\<forall>x. \<not> names_session (w_db w) (e_now E (w_tick w)) (e_sha256 E token) x)
   | Inr x \<Rightarrow> e_fault E (w_tick w) = None \<and> names_session (w_db w) (e_now E (w_tick w)) (e_sha256 E token) x)) w"
  using select_session_None [OF _ assms]
  by (auto simp: SessionByToken_def step_simps touched_refl split: option.split sum.split
      dest!: select_sessionD [OF _ assms] touch_touched)

lemma SessionByProgramToken_spec:
  assumes "db_ok (w_db w)"
  shows "wp (SessionByProgramToken E token) (\<lambda>r w'. touched (w_db w) (w_db w') \<and> w_trace w' = w_trace w \<and> (case r of
     Inl _ \<Rightarrow> \<not> HasPrefix token token_prefix \<or> e_fault E (w_tick w) \<noteq> None
       \<or> (\<forall>x. \<not> names_token (w_db w) (e_now E (w_tick w)) (e_sha256 E token) x)
   | Inr x \<Rightarrow> HasPrefix token token_prefix \<and> e_fault E (w_tick w) = None
       \<and> names_token (w_db w) (e_now E (w_tick w)) (e_sha256 E token) x)) w"
  using select_token_session_None [OF _ assms]
  by (auto simp: SessionByProgramToken_def step_simps touched_refl split: option.split sum.split
      dest!: select_token_sessionD [OF _ assms] touch_touched)

text \<open>
  C15: Who a cookie or a program token authenticates. A session token is accepted exactly when its
  hash is stored with an expiry in the future for a user who exists and is not disabled; a program token
  exactly when it has the prefix, is stored, not revoked, not expired and its user is not disabled. The
  session then carries that user as the table has it now (so a demoted administrator is no administrator
  any more), and a token's own scopes. Except for the time of last use nothing changes.
\<close>

theorem authentication_exact:
  assumes "db_ok (w_db w)"
  shows "(case run_state (SessionByToken E token) w of
       (Inl _, w') \<Rightarrow> touched (w_db w) (w_db w') \<and> (e_fault E (w_tick w) \<noteq> None
          \<or> (\<forall>x. \<not> names_session (w_db w) (e_now E (w_tick w)) (e_sha256 E token) x))
     | (Inr x, w') \<Rightarrow> touched (w_db w) (w_db w') \<and> e_fault E (w_tick w) = None
          \<and> names_session (w_db w) (e_now E (w_tick w)) (e_sha256 E token) x)
    \<and> (case run_state (SessionByProgramToken E token) w of
       (Inl _, w') \<Rightarrow> touched (w_db w) (w_db w') \<and> (\<not> HasPrefix token token_prefix \<or> e_fault E (w_tick w) \<noteq> None
          \<or> (\<forall>x. \<not> names_token (w_db w) (e_now E (w_tick w)) (e_sha256 E token) x))
     | (Inr x, w') \<Rightarrow> touched (w_db w) (w_db w') \<and> HasPrefix token token_prefix \<and> e_fault E (w_tick w) = None
          \<and> names_token (w_db w) (e_now E (w_tick w)) (e_sha256 E token) x)"
  using SessionByToken_spec [OF assms, of E token] SessionByProgramToken_spec [OF assms, of E token]
  by (intro conjI) (simp_all add: wp_def split: prod.splits sum.splits)

definition auth_db :: db where
  "auth_db = sample_db\<lparr>sessions := [\<lparr>se_hash = ''sha256:s'', se_user = 1, se_csrf = ''c'', se_expires = 60 * second, se_seen = 0,
       se_created = 0\<rparr>],
     program_tokens := [\<lparr>tk_id = 3, tk_hash = ''sha256:tvpn_pat_x'', tk_prefix = ''tvpn_pat_x'', tk_user = 1, tk_name = ''ci'',
       tk_scopes = [''proxy''], tk_expires = 60 * second, tk_last_used = None, tk_created = 0, tk_revoked = None\<rparr>]\<rparr>"

definition auth_world :: world where
  "auth_world = sample_world auth_db"

lemma auth_db_ok: "db_ok (w_db auth_world)"
  by (simp add: auth_world_def sample_world_def auth_db_def db_ok_eval)

lemma sample_names_session: "names_session (w_db auth_world) (e_now sample_env (w_tick auth_world)) (e_sha256 sample_env ''s'')
    (session_of (hd (sessions auth_db)) (sample_user 1 ''alice'' None))"
  unfolding names_session_def
  by (rule exI [of _ "hd (sessions auth_db)"], rule exI [of _ "sample_user 1 ''alice'' None"])
    (simp add: session_row_for_def auth_db_def auth_world_def sample_world_def sample_env_def second_def sample_db_def sample_user_def)

lemma sample_fault: "e_fault sample_env t = None"
  by (simp add: sample_env_def)

theorem authentication_exact_witness: "is_ok (fst (run_state (SessionByToken sample_env ''s'') auth_world))"
proof (cases "run_state (SessionByToken sample_env ''s'') auth_world")
  case (Pair r w')
  note exact = authentication_exact [OF auth_db_ok, THEN conjunct1, of sample_env "''s''", unfolded Pair prod.case sample_fault]
  show ?thesis unfolding Pair by (cases r) (use exact sample_names_session in auto)
qed

section \<open>Scopes\<close>

lemma validate_scopes_iff: "validate_scopes admin acc ss = Inr r \<longleftrightarrow>
    list_all (\<lambda>s. TrimSpace s = ScopeProxy \<or> TrimSpace s = ScopeAdmin \<and> admin) ss
  \<and> r = foldl (\<lambda>acc s. if s \<in> set acc then acc else acc @ [s]) acc (map TrimSpace ss) \<and> r \<noteq> []"
  by (induction admin acc ss rule: validate_scopes.induct) (auto simp: Let_def ScopeProxy_def ScopeAdmin_def)

lemma foldl_insert_set: "set (foldl (\<lambda>acc s. if s \<in> set acc then acc else acc @ [s]) acc ss) = set acc \<union> set ss"
  by (induction ss arbitrary: acc) auto

lemma foldl_insert_distinct: "distinct acc \<Longrightarrow> distinct (foldl (\<lambda>acc s. if s \<in> set acc then acc else acc @ [s]) acc ss)"
  by (induction ss arbitrary: acc) auto

text \<open>
  What scopes a token can have. The list is accepted exactly when it is not empty and each entry,
  trimmed, is \<open>proxy\<close>, or \<open>admin\<close> for an administrator; the accepted scopes are those entries, each
  once. In particular nobody gives a token a right he lacks.
\<close>

theorem validate_scopes_exact:
  "case ValidateScopes scopes admin of
     Inl _ \<Rightarrow> \<not> (scopes \<noteq> [] \<and> list_all (\<lambda>s. TrimSpace s = ScopeProxy \<or> TrimSpace s = ScopeAdmin \<and> admin) scopes)
   | Inr r \<Rightarrow> scopes \<noteq> [] \<and> list_all (\<lambda>s. TrimSpace s = ScopeProxy \<or> TrimSpace s = ScopeAdmin \<and> admin) scopes
       \<and> distinct r \<and> set r = TrimSpace ` set scopes"
proof (cases "ValidateScopes scopes admin")
  case (Inr r)
  note accepted = Inr [unfolded ValidateScopes_def validate_scopes_iff]
  show ?thesis
    unfolding Inr using accepted foldl_insert_set [of "[]" "map TrimSpace scopes"] foldl_insert_distinct [of "[]" "map TrimSpace scopes"]
    by auto
next
  case (Inl e)
  let ?r = "foldl (\<lambda>acc s. if s \<in> set acc then acc else acc @ [s]) [] (map TrimSpace scopes)"
  have "ValidateScopes scopes admin \<noteq> Inr ?r" using Inl by simp
  then have "\<not> list_all (\<lambda>s. TrimSpace s = ScopeProxy \<or> TrimSpace s = ScopeAdmin \<and> admin) scopes \<or> ?r = []"
    unfolding ValidateScopes_def validate_scopes_iff by blast
  moreover have "?r = [] \<Longrightarrow> scopes = []"
    using foldl_insert_set [of "[]" "map TrimSpace scopes"] by auto
  ultimately show ?thesis using Inl by auto
qed

section \<open>Round trips\<close>

lemma names_unique:
  assumes "db_ok d"
  shows "names_session d t h x \<Longrightarrow> names_session d t h y \<Longrightarrow> x = y" "names_token d t h x \<Longrightarrow> names_token d t h y \<Longrightarrow> x = y"
  unfolding names_session_def names_token_def session_row_for_def token_row_for_def
  using distinct_mapD [OF db_ok_user_keys(3) [OF assms]] distinct_mapD [OF db_ok_user_keys(4) [OF assms]]
    distinct_mapD [OF db_ok_user_keys(1) [OF assms]] by metis+

text \<open>What the two methods answer when the hash has a row.\<close>

definition answer :: "env \<Rightarrow> world \<Rightarrow> int \<Rightarrow> session \<Rightarrow> auth_error + session" where
  "answer E w expires x = (case e_fault E (w_tick w) of
     Some err \<Rightarrow> Inl (no_rows_as Invalid_Credentials err)
   | None \<Rightarrow> if e_now E (w_tick w) < expires then Inr x else Inl Invalid_Credentials)"

lemma SessionByToken_answer:
  assumes "db_ok (w_db w)" and "s \<in> set (sessions (w_db w))" and "se_hash s = e_sha256 E token"
    and "u \<in> set (users (w_db w))" and "us_id u = se_user s" and "us_disabled u = None"
  shows "fst (run_state (SessionByToken E token) w) = answer E w (se_expires s) (session_of s u)"
proof -
  let ?t = "e_now E (w_tick w)"
  have "find (\<lambda>s. se_hash s = e_sha256 E token \<and> ?t < se_expires s) (sessions (w_db w)) = (if ?t < se_expires s then Some s else None)"
  proof (cases "?t < se_expires s")
    case True
    with assms show ?thesis by (simp add: find_by_key [OF db_ok_user_keys(3)])
  next
    case False
    have "\<not> (se_hash s' = e_sha256 E token \<and> ?t < se_expires s')" if "s' \<in> set (sessions (w_db w))" for s'
      using distinct_mapD [OF db_ok_user_keys(3) [OF assms(1)] that assms(2)] assms(3) False by auto
    with False show ?thesis by (simp add: find_None_iff_ball)
  qed
  moreover have "enabled_user (w_db w) (se_user s) = Some u" using assms by (simp add: enabled_user_iff)
  ultimately show ?thesis
    by (intro wp_fst [where P = "\<lambda>r. r = answer E w (se_expires s) (session_of s u)"])
      (auto simp: SessionByToken_def step_simps select_session_def read_row_def answer_def session_of_def no_rows_as_def
        split: option.split sum.split)
qed

lemma SessionByProgramToken_answer:
  assumes "db_ok (w_db w)" and "k \<in> set (program_tokens (w_db w))" and "tk_hash k = e_sha256 E token" and "tk_revoked k = None"
    and "u \<in> set (users (w_db w))" and "us_id u = tk_user k" and "us_disabled u = None" and "HasPrefix token token_prefix"
  shows "fst (run_state (SessionByProgramToken E token) w) = answer E w (tk_expires k) (token_session_of k u)"
proof -
  let ?t = "e_now E (w_tick w)"
  have "find (\<lambda>k. tk_hash k = e_sha256 E token \<and> tk_revoked k = None \<and> ?t < tk_expires k) (program_tokens (w_db w))
      = (if ?t < tk_expires k then Some k else None)"
  proof (cases "?t < tk_expires k")
    case True
    with assms show ?thesis by (simp add: find_by_key [OF db_ok_user_keys(4)])
  next
    case False
    have "\<not> (tk_hash k' = e_sha256 E token \<and> tk_revoked k' = None \<and> ?t < tk_expires k')" if "k' \<in> set (program_tokens (w_db w))" for k'
      using distinct_mapD [OF db_ok_user_keys(4) [OF assms(1)] that assms(2)] assms(3) False by auto
    with False show ?thesis by (simp add: find_None_iff_ball)
  qed
  moreover have "enabled_user (w_db w) (tk_user k) = Some u" using assms by (simp add: enabled_user_iff)
  ultimately show ?thesis
    using assms(8)
    by (intro wp_fst [where P = "\<lambda>r. r = answer E w (tk_expires k) (token_session_of k u)"])
      (auto simp: SessionByProgramToken_def step_simps select_token_session_def read_row_def answer_def token_session_of_def no_rows_as_def
        split: option.split sum.split)
qed

text \<open>What a successful \<open>CreateSession\<close> and \<open>CreateProgramToken\<close> leave in the tables.\<close>

definition stored_session :: "env \<Rightarrow> user \<Rightarrow> session \<Rightarrow> db \<Rightarrow> db \<Rightarrow> bool" where
  "stored_session E user x d d' \<longleftrightarrow> db_ok d' \<and> users d' = users d \<and> sn_user x = user \<and> sn_method x = ''session''
     \<and> (\<exists>s \<in> set (sessions d'). se_hash s = e_sha256 E (sn_token x) \<and> se_user s = uu_id user \<and> se_csrf s = sn_csrf x \<and> se_expires s = sn_expires x)"

lemma CreateSession_spec:
  "wp (CreateSession E user ttl) (\<lambda>r w'. w_trace w' = w_trace w \<and> (case r of
     Inl _ \<Rightarrow> w_db w' = w_db w
   | Inr x \<Rightarrow> stored_session E user x (w_db w) (w_db w') \<and> sn_expires x = e_now E (Suc (Suc (w_tick w))) + ttl)) w"
  by (auto simp: CreateSession_def authRandomToken_def step_simps Let_def insert_session_def store_db_ok stored_session_def
      split: option.split sum.split)

definition stored_token :: "env \<Rightarrow> user \<Rightarrow> program_token \<Rightarrow> string \<Rightarrow> db \<Rightarrow> db \<Rightarrow> bool" where
  "stored_token E user x plain d d' \<longleftrightarrow> db_ok d' \<and> users d' = users d \<and> HasPrefix plain token_prefix
     \<and> (\<exists>k \<in> set (program_tokens d'). tk_hash k = e_sha256 E plain \<and> tk_user k = uu_id user \<and> tk_scopes k = pg_scopes x
         \<and> tk_expires k = pg_expires x \<and> tk_revoked k = None)"

lemma CreateProgramToken_spec:
  "wp (CreateProgramToken E user name scopes expiresAt) (\<lambda>r w'. w_trace w' = w_trace w \<and> (case r of
     Inl _ \<Rightarrow> w_db w' = w_db w
   | Inr (x, plain) \<Rightarrow> stored_token E user x plain (w_db w) (w_db w') \<and> ValidateScopes scopes (uu_admin user) = Inr (pg_scopes x)
       \<and> pg_expires x = expiresAt \<and> e_now E (w_tick w) < expiresAt \<and> expiresAt \<le> e_now E (Suc (w_tick w)) + year)) w"
  by (auto simp: CreateProgramToken_def token_metadata_ok_def step_simps Let_def insert_token_def store_db_ok stored_token_def
      HasPrefix_def split: option.split sum.split)

text \<open>
  Logging in works. After \<open>CreateSession\<close> for an enabled user, the token it returned
  authenticates that user with the anti-forgery token it returned, until the session expires.
\<close>

theorem session_roundtrip:
  assumes "run_state (CreateSession E user ttl) w = (Inr x, w1)"
    and "u \<in> set (users (w_db w))" and "us_id u = uu_id user" and "us_disabled u = None"
  shows "\<exists>y. fst (run_state (SessionByToken E (sn_token x)) w1) = answer E w1 (sn_expires x) y
    \<and> sn_user y = scan_user u \<and> sn_csrf y = sn_csrf x \<and> sn_method y = ''session''"
proof -
  have st: "stored_session E user x (w_db w) (w_db w1)"
    using CreateSession_spec [of E user ttl w] assms(1) by (simp add: wp_def)
  then obtain s where s: "s \<in> set (sessions (w_db w1))" "se_hash s = e_sha256 E (sn_token x)" "se_user s = uu_id user"
      "se_csrf s = sn_csrf x" "se_expires s = sn_expires x" by (auto simp: stored_session_def)
  have "fst (run_state (SessionByToken E (sn_token x)) w1) = answer E w1 (se_expires s) (session_of s u)"
    using st s assms by (intro SessionByToken_answer) (auto simp: stored_session_def)
  then show ?thesis using s by (intro exI [of _ "session_of s u"]) (simp add: session_of_def)
qed

definition alice :: user where
  "alice = scan_user (sample_user 1 ''alice'' None)"

lemma alice_row: "sample_user 1 ''alice'' None \<in> set (users (w_db (sample_world sample_db)))"
  "us_id (sample_user 1 ''alice'' None) = uu_id alice" "us_disabled (sample_user 1 ''alice'' None) = None"
  by (simp_all add: sample_world_def sample_db_def alice_def scan_user_def sample_user_def)

lemma sample_login: "is_ok (fst (run_state (CreateSession sample_env alice 3600) (sample_world sample_db)))"
  by (rule wp_fst [where P = is_ok]) (simp add: CreateSession_def authRandomToken_def step_simps sample_env_def Let_def insert_session_def
      store_db_def db_ok_eval sample_world_def alice_def scan_user_def)

theorem session_roundtrip_witness:
  "\<exists>x w1 y. run_state (CreateSession sample_env alice 3600) (sample_world sample_db) = (Inr x, w1)
     \<and> fst (run_state (SessionByToken sample_env (sn_token x)) w1) = answer sample_env w1 (sn_expires x) y \<and> sn_user y = alice"
proof -
  obtain x w1 where r: "run_state (CreateSession sample_env alice 3600) (sample_world sample_db) = (Inr x, w1)"
    using is_ok_run [OF sample_login] by blast
  from session_roundtrip [OF r alice_row] r show ?thesis unfolding alice_def by blast
qed

text \<open>
  C39: A new program token works, with the rights that were asked for and no longer than a year. It
  authenticates its user, with exactly the scopes validated at its creation, until it expires.
\<close>

theorem program_token_roundtrip:
  assumes "run_state (CreateProgramToken E user name scopes expiresAt) w = (Inr (x, plain), w1)"
    and "u \<in> set (users (w_db w))" and "us_id u = uu_id user" and "us_disabled u = None"
  shows "expiresAt \<le> e_now E (Suc (w_tick w)) + year \<and> (\<exists>y. fst (run_state (SessionByProgramToken E plain) w1) = answer E w1 expiresAt y
    \<and> sn_user y = scan_user u \<and> ValidateScopes scopes (uu_admin user) = Inr (sn_scopes y) \<and> sn_method y = ''token'')"
proof -
  have st: "stored_token E user x plain (w_db w) (w_db w1)" and v: "ValidateScopes scopes (uu_admin user) = Inr (pg_scopes x)"
      and ex: "pg_expires x = expiresAt" "expiresAt \<le> e_now E (Suc (w_tick w)) + year"
    using CreateProgramToken_spec [of E user name scopes expiresAt w] assms(1) by (simp_all add: wp_def)
  then obtain k where k: "k \<in> set (program_tokens (w_db w1))" "tk_hash k = e_sha256 E plain" "tk_user k = uu_id user"
      "tk_scopes k = pg_scopes x" "tk_expires k = pg_expires x" "tk_revoked k = None" by (auto simp: stored_token_def)
  have "fst (run_state (SessionByProgramToken E plain) w1) = answer E w1 (tk_expires k) (token_session_of k u)"
    using st k assms by (intro SessionByProgramToken_answer) (auto simp: stored_token_def)
  then show ?thesis using k v ex by (intro conjI exI [of _ "token_session_of k u"]) (simp_all add: token_session_of_def)
qed

lemma sample_new_token: "is_ok (fst (run_state (CreateProgramToken sample_env alice ''ci'' [''proxy''] (60 * second)) (sample_world sample_db)))"
  by (rule wp_fst [where P = is_ok]) (simp add: CreateProgramToken_def token_metadata_ok_def step_simps sample_env_def Let_def insert_token_def
      store_db_def db_ok_eval sample_world_def alice_def scan_user_def ValidateScopes_def ScopeProxy_def ScopeAdmin_def str_eval
      second_def year_def)

theorem program_token_roundtrip_witness:
  "\<exists>x plain w1 y. run_state (CreateProgramToken sample_env alice ''ci'' [''proxy''] (60 * second)) (sample_world sample_db) = (Inr (x, plain), w1)
     \<and> fst (run_state (SessionByProgramToken sample_env plain) w1) = answer sample_env w1 (60 * second) y \<and> sn_user y = alice"
proof -
  obtain x plain w1 where r: "run_state (CreateProgramToken sample_env alice ''ci'' [''proxy''] (60 * second)) (sample_world sample_db) = (Inr (x, plain), w1)"
    using is_ok_run [OF sample_new_token] by (metis surj_pair)
  from program_token_roundtrip [OF r alice_row] r show ?thesis unfolding alice_def by blast
qed

end
