(* ===== verification/Auth_Http.thy ===== *)
theory Auth_Http
  imports Auth_Store
begin

text \<open>
  \<open>internal/auth/http.go\<close> and \<open>token_http.go\<close>: login, logout, the middleware in front of the API and
  the handlers of program tokens. A handler gets the session of the request's context, the reply so far
  and the request. The LDAP authenticator is an interface in the code and a parameter here; the JSON
  decoder of an input struct is the argument \<open>dec\<close>, and a path parameter of the router an argument.
\<close>

section \<open>The service\<close>

record auth_http =
  ah_ttl :: int
  ah_secure :: bool
  ah_ldap :: "(string \<Rightarrow> string \<Rightarrow> ldap_identity result prog) option"

type_synonym handler = "session option \<Rightarrow> reply \<Rightarrow> request \<Rightarrow> reply prog"

definition cookieName :: "auth_http \<Rightarrow> string" where
  "cookieName h = (if ah_secure h then ''__Host-tvpn_session'' else ''tvpn_session'')"

text \<open>\<open>int(d.Seconds())\<close> truncates towards zero.\<close>

definition whole_seconds :: "int \<Rightarrow> int" where
  "whole_seconds d = (if d < 0 then - ((- d) div second) else d div second)"

definition session_cookie :: "auth_http \<Rightarrow> int \<Rightarrow> string \<Rightarrow> int \<Rightarrow> cookie" where
  "session_cookie h t value expires = \<lparr>ck_name = cookieName h, ck_value = value, ck_path = ''/'', ck_domain = [],
     ck_expires = Some expires, ck_max_age = whole_seconds (expires - t), ck_secure = ah_secure h, ck_http_only = True,
     ck_same_site = SameSiteLax\<rparr>"

definition setCookie :: "env \<Rightarrow> auth_http \<Rightarrow> string \<Rightarrow> int \<Rightarrow> reply \<Rightarrow> reply prog" where
  "setCookie E h value expires w = do { t \<leftarrow> now E; State_Monad.return (SetCookie (session_cookie h t value expires) w) }"

definition json_user :: "env \<Rightarrow> user \<Rightarrow> json" where
  "json_user E u = JObj [(''id'', JStr (e_uuid_string E (uu_id u))), (''username'', JStr (uu_username u)),
     (''display_name'', JStr (uu_display u)), (''email'', JStr (uu_email u)), (''auth_source'', JStr (uu_source u)),
     (''is_admin'', JBool (uu_admin u))]"

definition json_session :: "env \<Rightarrow> session \<Rightarrow> json" where
  "json_session E s = JObj [(''user'', json_user E (sn_user s)), (''csrf_token'', JStr (sn_csrf s)), (''expires_at'', JTime (sn_expires s))]"

section \<open>Login and logout\<close>

definition authenticate :: "env \<Rightarrow> auth_http \<Rightarrow> string \<Rightarrow> string \<Rightarrow> (auth_error + user) prog" where
  "authenticate E h username password = do {
     found \<leftarrow> FindUserByUsername E username;
     (let directory = (case ah_ldap h of
         None \<Rightarrow> State_Monad.return (Inl Invalid_Credentials)
       | Some ldap \<Rightarrow> ok_or (wrap_err (\<lambda>_. Invalid_Credentials) (ldap username password)) (\<lambda>identity.
           wrap_err Failed (UpsertLDAPUser E identity)))
      in case found of
         Inr user \<Rightarrow> if uu_source user = ''local''
           then State_Monad.return (if VerifyPassword E password (uu_hash user) then Inr user else Inl Invalid_Credentials)
           else directory
       | Inl err \<Rightarrow> if err \<noteq> User_Not_Found then State_Monad.return (Inl Invalid_Credentials) else directory)}"

definition Login :: "env \<Rightarrow> auth_http \<Rightarrow> (string \<Rightarrow> (string \<times> string) option) \<Rightarrow> handler" where
  "Login E h dec s w r =
    (case DecodeJSON dec w r of
       Inl p \<Rightarrow> State_Monad.return p
     | Inr (username, password) \<Rightarrow> do {
         who \<leftarrow> authenticate E h username password;
         (case who of
            Inl _ \<Rightarrow> do {
              Audit E None ''auth.login'' ''failure'' (ToLower (TrimSpace username));
              State_Monad.return (Problem w r ErrInvalidCredentials)}
          | Inr user \<Rightarrow> do {
              created \<leftarrow> CreateSession E user (ah_ttl h);
              (case created of
                 Inl _ \<Rightarrow> State_Monad.return (Problem w r ErrInternal)
               | Inr x \<Rightarrow> do {
                   w1 \<leftarrow> setCookie E h (sn_token x) (sn_expires x) w;
                   Audit E (Some (uu_id user)) ''auth.login'' ''success'' (e_uuid_string E (uu_id user));
                   State_Monad.return (WriteJSON 200 (json_session E x) w1)})})})"

definition Session :: "env \<Rightarrow> handler" where
  "Session E s w r = State_Monad.return (case s of
     None \<Rightarrow> Problem w r ErrUnauthorized
   | Some x \<Rightarrow> WriteJSON 200 (json_session E x) w)"

definition Logout :: "env \<Rightarrow> auth_http \<Rightarrow> handler" where
  "Logout E h s w r = do {
     (case s of
        Some x \<Rightarrow> Audit E (Some (uu_id (sn_user x))) ''auth.logout'' ''success'' (e_uuid_string E (uu_id (sn_user x)))
      | None \<Rightarrow> skip);
     (case rCookie r (cookieName h) of
        Some value \<Rightarrow> ignore (DeleteSession E value)
      | None \<Rightarrow> skip);
     w1 \<leftarrow> setCookie E h [] second w;
     State_Monad.return (no_content w1)}"

section \<open>Middleware\<close>

definition bearerToken :: "string \<Rightarrow> string option" where
  "bearerToken value = (case Fields value of
     [kind, token] \<Rightarrow> if EqualFold kind ''Bearer'' \<and> token \<noteq> [] then Some token else None
   | _ \<Rightarrow> None)"

definition Authenticate :: "env \<Rightarrow> auth_http \<Rightarrow> handler \<Rightarrow> handler" where
  "Authenticate E h next_handler s w r =
    (case bearerToken (Get (rq_header r) ''Authorization'') of
       Some token \<Rightarrow> do {
         found \<leftarrow> SessionByProgramToken E token;
         (case found of
            Inl _ \<Rightarrow> State_Monad.return (Problem w r ErrInvalidToken)
          | Inr x \<Rightarrow> next_handler (Some x) w r)}
     | None \<Rightarrow> (case rCookie r (cookieName h) of
         None \<Rightarrow> State_Monad.return (Problem w r ErrUnauthorized)
       | Some value \<Rightarrow> do {
           found \<leftarrow> SessionByToken E value;
           (case found of
              Inl _ \<Rightarrow> State_Monad.return (Problem w r ErrUnauthorized)
            | Inr x \<Rightarrow> next_handler (Some x) w r)}))"

definition safe_method :: "request \<Rightarrow> bool" where
  "safe_method r \<longleftrightarrow> rq_method r = ''GET'' \<or> rq_method r = ''HEAD'' \<or> rq_method r = ''OPTIONS''"

definition RequireCSRF :: "handler \<Rightarrow> handler" where
  "RequireCSRF next_handler s w r =
    (if safe_method r then next_handler s w r
     else (case s of
         None \<Rightarrow> State_Monad.return (Problem w r ErrCSRFFailed)
       | Some x \<Rightarrow>
           if sn_method x = ''token'' then next_handler s w r
           else let token = Get (rq_header r) ''X-CSRF-Token'' in
             if length token \<noteq> length (sn_csrf x) \<or> token \<noteq> sn_csrf x then State_Monad.return (Problem w r ErrCSRFFailed)
             else next_handler s w r))"

definition RequireAdmin :: "handler \<Rightarrow> handler" where
  "RequireAdmin next_handler s w r = (case s of
     Some x \<Rightarrow> if uu_admin (sn_user x) then next_handler s w r else State_Monad.return (Problem w r ErrAdminRequired)
   | None \<Rightarrow> State_Monad.return (Problem w r ErrAdminRequired))"

definition RequireScope :: "string \<Rightarrow> handler \<Rightarrow> handler" where
  "RequireScope scope next_handler s w r = (case s of
     None \<Rightarrow> State_Monad.return (Problem w r ErrUnauthorized)
   | Some x \<Rightarrow> if sn_method x = ''token'' \<and> scope \<notin> set (sn_scopes x) then State_Monad.return (Problem w r ErrScopeRequired)
       else next_handler s w r)"

definition RequireBrowserSession :: "handler \<Rightarrow> handler" where
  "RequireBrowserSession next_handler s w r = (case s of
     Some x \<Rightarrow> if sn_method x = ''session'' then next_handler s w r else State_Monad.return (Problem w r ErrUnauthorized)
   | None \<Rightarrow> State_Monad.return (Problem w r ErrUnauthorized))"

section \<open>Program tokens\<close>

text \<open>\<open>session, _ := SessionFromContext\<close>: without a session the code goes on with the zero value.\<close>

definition zero_session :: session where
  "zero_session = \<lparr>sn_token = [], sn_csrf = [], sn_expires = 0, sn_user = \<lparr>uu_id = uuid_Nil, uu_username = [], uu_display = [],
     uu_email = [], uu_source = [], uu_admin = False, uu_hash = []\<rparr>, sn_method = [], sn_scopes = []\<rparr>"

definition session_or_zero :: "session option \<Rightarrow> session" where
  "session_or_zero s = (case s of None \<Rightarrow> zero_session | Some x \<Rightarrow> x)"

definition session_user :: "session option \<Rightarrow> uuid" where
  "session_user s = uu_id (sn_user (session_or_zero s))"

definition json_token :: "env \<Rightarrow> program_token \<Rightarrow> json" where
  "json_token E x = JObj [(''id'', JStr (e_uuid_string E (pg_id x))), (''name'', JStr (pg_name x)), (''prefix'', JStr (pg_prefix x)),
     (''scopes'', JList (map JStr (pg_scopes x))), (''expires_at'', JTime (pg_expires x)),
     (''last_used_at'', case pg_last_used x of None \<Rightarrow> JNull | Some t \<Rightarrow> JTime t), (''created_at'', JTime (pg_created x))]"

definition listTokens :: "env \<Rightarrow> handler" where
  "listTokens E s w r = do {
     found \<leftarrow> ProgramTokens E (uu_id (sn_user (session_or_zero s)));
     State_Monad.return (case found of
        Inl _ \<Rightarrow> Problem w r ErrInternal
      | Inr xs \<Rightarrow> WriteJSON 200 (JObj [(''items'', JList (map (json_token E) xs))]) w)}"

definition ninety_days :: int where
  "ninety_days = 90 * 24 * 3600 * second"

definition createToken :: "env \<Rightarrow> (string \<Rightarrow> (string \<times> string list \<times> int option) option) \<Rightarrow> handler" where
  "createToken E dec s w r =
    (case DecodeJSON dec w r of
       Inl p \<Rightarrow> State_Monad.return p
     | Inr (name, scopes, expires) \<Rightarrow> do {
         t \<leftarrow> now E;
         (let user = sn_user (session_or_zero s); expiresAt = (case expires of None \<Rightarrow> t + ninety_days | Some e \<Rightarrow> e) in
          if TrimSpace name = [] then State_Monad.return (Problem w r ErrInvalidRequest)
          else (case ValidateScopes scopes (uu_admin user) of
              Inl _ \<Rightarrow> State_Monad.return (Problem w r ErrInvalidScope)
            | Inr _ \<Rightarrow> do {
                created \<leftarrow> CreateProgramToken E user name scopes expiresAt;
                (case created of
                   Inl _ \<Rightarrow> State_Monad.return (Problem w r ErrInvalidRequest)
                 | Inr (x, plain) \<Rightarrow> do {
                     Audit E (Some (uu_id user)) ''auth.token.create'' ''success'' (e_uuid_string E (pg_id x));
                     State_Monad.return (WriteJSON 201 (JObj [(''token'', json_token E x), (''secret'', JStr plain)]) w)})}))})"

definition revokeToken :: "env \<Rightarrow> string \<Rightarrow> handler" where
  "revokeToken E param s w r =
    (case e_uuid_parse E param of
       None \<Rightarrow> State_Monad.return (Problem w r ErrInvalidID)
     | Some i \<Rightarrow> (let user = uu_id (sn_user (session_or_zero s)) in do {
         outcome \<leftarrow> RevokeProgramToken E user i;
         (case outcome of
            Inl err \<Rightarrow> State_Monad.return (Problem w r (if err = Token_Not_Found then ErrTokenNotFound else ErrInternal))
          | Inr _ \<Rightarrow> do {
              Audit E (Some user) ''auth.token.revoke'' ''success'' (e_uuid_string E i);
              State_Monad.return (no_content w)})}))"

section \<open>Gates\<close>

text \<open>
  The contract of a middleware that guards a handler: whether it lets a request through depends on the
  session and the request alone; then the handler runs on the same arguments, and otherwise the reply
  is an error and nothing has run. Gates compose to gates.
\<close>

locale gate =
  fixes guard_of :: "handler \<Rightarrow> handler" and pass :: "session option \<Rightarrow> request \<Rightarrow> bool"
    and refuse :: "session option \<Rightarrow> reply \<Rightarrow> request \<Rightarrow> reply"
  assumes opens: "pass s r \<Longrightarrow> guard_of h s w r = h s w r"
    and shuts: "\<not> pass s r \<Longrightarrow> guard_of h s w r = State_Monad.return (refuse s w r)"
    and refusal: "\<not> pass s r \<Longrightarrow> rp_status (refuse s w r) \<in> {401, 403}"
begin

lemma eq: "guard_of h s w r = (if pass s r then h s w r else State_Monad.return (refuse s w r))"
  by (simp add: opens shuts)

lemma wp_gate: "wp (guard_of h s w r) Q v = (if pass s r then wp (h s w r) Q v else Q (refuse s w r) v)"
  by (simp add: eq wp_return)

end

locale two_gates = outer: gate m1 pass1 refuse1 + inner: gate m2 pass2 refuse2
  for m1 pass1 refuse1 m2 pass2 refuse2
begin

lemma both: "gate (\<lambda>h. m1 (m2 h)) (\<lambda>s r. pass1 s r \<and> pass2 s r)
    (\<lambda>s w r. if pass1 s r then refuse2 s w r else refuse1 s w r)"
proof unfold_locales
  fix s r w assume "\<not> (pass1 s r \<and> pass2 s r)"
  then show "rp_status (if pass1 s r then refuse2 s w r else refuse1 s w r) \<in> {401, 403}"
    using outer.refusal [of s r w] inner.refusal [of s r w] by (cases "pass1 s r") simp_all
qed (auto simp: outer.eq inner.eq)

end

definition csrf_ok :: "session option \<Rightarrow> request \<Rightarrow> bool" where
  "csrf_ok s r \<longleftrightarrow> safe_method r \<or> (case s of None \<Rightarrow> False
     | Some x \<Rightarrow> sn_method x = ''token'' \<or> Get (rq_header r) ''X-CSRF-Token'' = sn_csrf x)"

definition is_admin :: "session option \<Rightarrow> request \<Rightarrow> bool" where
  "is_admin s r = (case s of None \<Rightarrow> False | Some x \<Rightarrow> uu_admin (sn_user x))"

definition has_scope :: "string \<Rightarrow> session option \<Rightarrow> request \<Rightarrow> bool" where
  "has_scope scope s r = (case s of None \<Rightarrow> False | Some x \<Rightarrow> sn_method x = ''token'' \<longrightarrow> scope \<in> set (sn_scopes x))"

definition from_browser :: "session option \<Rightarrow> request \<Rightarrow> bool" where
  "from_browser s r = (case s of None \<Rightarrow> False | Some x \<Rightarrow> sn_method x = ''session'')"

interpretation csrf: gate RequireCSRF csrf_ok "\<lambda>_ w r. Problem w r ErrCSRFFailed"
  by unfold_locales (auto simp: RequireCSRF_def csrf_ok_def Problem_statuses Let_def split: option.splits)

interpretation admin: gate RequireAdmin is_admin "\<lambda>_ w r. Problem w r ErrAdminRequired"
  by unfold_locales (auto simp: RequireAdmin_def is_admin_def Problem_statuses split: option.splits)

interpretation scope: gate "RequireScope scope" "has_scope scope"
    "\<lambda>s w r. Problem w r (if s = None then ErrUnauthorized else ErrScopeRequired)" for scope
  by unfold_locales (auto simp: RequireScope_def has_scope_def Problem_statuses split: option.splits)

interpretation browser: gate RequireBrowserSession from_browser "\<lambda>_ w r. Problem w r ErrUnauthorized"
  by unfold_locales (auto simp: RequireBrowserSession_def from_browser_def Problem_statuses split: option.splits)

interpretation scope_csrf: two_gates "RequireScope sc" "has_scope sc" "\<lambda>s w r. Problem w r (if s = None then ErrUnauthorized else ErrScopeRequired)"
    RequireCSRF csrf_ok "\<lambda>_ w r. Problem w r ErrCSRFFailed" for sc ..

interpretation browser_csrf: two_gates RequireBrowserSession from_browser "\<lambda>_ w r. Problem w r ErrUnauthorized"
    RequireCSRF csrf_ok "\<lambda>_ w r. Problem w r ErrCSRFFailed" ..

section \<open>Who gets in\<close>

text \<open>The request carries credentials that name the session, at the time of the request.\<close>

definition credentials :: "env \<Rightarrow> auth_http \<Rightarrow> world \<Rightarrow> request \<Rightarrow> session \<Rightarrow> bool" where
  "credentials E h w r x = (case bearerToken (Get (rq_header r) ''Authorization'') of
     Some token \<Rightarrow> HasPrefix token token_prefix \<and> names_token (w_db w) (e_now E (w_tick w)) (e_sha256 E token) x
   | None \<Rightarrow> (case rCookie r (cookieName h) of
       None \<Rightarrow> False
     | Some value \<Rightarrow> names_session (w_db w) (e_now E (w_tick w)) (e_sha256 E value) x))"

text \<open>What follows an authentication: the handler with a session that is justified, or a refusal.\<close>

lemma wp_Authenticate:
  assumes "db_ok (w_db w)"
    and "\<And>x v. credentials E h w r x \<Longrightarrow> e_fault E (w_tick w) = None \<Longrightarrow> touched (w_db w) (w_db v) \<Longrightarrow> w_trace v = w_trace w \<Longrightarrow> wp (k (Some x) rp r) Q v"
    and "\<And>c v. (e_fault E (w_tick w) \<noteq> None \<or> (\<forall>x. \<not> credentials E h w r x)) \<Longrightarrow> c = ErrUnauthorized \<or> c = ErrInvalidToken \<Longrightarrow>
          touched (w_db w) (w_db v) \<Longrightarrow> w_trace v = w_trace w \<Longrightarrow> Q (Problem rp r c) v"
  shows "wp (Authenticate E h k s rp r) Q w"
proof (cases "bearerToken (Get (rq_header r) ''Authorization'')")
  case (Some token)
  show ?thesis
    unfolding Authenticate_def Some option.case
    by (rule wp_then [OF SessionByProgramToken_spec [OF assms(1)]])
      (auto simp: step_simps credentials_def Some split: sum.splits intro!: assms(2,3))
next
  case None
  show ?thesis
  proof (cases "rCookie r (cookieName h)")
    case none: None
    show ?thesis unfolding Authenticate_def None none option.case wp_return
      by (rule assms(3)) (auto simp: touched_refl credentials_def None none)
  next
    case (Some cookie)
    show ?thesis
      unfolding Authenticate_def None Some option.case
      by (rule wp_then [OF SessionByToken_spec [OF assms(1)]])
        (auto simp: step_simps credentials_def None Some split: sum.splits intro!: assms(2,3))
  qed
qed

section \<open>Logging in\<close>

definition login_row :: "db \<Rightarrow> string \<Rightarrow> user_row option" where
  "login_row d username = find (\<lambda>u. us_normalized u = normalizeUsername username \<and> us_disabled u = None) (users d)"

definition by_password :: "env \<Rightarrow> db \<Rightarrow> string \<Rightarrow> string \<Rightarrow> user \<Rightarrow> bool" where
  "by_password E d username password x = (case login_row d username of
     None \<Rightarrow> False
   | Some u \<Rightarrow> us_source u = ''local'' \<and> uu_id x = us_id u
       \<and> (case us_password u of None \<Rightarrow> False | Some hash \<Rightarrow> VerifyPassword E password hash))"

text \<open>The directory was asked in this run, right after the lookup of the name, and the account is the one it led to.\<close>

definition by_directory :: "env \<Rightarrow> auth_http \<Rightarrow> world \<Rightarrow> string \<Rightarrow> string \<Rightarrow> user \<Rightarrow> bool" where
  "by_directory E h w username password x \<longleftrightarrow>
     (case login_row (w_db w) username of None \<Rightarrow> True | Some u \<Rightarrow> us_source u \<noteq> ''local'')
   \<and> (\<exists>ldap identity w2 w3. ah_ldap h = Some ldap
       \<and> run_state (ldap username password) (snd (run_state (FindUserByUsername E username) w)) = (Inr identity, w2)
       \<and> run_state (UpsertLDAPUser E identity) w2 = (Inr x, w3))"

lemma VerifyPassword_empty: "\<not> VerifyPassword E pw []"
  by (simp add: VerifyPassword_def Let_def)

lemma FindUser_result: "fst (run_state (FindUserByUsername E username) w) = (case e_fault E (w_tick w) of
    Some err \<Rightarrow> Inl (no_rows_as User_Not_Found err)
  | None \<Rightarrow> (case login_row (w_db w) username of
      None \<Rightarrow> Inl User_Not_Found
    | Some u \<Rightarrow> Inr ((scan_user u)\<lparr>uu_hash := (case us_password u of None \<Rightarrow> [] | Some x \<Rightarrow> x)\<rparr>)))"
  by (rule wp_fst [where P = "\<lambda>r. r = _"])
    (simp add: FindUserByUsername_def step_simps select_user_def read_row_def login_row_def no_rows_as_def split: option.split)

lemma no_rows_as_eq: "no_rows_as e err = e' \<longleftrightarrow> (if err = No_Rows then e = e' else e' = Failed err)"
  by (auto simp: no_rows_as_def)

definition ask_directory :: "env \<Rightarrow> auth_http \<Rightarrow> string \<Rightarrow> string \<Rightarrow> (auth_error + user) prog" where
  "ask_directory E h username password = (case ah_ldap h of
     None \<Rightarrow> State_Monad.return (Inl Invalid_Credentials)
   | Some ldap \<Rightarrow> ok_or (wrap_err (\<lambda>_. Invalid_Credentials) (ldap username password)) (\<lambda>identity.
       wrap_err Failed (UpsertLDAPUser E identity)))"

lemma ask_directory_result:
  assumes "fst (run_state (ask_directory E h username password) w) = Inr x"
  shows "\<exists>ldap identity w2 w3. ah_ldap h = Some ldap \<and> run_state (ldap username password) w = (Inr identity, w2)
       \<and> run_state (UpsertLDAPUser E identity) w2 = (Inr x, w3)"
proof (cases "ah_ldap h")
  case None with assms show ?thesis by (simp add: ask_directory_def State_Monad.return_def)
next
  case ldap: (Some ldap)
  obtain r w2 where r: "run_state (ldap username password) w = (r, w2)" by (cases "run_state (ldap username password) w")
  show ?thesis
  proof (cases r)
    case Inl
    with assms r ldap show ?thesis by (simp add: ask_directory_def ok_or_def wrap_err_def State_Monad.bind_def State_Monad.return_def)
  next
    case (Inr identity)
    obtain q w3 where q: "run_state (UpsertLDAPUser E identity) w2 = (q, w3)" by (cases "run_state (UpsertLDAPUser E identity) w2")
    have "q = Inr x"
      using assms r ldap Inr q
      by (cases q) (simp_all add: ask_directory_def ok_or_def wrap_err_def State_Monad.bind_def State_Monad.return_def)
    with r ldap Inr q show ?thesis by blast
  qed
qed

lemma authenticate_run: "fst (run_state (authenticate E h username password) w) =
    (case run_state (FindUserByUsername E username) w of (found, v) \<Rightarrow>
       (case found of
          Inr user \<Rightarrow> if uu_source user = ''local'' then (if VerifyPassword E password (uu_hash user) then Inr user else Inl Invalid_Credentials)
            else fst (run_state (ask_directory E h username password) v)
        | Inl err \<Rightarrow> if err \<noteq> User_Not_Found then Inl Invalid_Credentials else fst (run_state (ask_directory E h username password) v)))"
  unfolding authenticate_def Let_def ask_directory_def [symmetric]
  by (simp add: State_Monad.bind_def State_Monad.return_def split: prod.split sum.split)

text \<open>The driver reports \<open>ErrNoRows\<close> only for a query without a row.\<close>

definition driver_errors :: "env \<Rightarrow> bool" where
  "driver_errors E \<longleftrightarrow> (\<forall>t. e_fault E t \<noteq> Some No_Rows)"

lemma authenticate_justified:
  assumes "driver_errors E"
  shows "case fst (run_state (authenticate E h username password) w) of
     Inl _ \<Rightarrow> True
   | Inr x \<Rightarrow> by_password E (w_db w) username password x \<or> by_directory E h w username password x"
proof (cases "fst (run_state (authenticate E h username password) w)")
  case (Inr x)
  obtain found v where v: "run_state (FindUserByUsername E username) w = (found, v)"
    by (cases "run_state (FindUserByUsername E username) w")
  note found = FindUser_result [of E username w, unfolded v fst_conv]
  note run = Inr [unfolded authenticate_run v prod.case]
  have "by_password E (w_db w) username password x \<or> by_directory E h w username password x"
  proof (cases "login_row (w_db w) username")
    case None
    then have "fst (run_state (ask_directory E h username password) v) = Inr x"
      using run found by (auto simp: no_rows_as_eq split: sum.splits option.splits if_splits)
    from ask_directory_result [OF this] show ?thesis by (simp add: by_directory_def None v)
  next
    case (Some u)
    then have ok: "e_fault E (w_tick w) = None"
      using run found assms by (auto simp: no_rows_as_eq driver_errors_def split: sum.splits option.splits if_splits)
    show ?thesis
    proof (cases "us_source u = ''local''")
      case True
      then have "by_password E (w_db w) username password x"
        using run found ok Some by (auto simp: by_password_def scan_user_def VerifyPassword_empty split: if_splits option.splits)
      then show ?thesis ..
    next
      case False
      then have "fst (run_state (ask_directory E h username password) v) = Inr x"
        using run found ok Some by (simp add: scan_user_def)
      from ask_directory_result [OF this] False show ?thesis by (simp add: by_directory_def Some v)
    qed
  qed
  with Inr show ?thesis by simp
qed simp

text \<open>What a login leaves: one more session, and one cookie with its token.\<close>

definition directory_reads :: "auth_http \<Rightarrow> bool" where
  "directory_reads h \<longleftrightarrow> (\<forall>ldap username password J. ah_ldap h = Some ldap \<longrightarrow> keeps (on_db J) (ldap username password))"

definition same_sessions :: "session_row list \<Rightarrow> world \<Rightarrow> bool" where
  "same_sessions ss = on_db (\<lambda>d. sessions d = ss)"

lemma user_statements_sessions [keeps_intro]:
  "statement_keeps (\<lambda>d. sessions d = ss) (select_user nm)" "statement_keeps (\<lambda>d. sessions d = ss) (upsert_ldap_user i x)"
  "statement_keeps (\<lambda>d. sessions d = ss) (clear_groups u)" "statement_keeps (\<lambda>d. sessions d = ss) (upsert_group i g n)"
  "statement_keeps (\<lambda>d. sessions d = ss) (insert_membership u i)" "statement_keeps (\<lambda>d. sessions d = ss) (touch_login u)"
  "statement_keeps (\<lambda>d. sessions d = ss) (insert_audit a k oc ta de)"
  by (auto simp: statement_keeps_def select_user_def read_row_def upsert_ldap_user_def clear_groups_def upsert_group_def insert_membership_def
      touch_login_def insert_audit_def Let_def store_db_ok split: option.splits if_splits)

lemma authenticate_sessions:
  assumes "directory_reads h"
  shows "keeps (same_sessions ss) (authenticate E h username password)"
proof -
  have "keeps (on_db (\<lambda>d. sessions d = ss)) (save_groups E t u gs)" for t u gs
    by (induction gs) (auto intro!: keeps_intro)
  moreover have "keeps (on_db (\<lambda>d. sessions d = ss)) (ldap username password)" if "ah_ldap h = Some ldap" for ldap
    using assms that by (simp add: directory_reads_def)
  ultimately show ?thesis
    unfolding same_sessions_def authenticate_def FindUserByUsername_def UpsertLDAPUser_def
    by (cases "ah_ldap h") (auto simp: Let_def intro!: keeps_intro)
qed

lemma Audit_keeps_sessions: "wp (Audit E who kind outcome target) (\<lambda>_ w'. sessions (w_db w') = sessions (w_db w)) w"
  by (auto simp: Audit_def step_simps insert_audit_def store_db_ok split: option.split sum.split)

lemma CreateSession_adds: "wp (CreateSession E user ttl) (\<lambda>r w'. case r of
     Inl _ \<Rightarrow> w_db w' = w_db w
   | Inr x \<Rightarrow> \<exists>row. sessions (w_db w') = sessions (w_db w) @ [row] \<and> se_hash row = e_sha256 E (sn_token x) \<and> se_user row = uu_id user
       \<and> se_expires row = sn_expires x) w"
  by (auto simp: CreateSession_def authRandomToken_def step_simps Let_def insert_session_def store_db_ok split: option.split sum.split)

definition logged_in :: "env \<Rightarrow> auth_http \<Rightarrow> reply \<Rightarrow> reply \<Rightarrow> user \<Rightarrow> db \<Rightarrow> db \<Rightarrow> bool" where
  "logged_in E h rp rep user d d' \<longleftrightarrow> (\<exists>ck row. rp_cookies rep = rp_cookies rp @ [ck]
     \<and> ck_name ck = cookieName h \<and> ck_path ck = ''/'' \<and> ck_domain ck = [] \<and> ck_secure ck = ah_secure h \<and> ck_http_only ck \<and> ck_same_site ck = SameSiteLax
     \<and> sessions d' = sessions d @ [row] \<and> se_hash row = e_sha256 E (ck_value ck) \<and> se_user row = uu_id user \<and> Some (se_expires row) = ck_expires ck)"

definition login_outcome :: "env \<Rightarrow> auth_http \<Rightarrow> (string \<times> string) option \<Rightarrow> reply \<Rightarrow> reply \<Rightarrow> world \<Rightarrow> world \<Rightarrow> bool" where
  "login_outcome E h input rp rep w w' \<longleftrightarrow>
    (if rp_status rep = 200 then (case input of None \<Rightarrow> False
       | Some (username, password) \<Rightarrow> \<exists>x. (by_password E (w_db w) username password x \<or> by_directory E h w username password x)
           \<and> logged_in E h rp rep x (w_db w) (w_db w'))
     else 400 \<le> rp_status rep \<and> rp_status rep < 600 \<and> rp_cookies rep = rp_cookies rp \<and> sessions (w_db w') = sessions (w_db w))"

lemma login_refused: "sessions (w_db w') = sessions (w_db w) \<Longrightarrow> login_outcome E h input rp (Problem rp r c) w w'"
proof -
  have "rp_cookies (Problem rp r c) = rp_cookies rp" by (subst Problem_eq) (simp add: Let_def)
  then show "sessions (w_db w') = sessions (w_db w) \<Longrightarrow> ?thesis" using Problem_error [of rp r c] by (auto simp: login_outcome_def)
qed

lemma login_issues:
  assumes "by_password E (w_db w) username password user \<or> by_directory E h w username password user"
    and "sessions (w_db v) = sessions (w_db w)"
  shows "wp (CreateSession E user (ah_ttl h)) (\<lambda>created. wp (case created of
            Inl _ \<Rightarrow> State_Monad.return (Problem rp r ErrInternal)
          | Inr x \<Rightarrow> do {
              w1 \<leftarrow> setCookie E h (sn_token x) (sn_expires x) rp;
              Audit E (Some (uu_id user)) ''auth.login'' ''success'' (e_uuid_string E (uu_id user));
              State_Monad.return (WriteJSON 200 (json_session E x) w1)})
      (\<lambda>rep w'. login_outcome E h (Some (username, password)) rp rep w w')) v"
proof (rule wp_mono [OF CreateSession_adds], goal_cases)
  case (1 created v1)
  show ?case
  proof (cases created)
    case Inl
    then show ?thesis using 1 assms(2) by (simp add: wp_return login_refused)
  next
    case (Inr x)
    then obtain row where row: "sessions (w_db v1) = sessions (w_db w) @ [row]" "se_hash row = e_sha256 E (sn_token x)" "se_user row = uu_id user"
      "se_expires row = sn_expires x" using 1 assms(2) by auto
    show ?thesis
      unfolding Inr sum.case setCookie_def wp_bind wp_now wp_return
    proof (rule wp_mono [OF Audit_keeps_sessions], goal_cases)
      case (1 a v2)
      then show ?case using row assms(1)
        unfolding login_outcome_def by (auto simp: logged_in_def WriteJSON_def SetCookie_def session_cookie_def)
    qed
  qed
qed

text \<open>
  C10: What a login proves. A login is answered with 200 only if the body decodes to a name and a
  password and the password is that of the enabled local account of that name, or there is no enabled
  local account of that name and the directory, asked in this very run, accepted name and password and
  returned the identity whose account the user gets; a local account is never decided by the directory.
  Then one session is stored, of that user, and nothing else is added to the sessions: its digest is that
  of the token in the one cookie that is set, which is sent to this host alone (no domain, with the host
  prefix and over HTTPS only in production), is kept from scripts and from cross-site requests, and
  expires with the session. Every other login is answered with an error, sets no cookie and leaves the
  stored sessions as they were. (The authenticator of the directory is an interface; it is assumed to
  leave the database alone, as that of the program does.)
\<close>

theorem login_justified:
  assumes "driver_errors E" and "directory_reads h"
  shows "wp (Login E h dec s rp r) (\<lambda>rep w'. login_outcome E h (dec (take (2 ^ 20) (rq_body r))) rp rep w w') w"
proof (cases "dec (take (2 ^ 20) (rq_body r))")
  case None
  then show ?thesis by (simp add: Login_def DecodeJSON_def step_simps login_refused)
next
  case (Some input)
  obtain username password where i: "input = (username, password)" by (cases input)
  obtain who v where v: "run_state (authenticate E h username password) w = (who, v)"
    by (cases "run_state (authenticate E h username password) w")
  have "wp (authenticate E h username password) (\<lambda>_. same_sessions (sessions (w_db w))) w"
    using authenticate_sessions [OF assms(2), of "sessions (w_db w)" E username password]
    unfolding keeps_def by (simp add: same_sessions_def on_db_def)
  then have same: "sessions (w_db v) = sessions (w_db w)" by (simp add: wp_def v same_sessions_def on_db_def)
  show ?thesis
  proof (cases who)
    case (Inl e)
    then show ?thesis using same
      unfolding Login_def DecodeJSON_def Some option.case sum.case i prod.case wp_bind
      by (subst wp_def) (auto simp: v wp_bind wp_return login_refused intro!: wp_mono [OF Audit_keeps_sessions])
  next
    case (Inr user)
    then have "by_password E (w_db w) username password user \<or> by_directory E h w username password user"
      using authenticate_justified [OF assms(1), where h = h and username = username and password = password and w = w] v by simp
    from login_issues [OF this same] show ?thesis
      unfolding Login_def DecodeJSON_def Some option.case sum.case i prod.case wp_bind
      by (subst wp_def) (simp add: v Inr wp_bind)
  qed
qed

definition login_db :: db where
  "login_db = sample_db\<lparr>users := [(sample_user 1 ''alice'' None)\<lparr>us_password := Some (phc_string (replicate 16 CHR ''s'') (replicate 32 CHR ''p''))\<rparr>]\<rparr>"

definition login_env :: env where
  "login_env = sample_env\<lparr>e_argon2 := \<lambda>pw salt t m p n. replicate n (hd (pw @ salt))\<rparr>"

definition login_request :: request where
  "login_request = \<lparr>rq_method = ''POST'', rq_url = empty_url, rq_host = [], rq_header = (\<lambda>_. None), rq_body = []\<rparr>"

definition sample_auth :: auth_http where
  "sample_auth = \<lparr>ah_ttl = 3600 * second, ah_secure = True, ah_ldap = None\<rparr>"

lemma sample_fault': "e_fault login_env t = None"
  by (simp add: login_env_def sample_env_def)

lemma sample_password: "VerifyPassword login_env ''password'' (phc_string (replicate 16 CHR ''s'') (replicate 32 CHR ''p''))"
  by (subst VerifyPassword_phc) (simp_all add: login_env_def)

lemma Login_succeeds:
  assumes "dec (take (2 ^ 20) (rq_body r)) = Some (username, password)"
    and "run_state (authenticate E h username password) w = (Inr user, v)"
    and "run_state (CreateSession E user (ah_ttl h)) v = (Inr x, v1)"
  shows "wp (Login E h dec s rp r) (\<lambda>rep _. rp_status rep = 200) w"
proof -
  have "wp (setCookie E h t e rp) (\<lambda>w1. wp (do { Audit E who k oc ta; State_Monad.return (WriteJSON 200 j w1)})
      (\<lambda>rep _. rp_status rep = 200)) v1" for t e who k oc ta j
    unfolding setCookie_def wp_bind wp_now wp_return
    by (rule wp_mono [OF Audit_keeps_sessions]) (simp add: WriteJSON_def SetCookie_def)
  then show ?thesis
    unfolding Login_def DecodeJSON_def assms(1) option.case sum.case prod.case
    by (subst wp_bind, subst wp_def, simp add: assms(2), subst wp_bind, subst wp_def, simp add: assms(3) wp_bind)
qed

definition login_world :: world where
  "login_world = (sample_world login_db)\<lparr>w_tick := 1\<rparr>"

lemma sample_authenticate: "\<exists>user. run_state (authenticate login_env sample_auth ''alice'' ''password'') (sample_world login_db) = (Inr user, login_world)
    \<and> uu_id user = 1"
  by (simp add: authenticate_def FindUserByUsername_def wrap_err_def sql_def sql_at_def State_Monad.bind_def State_Monad.return_def
      select_user_def read_row_def login_db_def sample_world_def normalizeUsername_def str_eval sample_fault' sample_user_def
      scan_user_def sample_password login_world_def)

lemma sample_create: "uu_id user = 1 \<Longrightarrow> is_ok (fst (run_state (CreateSession login_env user ttl) login_world))"
  by (rule wp_fst [where P = is_ok]) (simp add: CreateSession_def authRandomToken_def step_simps login_env_def sample_env_def Let_def insert_session_def
      store_db_def db_ok_eval login_world_def login_db_def sample_world_def)

lemma login_setup: "driver_errors login_env" "directory_reads sample_auth"
  by (simp_all add: driver_errors_def sample_fault' directory_reads_def sample_auth_def)

theorem login_justified_witness:
  "\<exists>rep w1. run_state (Login login_env sample_auth (\<lambda>_. Some (''alice'', ''password'')) None new_reply login_request) (sample_world login_db)
     = (rep, w1) \<and> rp_status rep = 200
     \<and> login_outcome login_env sample_auth (Some (''alice'', ''password'')) new_reply rep (sample_world login_db) w1"
proof -
  obtain user where u: "run_state (authenticate login_env sample_auth ''alice'' ''password'') (sample_world login_db) = (Inr user, login_world)"
      "uu_id user = 1" using sample_authenticate by blast
  obtain x v1 where x: "run_state (CreateSession login_env user (ah_ttl sample_auth)) login_world = (Inr x, v1)"
    using is_ok_run [OF sample_create [OF u(2)]] by blast
  show ?thesis
    using Login_succeeds [where dec = "\<lambda>_. Some (''alice'', ''password'')" and r = login_request and s = None and rp = new_reply, OF refl u(1) x]
      login_justified [OF login_setup, of "\<lambda>_. Some (''alice'', ''password'')" None new_reply login_request "sample_world login_db"]
    by (auto simp: wp_def split: prod.splits)
qed

end
