(* ===== verification/Crypto.thy ===== *)
theory Crypto
  imports Sample
begin

text \<open>
  \<open>internal/proxy/crypto.go\<close>: values sealed with AES-256-GCM. The cipher is its key; sealing and
  opening are \<open>crypto/cipher\<close>'s and belong to the environment; the nonce of twelve random bytes is
  stored in front of the ciphertext.
\<close>

type_synonym cipher = string

definition NonceSize :: nat where
  "NonceSize = 12"

definition NewCipher :: "string \<Rightarrow> cipher result" where
  "NewCipher key = (if length key \<noteq> 32 then Inl ''proxy master key must contain exactly 32 bytes'' else Inr key)"

definition Encrypt :: "env \<Rightarrow> cipher \<Rightarrow> string \<Rightarrow> string \<Rightarrow> string result prog" where
  "Encrypt E c value aad = ok_or (random_bytes E NonceSize) (\<lambda>nonce.
     State_Monad.return (Inr (nonce @ e_seal E c nonce value aad)))"

definition Decrypt :: "env \<Rightarrow> cipher \<Rightarrow> string \<Rightarrow> string \<Rightarrow> string result" where
  "Decrypt E c value aad =
    (if length value < NonceSize then Inl ''invalid encrypted value''
     else (case e_open E c (take NonceSize value) (drop NonceSize value) aad of
         None \<Rightarrow> Inl ''cipher: message authentication failed''
       | Some plain \<Rightarrow> Inr plain))"

text \<open>
  What is sealed under some data opens under the same data to the same value, and under no other
  data. Sealing touches neither the database nor the trace.
\<close>

definition sealed_as :: "env \<Rightarrow> cipher \<Rightarrow> string \<Rightarrow> string \<Rightarrow> string \<Rightarrow> bool" where
  "sealed_as E c value aad s \<longleftrightarrow> Decrypt E c s aad = Inr value \<and> s \<noteq> []"

lemma random_lengthsD: "random_lengths E \<Longrightarrow> e_random E t n = Inr r \<Longrightarrow> length r = n"
  by (simp add: random_lengths_def)

lemma Encrypt_spec:
  assumes "aead_correct E" and "random_lengths E"
  shows "wp (Encrypt E c value aad) (\<lambda>r w'. reads_only w w' \<and> (case r of Inl _ \<Rightarrow> True | Inr s \<Rightarrow> sealed_as E c value aad s)) w"
  using assms(1) random_lengthsD [OF assms(2), of "w_tick w" 12]
  by (auto simp: Encrypt_def step_simps reads_only_def aead_correct_def Decrypt_def sealed_as_def NonceSize_def split: sum.splits)

lemma keeps_Encrypt [keeps_intro]: "keeps (on_db J) (Encrypt E c value aad)"
  unfolding Encrypt_def by (intro keeps_intro)

lemma Decrypt_other_data:
  assumes "aead_binds E" and "random_lengths E" and "aad' \<noteq> aad"
  shows "wp (Encrypt E c value aad) (\<lambda>r _. case r of Inl _ \<Rightarrow> True | Inr s \<Rightarrow> \<exists>e. Decrypt E c s aad' = Inl e) w"
proof -
  have "e_open E c n (e_seal E c n value aad) aad' = None" for n
    using assms(1,3) unfolding aead_binds_def by (metis not_None_eq)
  then show ?thesis
    using random_lengthsD [OF assms(2), of "w_tick w" 12]
    by (auto simp: Encrypt_def step_simps Decrypt_def NonceSize_def split: sum.splits)
qed

end
