(* ===== verification/Upstream.thy ===== *)
theory Upstream
  imports Crypto Proxy_Store
begin

text \<open>
  \<open>internal/proxy/upstream.go\<close>: the upstream proxies, who may use them and who may go out directly.
\<close>

section \<open>Values\<close>

definition UpstreamHTTP :: string where [simp]: "UpstreamHTTP = ''http''"

definition UpstreamSOCKS5 :: string where [simp]: "UpstreamSOCKS5 = ''socks5''"

record upstream =
  ux_id :: uuid
  ux_name :: string
  ux_type :: string
  ux_host :: string
  ux_port :: int
  ux_username :: string
  ux_password_configured :: bool
  ux_enabled :: bool
  ux_created :: int
  ux_updated :: int
  ux_sealed :: string

record upstream_input =
  ui_name :: string
  ui_type :: string
  ui_host :: string
  ui_port :: int
  ui_username :: string
  ui_password :: string
  ui_clear :: bool
  ui_enabled :: bool

record direct_access =
  da_restricted :: bool
  da_users :: "uuid list"
  da_groups :: "uuid list"

definition json_upstream :: "env \<Rightarrow> upstream \<Rightarrow> json" where
  "json_upstream E u = JObj [(''id'', JStr (e_uuid_string E (ux_id u))), (''name'', JStr (ux_name u)), (''type'', JStr (ux_type u)),
     (''host'', JStr (ux_host u)), (''port'', JNum (ux_port u)), (''username'', JStr (ux_username u)),
     (''password_configured'', JBool (ux_password_configured u)), (''enabled'', JBool (ux_enabled u)),
     (''created_at'', JTime (ux_created u)), (''updated_at'', JTime (ux_updated u))]"

section \<open>Checking an input\<close>

text \<open>\<open>net.ParseIP\<close> accepts what \<open>netip.ParseAddr\<close> accepts, without a zone.\<close>

definition is_ip :: "string \<Rightarrow> bool" where
  "is_ip s = (case ParseAddr s of None \<Rightarrow> False | Some a \<Rightarrow> \<not> has_zone a)"

definition trim_brackets :: "string \<Rightarrow> string" where
  "trim_brackets h = (if HasPrefix h ''['' \<and> HasSuffix h '']'' then TrimSuffix (TrimPrefix h ''['') '']'' else h)"

definition normalizeUpstreamInput :: "upstream_input \<Rightarrow> upstream_input result" where
  "normalizeUpstreamInput input =
    (let i = input\<lparr>ui_name := TrimSpace (ui_name input),
                   ui_host := trim_brackets (TrimSpace (TrimSuffix (ui_host input) ''.'')),
                   ui_username := TrimSpace (ui_username input)\<rparr>
     in if ui_name i = [] then Inl ''name is required''
        else if ui_type i \<noteq> UpstreamHTTP \<and> ui_type i \<noteq> UpstreamSOCKS5 then Inl ''proxy type must be http or socks5''
        else if ui_host i = [] \<or> ContainsAny (ui_host i) (''/?#@ '' @ [CHR 0x5C]) then Inl ''proxy host is invalid''
        else if Contains (ui_host i) '':'' \<and> \<not> is_ip (ui_host i) then Inl ''proxy host must not include a port''
        else if ui_port i < 1 \<or> 65535 < ui_port i then Inl ''proxy port is invalid''
        else if ui_password i \<noteq> [] \<and> ui_username i = [] then Inl ''username is required when password is configured''
        else Inr i)"

section \<open>Statements\<close>

definition scan_upstream :: "upstream_row \<Rightarrow> upstream" where
  "scan_upstream u = \<lparr>ux_id = up_id u, ux_name = up_name u, ux_type = up_type u, ux_host = up_host u, ux_port = up_port u,
     ux_username = up_username u, ux_password_configured = (up_password u \<noteq> None), ux_enabled = up_enabled u,
     ux_created = up_created u, ux_updated = up_updated u, ux_sealed = []\<rparr>"

definition may_use :: "db \<Rightarrow> uuid \<Rightarrow> uuid \<Rightarrow> bool" where
  "may_use d user i \<longleftrightarrow>
     list_ex (\<lambda>(u, p). u = user \<and> p = i) (user_upstream_proxies d)
   \<or> list_ex (\<lambda>(u, g). u = user \<and> list_ex (\<lambda>(g', p). g' = g \<and> p = i) (ldap_group_upstream_proxies d)) (user_ldap_groups d)"

definition select_upstreams :: "upstream list statement" where
  "select_upstreams = read_rows (\<lambda>_ d. map scan_upstream (sort_key up_name (upstream_proxies d)))"

definition select_effective :: "uuid \<Rightarrow> upstream list statement" where
  "select_effective user = read_rows (\<lambda>_ d. map scan_upstream
     (sort_key up_name (filter (\<lambda>u. up_enabled u \<and> may_use d user (up_id u)) (upstream_proxies d))))"

definition select_authorized :: "uuid \<Rightarrow> uuid \<Rightarrow> upstream statement" where
  "select_authorized user i = read_row (\<lambda>_ d. map_option
     (\<lambda>u. (scan_upstream u)\<lparr>ux_sealed := (case up_password u of None \<Rightarrow> [] | Some s \<Rightarrow> s)\<rparr>)
     (find (\<lambda>u. up_id u = i \<and> up_enabled u \<and> may_use d user i) (upstream_proxies d)))"

definition direct_permitted :: "db \<Rightarrow> uuid \<Rightarrow> bool" where
  "direct_permitted d user \<longleftrightarrow> \<not> direct_restricted d \<or> user \<in> set (direct_access_users d)
   \<or> list_ex (\<lambda>(u, g). u = user \<and> g \<in> set (direct_access_ldap_groups d)) (user_ldap_groups d)"

definition select_direct_allowed :: "uuid \<Rightarrow> bool statement" where
  "select_direct_allowed user = read_rows (\<lambda>_ d. direct_permitted d user)"

definition insert_upstream :: "uuid \<Rightarrow> upstream_input \<Rightarrow> string option \<Rightarrow> unit statement" where
  "insert_upstream i x password t d = store_db () (d\<lparr>upstream_proxies := upstream_proxies d @
     [\<lparr>up_id = i, up_name = ui_name x, up_type = ui_type x, up_host = ui_host x, up_port = ui_port x,
       up_username = ui_username x, up_password = password, up_enabled = ui_enabled x, up_created = t, up_updated = t\<rparr>]\<rparr>)"

definition updated_password :: "string option \<Rightarrow> bool \<Rightarrow> string option \<Rightarrow> string option" where
  "updated_password new_password clear old = (case new_password of Some s \<Rightarrow> Some s | None \<Rightarrow> if clear then None else old)"

definition apply_update :: "upstream_input \<Rightarrow> string option \<Rightarrow> int \<Rightarrow> upstream_row \<Rightarrow> upstream_row" where
  "apply_update x password t u = u\<lparr>up_name := ui_name x, up_type := ui_type x, up_host := ui_host x, up_port := ui_port x,
     up_username := ui_username x, up_password := updated_password password (ui_clear x) (up_password u),
     up_enabled := ui_enabled x, up_updated := t\<rparr>"

definition update_upstream :: "uuid \<Rightarrow> upstream_input \<Rightarrow> string option \<Rightarrow> nat statement" where
  "update_upstream i x password t d =
     store_db (affected (\<lambda>u. up_id u = i) (upstream_proxies d))
       (d\<lparr>upstream_proxies := update_rows (\<lambda>u. up_id u = i) (apply_update x password t) (upstream_proxies d)\<rparr>)"

text \<open>Deleting contexts takes their routes, tickets and cookies along.\<close>

definition drop_contexts :: "(context_row \<Rightarrow> bool) \<Rightarrow> db \<Rightarrow> db" where
  "drop_contexts P d = (let gone = map pc_id (filter P (proxy_contexts d)) in
     d\<lparr>proxy_contexts := delete_rows P (proxy_contexts d),
       proxy_routes := delete_rows (\<lambda>r. pr_context r \<in> set gone) (proxy_routes d),
       proxy_tickets := delete_rows (\<lambda>k. pt_context k \<in> set gone) (proxy_tickets d),
       proxy_cookies := delete_rows (\<lambda>c. co_context c \<in> set gone) (proxy_cookies d)\<rparr>)"

definition delete_contexts_of :: "uuid \<Rightarrow> unit statement" where
  "delete_contexts_of i t d = store_db () (drop_contexts (\<lambda>c. pc_upstream c = Some i) d)"

definition delete_upstream :: "uuid \<Rightarrow> nat statement" where
  "delete_upstream i t d = store_db (affected (\<lambda>u. up_id u = i) (upstream_proxies d))
     (d\<lparr>upstream_proxies := delete_rows (\<lambda>u. up_id u = i) (upstream_proxies d),
        user_upstream_proxies := delete_rows (\<lambda>(_, p). p = i) (user_upstream_proxies d),
        ldap_group_upstream_proxies := delete_rows (\<lambda>(_, p). p = i) (ldap_group_upstream_proxies d)\<rparr>)"

definition set_restricted :: "bool \<Rightarrow> unit statement" where
  "set_restricted b t d = Inr ((), d\<lparr>direct_restricted := b\<rparr>)"

section \<open>Methods\<close>

definition upstreamAAD :: "env \<Rightarrow> uuid \<Rightarrow> string" where
  "upstreamAAD E i = ''upstream-proxy:'' @ e_uuid_string E i"

definition seal_password :: "env \<Rightarrow> cipher \<Rightarrow> uuid \<Rightarrow> string \<Rightarrow> string option result prog" where
  "seal_password E c i password =
    (if password \<noteq> [] then ok_or (Encrypt E c password (upstreamAAD E i)) (\<lambda>s. State_Monad.return (Inr (Some s)))
     else State_Monad.return (Inr None))"

definition ListUpstreams :: "env \<Rightarrow> upstream list result prog" where
  "ListUpstreams E = sql E select_upstreams"

definition CreateUpstream :: "env \<Rightarrow> cipher \<Rightarrow> upstream_input \<Rightarrow> uuid result prog" where
  "CreateUpstream E c input = ok_or (State_Monad.return (normalizeUpstreamInput input)) (\<lambda>x. do {
     i \<leftarrow> new_uuid E;
     ok_or (seal_password E c i (ui_password x)) (\<lambda>password.
     ok_or (sql E (insert_upstream i x password)) (\<lambda>_.
     State_Monad.return (Inr i)))})"

definition UpdateUpstream :: "env \<Rightarrow> cipher \<Rightarrow> uuid \<Rightarrow> upstream_input \<Rightarrow> unit result prog" where
  "UpdateUpstream E c i input = ok_or (State_Monad.return (normalizeUpstreamInput input)) (\<lambda>x.
     ok_or (seal_password E c i (ui_password x)) (\<lambda>password.
     ok_or (sql E (update_upstream i x password)) (\<lambda>n.
     State_Monad.return (if n \<noteq> 1 then Inl No_Rows else Inr ()))))"

definition DeleteUpstream :: "env \<Rightarrow> uuid \<Rightarrow> unit result prog" where
  "DeleteUpstream E i = transaction E (\<lambda>t.
     ok_or (sql_at E t (delete_contexts_of i)) (\<lambda>_.
     ok_or (sql_at E t (delete_upstream i)) (\<lambda>n.
     State_Monad.return (if n \<noteq> 1 then Inl No_Rows else Inr ()))))"

definition EffectiveUpstreams :: "env \<Rightarrow> uuid \<Rightarrow> upstream list result prog" where
  "EffectiveUpstreams E user = sql E (select_effective user)"

definition DirectAllowed :: "env \<Rightarrow> uuid \<Rightarrow> bool result prog" where
  "DirectAllowed E user = sql E (select_direct_allowed user)"

definition DirectAccess :: "env \<Rightarrow> direct_access result prog" where
  "DirectAccess E = ok_or (sql E (read_rows (\<lambda>_ d. direct_restricted d))) (\<lambda>restricted.
     ok_or (sql E (read_rows (\<lambda>_ d. sort (direct_access_users d)))) (\<lambda>us.
     ok_or (sql E (read_rows (\<lambda>_ d. sort (direct_access_ldap_groups d)))) (\<lambda>gs.
     State_Monad.return (Inr \<lparr>da_restricted = restricted, da_users = us, da_groups = gs\<rparr>))))"

definition SetDirectRestricted :: "env \<Rightarrow> bool \<Rightarrow> unit result prog" where
  "SetDirectRestricted E b = sql E (set_restricted b)"

definition Authorized :: "env \<Rightarrow> uuid \<Rightarrow> uuid \<Rightarrow> upstream result prog" where
  "Authorized E user i = ok_or (sql E (select_authorized user i)) (\<lambda>u.
     State_Monad.return (Inr (u\<lparr>ux_password_configured := (ux_sealed u \<noteq> [])\<rparr>)))"

definition Password :: "env \<Rightarrow> cipher \<Rightarrow> upstream \<Rightarrow> string result" where
  "Password E c u = (if ux_sealed u = [] then Inr [] else Decrypt E c (ux_sealed u) (upstreamAAD E (ux_id u)))"

definition ProxyURL :: "env \<Rightarrow> cipher \<Rightarrow> upstream \<Rightarrow> url result" where
  "ProxyURL E c u = (case Password E c u of
     Inl err \<Rightarrow> Inl err
   | Inr password \<Rightarrow> Inr (empty_url\<lparr>u_scheme := ux_type u, u_host := JoinHostPort (ux_host u) (itoa_int (ux_port u)),
       u_user := (if ux_username u \<noteq> [] then Some (UserPassword (ux_username u) password) else None)\<rparr>))"

section \<open>Who may go out\<close>

definition load_upstream :: "upstream_row \<Rightarrow> upstream" where
  "load_upstream u = (scan_upstream u)\<lparr>ux_sealed := (case up_password u of None \<Rightarrow> [] | Some s \<Rightarrow> s)\<rparr>"

lemma load_upstream_simps [simp]: "ux_id (load_upstream u) = up_id u" "ux_host (load_upstream u) = up_host u"
  "ux_port (load_upstream u) = up_port u" "ux_type (load_upstream u) = up_type u" "ux_username (load_upstream u) = up_username u"
  "ux_sealed (load_upstream u) = (case up_password u of None \<Rightarrow> [] | Some s \<Rightarrow> s)"
  by (simp_all add: load_upstream_def scan_upstream_def)

text \<open>The row behind a usable upstream proxy of a user.\<close>

definition usable_upstream :: "db \<Rightarrow> uuid \<Rightarrow> uuid \<Rightarrow> upstream_row \<Rightarrow> bool" where
  "usable_upstream d user i u \<longleftrightarrow> u \<in> set (upstream_proxies d) \<and> up_id u = i \<and> up_enabled u \<and> may_use d user i"

lemma Authorized_spec:
  "wp (Authorized E user i) (\<lambda>r w'. reads_only w w' \<and> w_tick w' = Suc (w_tick w) \<and> (case r of
     Inl _ \<Rightarrow> e_fault E (w_tick w) \<noteq> None \<or> (\<forall>u. \<not> usable_upstream (w_db w) user i u)
   | Inr x \<Rightarrow> \<exists>u. usable_upstream (w_db w) user i u
       \<and> x = (load_upstream u)\<lparr>ux_password_configured := (ux_sealed (load_upstream u) \<noteq> [])\<rparr>)) w"
  by (auto simp: Authorized_def step_simps select_authorized_def read_row_def reads_only_def usable_upstream_def load_upstream_def
      find_None_iff split: option.split dest!: find_SomeD)

lemma DirectAllowed_spec:
  "wp (DirectAllowed E user) (\<lambda>r w'. reads_only w w' \<and> w_tick w' = Suc (w_tick w) \<and> (case r of
     Inl _ \<Rightarrow> e_fault E (w_tick w) \<noteq> None | Inr b \<Rightarrow> b = direct_permitted (w_db w) user)) w"
  by (auto simp: DirectAllowed_def step_simps select_direct_allowed_def read_rows_def reads_only_def split: option.split)

section \<open>Passwords\<close>

lemma seal_password_spec:
  assumes "aead_correct E" and "random_lengths E"
  shows "wp (seal_password E c i pw) (\<lambda>r w'. reads_only w w' \<and> (case r of
     Inl _ \<Rightarrow> True | Inr None \<Rightarrow> pw = [] | Inr (Some s) \<Rightarrow> pw \<noteq> [] \<and> sealed_as E c pw (upstreamAAD E i) s)) w"
  using Encrypt_spec [OF assms, of c pw "upstreamAAD E i" w]
  by (auto simp: seal_password_def step_simps split: sum.splits elim!: wp_mono)

lemma normalize_fields: "normalizeUpstreamInput input = Inr x \<Longrightarrow>
    ui_password x = ui_password input \<and> ui_clear x = ui_clear input \<and> ui_enabled x = ui_enabled input
  \<and> ui_type x \<in> {''http'', ''socks5''} \<and> 1 \<le> ui_port x \<and> ui_port x \<le> 65535 \<and> ui_name x \<noteq> [] \<and> ui_host x \<noteq> []"
  by (auto simp: normalizeUpstreamInput_def Let_def split: if_splits)

definition updated_as :: "env \<Rightarrow> cipher \<Rightarrow> uuid \<Rightarrow> upstream_input \<Rightarrow> db \<Rightarrow> db \<Rightarrow> bool" where
  "updated_as E c i x d d' \<longleftrightarrow> (\<exists>t password.
     (case password of None \<Rightarrow> ui_password x = [] | Some s \<Rightarrow> ui_password x \<noteq> [] \<and> sealed_as E c (ui_password x) (upstreamAAD E i) s)
   \<and> upstream_proxies d' = update_rows (\<lambda>u. up_id u = i) (apply_update x password t) (upstream_proxies d))"

lemma updated_asI:
  assumes "case password of None \<Rightarrow> ui_password x = [] | Some s \<Rightarrow> ui_password x \<noteq> [] \<and> sealed_as E c (ui_password x) (upstreamAAD E i) s"
    and "update_upstream i x password t d = Inr (n, d')"
  shows "updated_as E c i x d d'"
  using assms by (auto simp: updated_as_def update_upstream_def store_db_ok)

lemma UpdateUpstream_spec:
  assumes "aead_correct E" and "random_lengths E"
  shows "wp (UpdateUpstream E c i input) (\<lambda>r w'. case r of
     Inl _ \<Rightarrow> True
   | Inr _ \<Rightarrow> \<exists>x. normalizeUpstreamInput input = Inr x \<and> updated_as E c i x (w_db w) (w_db w')) w"
    (is "wp _ ?Q w")
proof (cases "normalizeUpstreamInput input")
  case (Inl e) then show ?thesis by (simp add: UpdateUpstream_def step_simps)
next
  case (Inr x)
  have step: "wp (ok_or (sql E (update_upstream i x password)) (\<lambda>n. State_Monad.return (if n \<noteq> 1 then Inl No_Rows else Inr ()))) ?Q w'"
    if "w_db w' = w_db w" "case password of None \<Rightarrow> ui_password x = []
        | Some s \<Rightarrow> ui_password x \<noteq> [] \<and> sealed_as E c (ui_password x) (upstreamAAD E i) s" for w' password
    using updated_asI [OF that(2)] that(1) Inr by (auto simp: step_simps split: option.split sum.split prod.split)
  note step' = step [unfolded wp_ok_or wp_return Inr sum.case]
  show ?thesis
    unfolding UpdateUpstream_def Inr wp_ok_or wp_return sum.case
  proof (rule wp_mono [OF seal_password_spec [OF assms]], goal_cases)
    case (1 r w')
    show ?case
    proof (cases r)
      case (Inr password)
      show ?thesis unfolding Inr sum.case by (rule step') (use 1 Inr in \<open>auto simp: reads_only_def\<close>)
    qed simp
  qed
qed

text \<open>
  C32: Updating an upstream proxy treats its password as the administrator said. A new password
  replaces the old one, an empty one keeps what is stored (it still opens to the same value) unless
  clearing was asked for, and nothing of another upstream proxy changes. What is sealed for one
  upstream proxy opens only under its own identifier.
\<close>

theorem upstream_password_update:
  assumes "run_state (UpdateUpstream E c i input) w = (Inr (), w1)" and "aead_correct E" and "random_lengths E"
    and "u \<in> set (upstream_proxies (w_db w))"
  shows "\<exists>u' \<in> set (upstream_proxies (w_db w1)). up_id u' = up_id u \<and>
    (if up_id u = i then Password E c (load_upstream u') =
        (if ui_password input \<noteq> [] then Inr (ui_password input) else if ui_clear input then Inr []
         else Password E c (load_upstream u))
     else u' = u)"
proof -
  obtain x t password where x: "normalizeUpstreamInput input = Inr x"
    and pw: "case password of None \<Rightarrow> ui_password x = [] | Some s \<Rightarrow> ui_password x \<noteq> [] \<and> sealed_as E c (ui_password x) (upstreamAAD E i) s"
    and rows: "upstream_proxies (w_db w1) = update_rows (\<lambda>u. up_id u = i) (apply_update x password t) (upstream_proxies (w_db w))"
    using UpdateUpstream_spec [OF assms(2,3), of c i input w] assms(1) by (auto simp: wp_def updated_as_def)
  let ?u = "if up_id u = i then apply_update x password t u else u"
  have "?u \<in> set (upstream_proxies (w_db w1))" unfolding rows by (rule update_rows_mem [OF assms(4)])
  moreover have "up_id ?u = up_id u" by (simp add: apply_update_def)
  moreover have "Password E c (load_upstream ?u) = (if ui_password input \<noteq> [] then Inr (ui_password input) else if ui_clear input then Inr []
         else Password E c (load_upstream u))" if "up_id u = i"
    using normalize_fields [OF x] pw that
    by (auto simp: Password_def apply_update_def updated_password_def sealed_as_def split: option.splits)
  ultimately show ?thesis by (intro bexI [of _ ?u]) auto
qed

definition sample_upstream :: upstream_row where
  "sample_upstream = \<lparr>up_id = 9, up_name = ''exit'', up_type = ''http'', up_host = ''10.0.0.9'', up_port = 3128, up_username = ''u'',
     up_password = None, up_enabled = True, up_created = 0, up_updated = 0\<rparr>"

definition upstream_db :: db where
  "upstream_db = ticket_db\<lparr>upstream_proxies := [sample_upstream], user_upstream_proxies := [(1, 9)]\<rparr>"

definition sample_input :: upstream_input where
  "sample_input = \<lparr>ui_name = ''exit'', ui_type = ''http'', ui_host = ''proxy.lan'', ui_port = 3128, ui_username = ''u'',
     ui_password = ''secret'', ui_clear = False, ui_enabled = True\<rparr>"

lemmas upstream_eval = upstream_db_def sample_upstream_def sample_input_def UpdateUpstream_def normalizeUpstreamInput_def
  trim_brackets_def seal_password_def Encrypt_def update_upstream_def apply_update_def affected_def update_rows_def

lemma sample_update: "\<exists>w1. run_state (UpdateUpstream sample_env ''k'' 9 sample_input) (sample_world upstream_db) = (Inr (), w1)"
  by (rule run_stateI) (simp add: upstream_eval store_eval)

theorem upstream_password_update_witness:
  "\<exists>w1. run_state (UpdateUpstream sample_env ''k'' 9 sample_input) (sample_world upstream_db) = (Inr (), w1)
     \<and> (\<exists>u' \<in> set (upstream_proxies (w_db w1)). Password sample_env ''k'' (load_upstream u') = Inr ''secret'')"
proof -
  obtain w1 where r: "run_state (UpdateUpstream sample_env ''k'' 9 sample_input) (sample_world upstream_db) = (Inr (), w1)"
    using sample_update by blast
  have "sample_upstream \<in> set (upstream_proxies (w_db (sample_world upstream_db)))"
    by (simp add: sample_world_def upstream_db_def)
  from upstream_password_update [OF r sample_aead(1) sample_random this] r show ?thesis
    by (auto simp: sample_upstream_def sample_input_def)
qed

section \<open>Deleting\<close>

text \<open>
  Deleting an upstream proxy ends everything that went through it. Afterwards there is no such
  proxy, no context that uses it, and no route, ticket or stored cookie of the contexts that did; the
  contexts of other proxies stay. A failed delete changes nothing.
\<close>

theorem delete_upstream_cascades:
  shows "case run_state (DeleteUpstream E i) w of
     (Inl _, w1) \<Rightarrow> w_db w1 = w_db w
   | (Inr _, w1) \<Rightarrow> db_ok (w_db w1) \<and> i \<notin> up_id ` set (upstream_proxies (w_db w1))
       \<and> proxy_contexts (w_db w1) = filter (\<lambda>c. pc_upstream c \<noteq> Some i) (proxy_contexts (w_db w))
       \<and> refers (map pr_context (proxy_routes (w_db w1)) @ map pt_context (proxy_tickets (w_db w1)) @ map co_context (proxy_cookies (w_db w1)))
           (map pc_id (filter (\<lambda>c. pc_upstream c \<noteq> Some i) (proxy_contexts (w_db w))))"
proof -
  have refs: "refers (map pr_context (proxy_routes d) @ map pt_context (proxy_tickets d) @ map co_context (proxy_cookies d)) (map pc_id cs)"
    if "db_ok d" "proxy_contexts d = cs" for d cs using that by (auto simp: db_ok_def proxy_ok_def refers_def)
  have gone: "delete_upstream i t d = Inr (n, d') \<Longrightarrow> db_ok d' \<and> i \<notin> up_id ` set (upstream_proxies d') \<and> proxy_contexts d' = proxy_contexts d" for t d n d'
    by (auto simp: delete_upstream_def store_db_ok)
  have cut: "delete_contexts_of i t d = Inr (x, d') \<Longrightarrow> proxy_contexts d' = filter (\<lambda>c. pc_upstream c \<noteq> Some i) (proxy_contexts d)" for t d x d'
    by (auto simp: delete_contexts_of_def store_db_ok drop_contexts_def Let_def delete_rows_def)
  have "wp (DeleteUpstream E i) (\<lambda>r w1. case r of Inl _ \<Rightarrow> w_db w1 = w_db w
     | Inr _ \<Rightarrow> db_ok (w_db w1) \<and> i \<notin> up_id ` set (upstream_proxies (w_db w1))
        \<and> proxy_contexts (w_db w1) = filter (\<lambda>c. pc_upstream c \<noteq> Some i) (proxy_contexts (w_db w))) w"
    by (auto simp: DeleteUpstream_def step_simps Let_def split: option.split sum.split prod.split dest!: gone cut)
  then show ?thesis by (auto simp: wp_def split: prod.splits sum.splits intro!: refs)
qed

end
