(* ===== verification/Cookies.thy ===== *)
theory Cookies
  imports Upstream
begin

text \<open>
  \<open>internal/proxy/cookies.go\<close>: the cookie jar of a proxy context. Values are sealed under data that
  binds them to their context, name, domain and path.
\<close>

section \<open>Matching\<close>

definition domainMatches :: "string \<Rightarrow> string \<Rightarrow> bool" where
  "domainMatches host domain \<longleftrightarrow> host = domain \<or> HasSuffix host (''.'' @ domain)"

definition pathMatches :: "string \<Rightarrow> string \<Rightarrow> bool" where
  "pathMatches requestPath cookiePath =
    (let r = (if requestPath = [] then ''/'' else requestPath)
     in r = cookiePath \<or> HasPrefix r (TrimSuffix cookiePath ''/'' @ ''/''))"

text \<open>
  \<open>path.Dir\<close> of a rooted path: what is before the last slash, with empty and dot segments dropped
  and a double dot removing the segment before it.
\<close>

fun clean_segments :: "string list \<Rightarrow> string list \<Rightarrow> string list" where
  "clean_segments done [] = rev done"
| "clean_segments done (s # ss) =
    (if s = [] \<or> s = ''.'' then clean_segments done ss
     else if s = ''..'' then clean_segments (drop 1 done) ss
     else clean_segments (s # done) ss)"

definition path_Dir :: "string \<Rightarrow> string" where
  "path_Dir value = ''/'' @ Join (clean_segments [] (butlast (Split value CHR ''/''))) ''/''"

definition defaultCookiePath :: "string \<Rightarrow> string" where
  "defaultCookiePath value =
    (if value = [] \<or> hd value \<noteq> CHR ''/'' then ''/''
     else let directory = path_Dir value in if directory = ''.'' then ''/'' else directory)"

section \<open>Statements\<close>

definition same_cookie :: "uuid \<Rightarrow> string \<Rightarrow> string \<Rightarrow> string \<Rightarrow> cookie_row \<Rightarrow> bool" where
  "same_cookie ctx name domain path c \<longleftrightarrow> co_context c = ctx \<and> co_name c = name \<and> co_domain c = domain \<and> co_path c = path"

definition delete_cookie :: "uuid \<Rightarrow> string \<Rightarrow> string \<Rightarrow> string \<Rightarrow> unit statement" where
  "delete_cookie ctx name domain path t d =
     Inr ((), d\<lparr>proxy_cookies := delete_rows (same_cookie ctx name domain path) (proxy_cookies d)\<rparr>)"

definition overwrite_cookie :: "cookie_row \<Rightarrow> int \<Rightarrow> cookie_row \<Rightarrow> cookie_row" where
  "overwrite_cookie new_row t c = c\<lparr>co_value := co_value new_row, co_host_only := co_host_only new_row, co_secure := co_secure new_row,
     co_http_only := co_http_only new_row, co_same_site := co_same_site new_row, co_expires := co_expires new_row, co_updated := t\<rparr>"

definition upsert_cookie :: "cookie_row \<Rightarrow> unit statement" where
  "upsert_cookie row t d =
    (let same = same_cookie (co_context row) (co_name row) (co_domain row) (co_path row)
     in store_db () (d\<lparr>proxy_cookies :=
          (if list_ex same (proxy_cookies d) then update_rows same (overwrite_cookie row t) (proxy_cookies d)
           else proxy_cookies d @ [row\<lparr>co_updated := t\<rparr>])\<rparr>))"

definition live_cookie :: "int \<Rightarrow> uuid \<Rightarrow> cookie_row \<Rightarrow> bool" where
  "live_cookie t ctx c \<longleftrightarrow> co_context c = ctx \<and> (case co_expires c of None \<Rightarrow> True | Some e \<Rightarrow> t < e)"

text \<open>
  The query has no \<open>ORDER BY\<close>, so the database may return the rows in any order. Here it is the order in
  which they were inserted, where an update leaves a row in its place.
\<close>

definition select_cookies :: "uuid \<Rightarrow> cookie_row list statement" where
  "select_cookies ctx = read_rows (\<lambda>t d. filter (live_cookie t ctx) (proxy_cookies d))"

section \<open>Saving\<close>

definition cookieAAD :: "env \<Rightarrow> uuid \<Rightarrow> string \<Rightarrow> string \<Rightarrow> string \<Rightarrow> string" where
  "cookieAAD E ctx name domain path =
     e_uuid_string E ctx @ [CHR 0x00] @ name @ [CHR 0x00] @ domain @ [CHR 0x00] @ path"

fun same_site_number :: "same_site \<Rightarrow> nat" where
  "same_site_number SameSiteUnset = 0"
| "same_site_number SameSiteDefault = 1"
| "same_site_number SameSiteLax = 2"
| "same_site_number SameSiteStrict = 3"
| "same_site_number SameSiteNone = 4"

definition cookie_domain :: "url \<Rightarrow> cookie \<Rightarrow> string" where
  "cookie_domain origin ck = (let domain = ToLower (TrimPrefix (ck_domain ck) ''.'')
     in if domain = [] then ToLower (Hostname origin) else domain)"

definition host_only :: "cookie \<Rightarrow> bool" where
  "host_only ck \<longleftrightarrow> ToLower (TrimPrefix (ck_domain ck) ''.'') = []"

text \<open>A cookie for a foreign domain or for a public suffix is skipped.\<close>

definition acceptable :: "env \<Rightarrow> url \<Rightarrow> cookie \<Rightarrow> bool" where
  "acceptable E origin ck \<longleftrightarrow> host_only ck
   \<or> domainMatches (ToLower (Hostname origin)) (cookie_domain origin ck)
     \<and> e_public_suffix E (cookie_domain origin ck) \<noteq> cookie_domain origin ck"

definition cookie_path :: "url \<Rightarrow> cookie \<Rightarrow> string" where
  "cookie_path origin ck = (if ck_path ck = [] then defaultCookiePath (u_path origin) else ck_path ck)"

text \<open>\<open>time.Now\<close> is only read when the cookie has a date and no negative \<open>Max-Age\<close>.\<close>

definition cookie_expired :: "env \<Rightarrow> cookie \<Rightarrow> bool prog" where
  "cookie_expired E ck =
    (if ck_max_age ck < 0 then State_Monad.return True
     else (case ck_expires ck of
         None \<Rightarrow> State_Monad.return False
       | Some e \<Rightarrow> do { t \<leftarrow> now E; State_Monad.return (e < t) }))"

definition cookie_to_row :: "uuid \<Rightarrow> uuid \<Rightarrow> url \<Rightarrow> cookie \<Rightarrow> string \<Rightarrow> cookie_row" where
  "cookie_to_row i ctx origin ck sealed = \<lparr>co_id = i, co_context = ctx, co_name = ck_name ck, co_domain = cookie_domain origin ck,
     co_path = cookie_path origin ck, co_value = sealed, co_host_only = host_only ck, co_secure = ck_secure ck,
     co_http_only = ck_http_only ck, co_same_site = same_site_number (ck_same_site ck), co_expires = ck_expires ck, co_updated = 0\<rparr>"

definition save_cookie :: "env \<Rightarrow> cipher \<Rightarrow> uuid \<Rightarrow> url \<Rightarrow> cookie \<Rightarrow> unit result prog" where
  "save_cookie E c ctx origin ck =
    (if \<not> acceptable E origin ck then State_Monad.return (Inr ())
     else do {
       expired \<leftarrow> cookie_expired E ck;
       (if expired then sql E (delete_cookie ctx (ck_name ck) (cookie_domain origin ck) (cookie_path origin ck))
        else ok_or (Encrypt E c (ck_value ck) (cookieAAD E ctx (ck_name ck) (cookie_domain origin ck) (cookie_path origin ck))) (\<lambda>sealed. do {
          i \<leftarrow> new_uuid E;
          sql E (upsert_cookie (cookie_to_row i ctx origin ck sealed))}))})"

primrec SaveCookies :: "env \<Rightarrow> cipher \<Rightarrow> uuid \<Rightarrow> url \<Rightarrow> cookie list \<Rightarrow> unit result prog" where
  "SaveCookies E c ctx origin [] = State_Monad.return (Inr ())"
| "SaveCookies E c ctx origin (ck # cks) = ok_or (save_cookie E c ctx origin ck) (\<lambda>_. SaveCookies E c ctx origin cks)"

section \<open>Sending\<close>

definition row_matches :: "url \<Rightarrow> bool \<Rightarrow> cookie_row \<Rightarrow> bool" where
  "row_matches target visibleOnly r =
    (let host = ToLower (Hostname target)
     in \<not> (visibleOnly \<and> co_http_only r)
      \<and> \<not> (co_secure r \<and> u_scheme target \<noteq> ''https'')
      \<and> \<not> (co_host_only r \<and> host \<noteq> co_domain r \<or> \<not> co_host_only r \<and> \<not> domainMatches host (co_domain r)
           \<or> \<not> pathMatches (u_path target) (co_path r)))"

fun open_cookies :: "env \<Rightarrow> cipher \<Rightarrow> uuid \<Rightarrow> url \<Rightarrow> bool \<Rightarrow> cookie_row list \<Rightarrow> cookie list result" where
  "open_cookies E c ctx target visibleOnly [] = Inr []"
| "open_cookies E c ctx target visibleOnly (r # rs) =
    (if \<not> row_matches target visibleOnly r then open_cookies E c ctx target visibleOnly rs
     else (case Decrypt E c (co_value r) (cookieAAD E ctx (co_name r) (co_domain r) (co_path r)) of
         Inl err \<Rightarrow> Inl err
       | Inr plain \<Rightarrow> (case open_cookies E c ctx target visibleOnly rs of
           Inl err \<Rightarrow> Inl err
         | Inr cks \<Rightarrow> Inr (plain_cookie (co_name r) plain # cks))))"

definition jar_cookies :: "env \<Rightarrow> cipher \<Rightarrow> uuid \<Rightarrow> url \<Rightarrow> bool \<Rightarrow> cookie list result prog" where
  "jar_cookies E c ctx target visibleOnly = ok_or (sql E (select_cookies ctx)) (\<lambda>rows.
     State_Monad.return (open_cookies E c ctx target visibleOnly rows))"

definition Cookies :: "env \<Rightarrow> cipher \<Rightarrow> uuid \<Rightarrow> url \<Rightarrow> cookie list result prog" where
  "Cookies E c ctx target = jar_cookies E c ctx target False"

definition VisibleCookies :: "env \<Rightarrow> cipher \<Rightarrow> uuid \<Rightarrow> url \<Rightarrow> cookie list result prog" where
  "VisibleCookies E c ctx target = jar_cookies E c ctx target True"

section \<open>Paths and domains\<close>

lemma TrimSuffix_slash: "TrimSuffix c ''/'' = (if c \<noteq> [] \<and> last c = CHR ''/'' then butlast c else c)"
proof (cases "c \<noteq> [] \<and> last c = CHR ''/''")
  case True
  then have "c = butlast c @ ''/''" by (metis append_butlast_last_id)
  then show ?thesis using True TrimSuffix_append [of "butlast c" "''/''"] by simp
next
  case False
  then have "\<not> HasSuffix c ''/''" by (auto simp: HasSuffix_iff)
  with False show ?thesis by (auto simp: TrimSuffix_def)
qed

lemma path_prefix:
  assumes "c \<noteq> []"
  shows "HasPrefix r (TrimSuffix c ''/'' @ ''/'') \<or> r = c \<longleftrightarrow>
     r = c \<or> (\<exists>s. s \<noteq> [] \<and> r = c @ s \<and> (last c = CHR ''/'' \<or> hd s = CHR ''/''))"
proof (cases "last c = CHR ''/''")
  case True
  then have "TrimSuffix c ''/'' @ ''/'' = c"
    using assms by (simp add: TrimSuffix_slash) (metis append_butlast_last_id)
  with True show ?thesis by (auto simp: HasPrefix_iff)
next
  case False
  have "(\<exists>t. r = c @ CHR ''/'' # t) \<longleftrightarrow> (\<exists>s. s \<noteq> [] \<and> r = c @ s \<and> hd s = CHR ''/'')"
    by (metis list.collapse list.distinct(1) list.sel(1))
  with False show ?thesis by (auto simp: HasPrefix_iff TrimSuffix_slash)
qed

text \<open>
  \<open>pathMatches\<close> is the path-match of RFC 6265, section 5.1.4: the paths are equal, or the
  cookie's path is a proper prefix of the request's path that ends in a slash or is followed by one.
  An empty request path counts as a slash.
\<close>

theorem path_match_rfc6265:
  assumes "c \<noteq> []"
  shows "pathMatches p c \<longleftrightarrow> (let r = (if p = [] then ''/'' else p) in
     r = c \<or> (\<exists>s. s \<noteq> [] \<and> r = c @ s \<and> (last c = CHR ''/'' \<or> hd s = CHR ''/'')))"
  unfolding pathMatches_def Let_def path_prefix [OF assms, symmetric] by (rule disj_commute)

theorem path_match_rfc6265_witness: "pathMatches ''/shop/cart'' ''/shop'' \<and> \<not> pathMatches ''/shopping'' ''/shop''"
  using path_match_rfc6265 [of "''/shop''" "''/shop/cart''"] path_match_rfc6265 [of "''/shop''" "''/shopping''"] by auto

section \<open>Who may set a cookie for whom\<close>

text \<open>What the jar allows of a row that a response from \<open>origin\<close> left in it.\<close>

definition within_site :: "env \<Rightarrow> uuid \<Rightarrow> url \<Rightarrow> cookie_row \<Rightarrow> bool" where
  "within_site E ctx origin r \<longleftrightarrow> co_context r = ctx \<and>
    (if co_host_only r then co_domain r = ToLower (Hostname origin)
     else domainMatches (ToLower (Hostname origin)) (co_domain r) \<and> e_public_suffix E (co_domain r) \<noteq> co_domain r)"

definition old_or_within :: "env \<Rightarrow> uuid \<Rightarrow> url \<Rightarrow> cookie_row set \<Rightarrow> db \<Rightarrow> bool" where
  "old_or_within E ctx origin old d \<longleftrightarrow> (\<forall>r \<in> set (proxy_cookies d). r \<in> old \<or> within_site E ctx origin r)"

lemma row_within: "acceptable E origin ck \<Longrightarrow> within_site E ctx origin (cookie_to_row i ctx origin ck s)"
  by (auto simp: within_site_def cookie_to_row_def acceptable_def host_only_def cookie_domain_def Let_def)

lemma upsert_rows:
  assumes "upsert_cookie row t d = Inr (x, d')" and "r \<in> set (proxy_cookies d')"
  shows "r \<in> set (proxy_cookies d) \<or> r = row\<lparr>co_updated := t\<rparr>
    \<or> (\<exists>c \<in> set (proxy_cookies d). same_cookie (co_context row) (co_name row) (co_domain row) (co_path row) c \<and> r = overwrite_cookie row t c)"
  using assms by (auto simp: upsert_cookie_def Let_def store_db_ok set_update_rows split: if_splits)

lemma upsert_within:
  assumes "within_site E ctx origin row" shows "statement_keeps (old_or_within E ctx origin old) (upsert_cookie row)"
proof -
  have "within_site E ctx origin (row\<lparr>co_updated := t\<rparr>)" for t using assms by (simp add: within_site_def)
  moreover have "within_site E ctx origin (overwrite_cookie row t c)"
    if "same_cookie (co_context row) (co_name row) (co_domain row) (co_path row) c" for t c
    using assms that by (simp add: within_site_def overwrite_cookie_def same_cookie_def)
  ultimately show ?thesis
    unfolding statement_keeps_def old_or_within_def by (auto dest!: upsert_rows)
qed

lemma delete_within: "statement_keeps (old_or_within E ctx origin old) (delete_cookie ctx' n dm p)"
  by (auto simp: statement_keeps_def old_or_within_def delete_cookie_def)

lemma keeps_expired [keeps_intro]: "keeps (on_db J) (cookie_expired E ck)"
  unfolding cookie_expired_def by (intro keeps_intro)

lemma save_cookie_within: "keeps (on_db (old_or_within E ctx origin old)) (save_cookie E c ctx origin ck)"
  unfolding save_cookie_def by (intro keeps_intro delete_within upsert_within row_within) simp

lemma SaveCookies_within: "keeps (on_db (old_or_within E ctx origin old)) (SaveCookies E c ctx origin cks)"
  by (induction cks) (auto intro: keeps_intro save_cookie_within)

text \<open>
  C17: A site cannot plant a cookie for another one. Every row that saving the cookies of a response
  adds or changes belongs to the context at hand, and is either for the responding host alone or for
  a domain that host belongs to and that is not a public suffix. All other rows are as they were.
\<close>

theorem cookies_stay_within_site:
  "list_all (\<lambda>r. r \<in> set (proxy_cookies (w_db w)) \<or> co_context r = ctx \<and>
      (if co_host_only r then co_domain r = ToLower (Hostname origin)
       else domainMatches (ToLower (Hostname origin)) (co_domain r) \<and> e_public_suffix E (co_domain r) \<noteq> co_domain r))
    (proxy_cookies (w_db (snd (run_state (SaveCookies E c ctx origin cks) w))))"
proof -
  have "on_db (old_or_within E ctx origin (set (proxy_cookies (w_db w)))) w"
    by (simp add: on_db_def old_or_within_def)
  from keepsD [OF SaveCookies_within this, of c cks] show ?thesis
    by (auto simp: on_db_def old_or_within_def within_site_def list_all_iff)
qed

section \<open>What is sent\<close>

definition opens_to :: "env \<Rightarrow> cipher \<Rightarrow> uuid \<Rightarrow> cookie_row \<Rightarrow> cookie \<Rightarrow> bool" where
  "opens_to E c ctx r ck \<longleftrightarrow> (\<exists>v. Decrypt E c (co_value r) (cookieAAD E ctx (co_name r) (co_domain r) (co_path r)) = Inr v
     \<and> ck = plain_cookie (co_name r) v)"

lemma open_cookies_spec:
  "case open_cookies E c ctx target v rs of
     Inl _ \<Rightarrow> \<exists>r \<in> set rs. row_matches target v r \<and> (\<exists>e. Decrypt E c (co_value r) (cookieAAD E ctx (co_name r) (co_domain r) (co_path r)) = Inl e)
   | Inr cks \<Rightarrow> list_all2 (opens_to E c ctx) (filter (row_matches target v) rs) cks"
  by (induction rs) (auto simp: opens_to_def [abs_def] split: sum.splits)

lemma jar_cookies_spec:
  "wp (jar_cookies E c ctx target v) (\<lambda>r w'. reads_only w w' \<and> (case r of
     Inl _ \<Rightarrow> True
   | Inr cks \<Rightarrow> list_all2 (opens_to E c ctx)
       (filter (row_matches target v) (filter (live_cookie (e_now E (w_tick w)) ctx) (proxy_cookies (w_db w)))) cks)) w"
  using open_cookies_spec [where E = E and c = c and ctx = ctx and target = target and v = v
      and rs = "filter (live_cookie (e_now E (w_tick w)) ctx) (proxy_cookies (w_db w))"]
  by (auto simp: jar_cookies_def step_simps select_cookies_def read_rows_def reads_only_def split: option.split sum.splits)

definition belongs :: "int \<Rightarrow> uuid \<Rightarrow> url \<Rightarrow> cookie_row \<Rightarrow> bool" where
  "belongs t ctx target r \<longleftrightarrow> co_context r = ctx \<and> (case co_expires r of None \<Rightarrow> True | Some e \<Rightarrow> t < e)
     \<and> (co_secure r \<longrightarrow> u_scheme target = ''https'')
     \<and> (if co_host_only r then ToLower (Hostname target) = co_domain r else domainMatches (ToLower (Hostname target)) (co_domain r))
     \<and> pathMatches (u_path target) (co_path r)"

lemma filter_belongs: "filter (row_matches target v) (filter (live_cookie t ctx) rs)
    = filter (\<lambda>r. belongs t ctx target r \<and> \<not> (v \<and> co_http_only r)) rs"
  unfolding filter_filter by (rule filter_cong) (auto simp: belongs_def row_matches_def live_cookie_def Let_def split: option.splits)

lemma jar_cookies_result:
  "case fst (run_state (jar_cookies E c ctx target v) w) of Inl _ \<Rightarrow> True
   | Inr cks \<Rightarrow> list_all2 (opens_to E c ctx)
       (filter (\<lambda>r. belongs (e_now E (w_tick w)) ctx target r \<and> \<not> (v \<and> co_http_only r)) (proxy_cookies (w_db w))) cks"
  using jar_cookies_spec [where E = E and c = c and ctx = ctx and target = target and v = v and w = w]
  unfolding filter_belongs wp_run by (rule conjunct2)

text \<open>
  C31: The cookies sent with a request are exactly those of the jar that belong there: of this
  context, not expired, secure ones only over HTTPS, of a domain and a path that match the URL, in the
  order in which the query returns the rows (the code asks for none), each with the value it was sealed
  with. \<open>VisibleCookies\<close>, for scripts, has none of the HttpOnly ones.
\<close>

theorem cookies_sent_exactly:
  "(case fst (run_state (Cookies E c ctx target) w) of Inl _ \<Rightarrow> True
    | Inr cks \<Rightarrow> list_all2 (opens_to E c ctx) (filter (belongs (e_now E (w_tick w)) ctx target) (proxy_cookies (w_db w))) cks)
 \<and> (case fst (run_state (VisibleCookies E c ctx target) w) of Inl _ \<Rightarrow> True
    | Inr cks \<Rightarrow> list_all2 (opens_to E c ctx)
        (filter (\<lambda>r. belongs (e_now E (w_tick w)) ctx target r \<and> \<not> co_http_only r) (proxy_cookies (w_db w))) cks)"
  using jar_cookies_result [where E = E and c = c and ctx = ctx and target = target and v = False and w = w]
    jar_cookies_result [where E = E and c = c and ctx = ctx and target = target and v = True and w = w]
  unfolding Cookies_def VisibleCookies_def simp_thms by (rule conjI)

section \<open>Saved, then sent\<close>

lemma upsert_has_row:
  assumes "upsert_cookie row t d = Inr (x, d')"
  shows "\<exists>r \<in> set (proxy_cookies d'). same_cookie (co_context row) (co_name row) (co_domain row) (co_path row) r
     \<and> co_value r = co_value row \<and> co_host_only r = co_host_only row \<and> co_secure r = co_secure row
     \<and> co_http_only r = co_http_only row \<and> co_expires r = co_expires row"
proof -
  let ?same = "same_cookie (co_context row) (co_name row) (co_domain row) (co_path row)"
  show ?thesis
  proof (cases "list_ex ?same (proxy_cookies d)")
    case True
    then obtain r where r: "r \<in> set (proxy_cookies d)" "?same r" by (auto simp: list_ex_iff)
    have "overwrite_cookie row t r \<in> set (update_rows ?same (overwrite_cookie row t) (proxy_cookies d))"
      using r by (rule update_rows_hit)
    moreover have "proxy_cookies d' = update_rows ?same (overwrite_cookie row t) (proxy_cookies d)"
      using True assms by (auto simp: upsert_cookie_def Let_def store_db_ok)
    ultimately have "overwrite_cookie row t r \<in> set (proxy_cookies d')" by simp
    then show ?thesis by (rule rev_bexI) (use r(2) in \<open>simp add: overwrite_cookie_def same_cookie_def\<close>)
  next
    case False
    with assms show ?thesis by (auto simp: upsert_cookie_def Let_def store_db_ok same_cookie_def)
  qed
qed

definition in_jar :: "env \<Rightarrow> cipher \<Rightarrow> uuid \<Rightarrow> url \<Rightarrow> cookie \<Rightarrow> db \<Rightarrow> bool" where
  "in_jar E c ctx origin ck d \<longleftrightarrow> (\<exists>r \<in> set (proxy_cookies d).
     same_cookie ctx (ck_name ck) (cookie_domain origin ck) (cookie_path origin ck) r
   \<and> sealed_as E c (ck_value ck) (cookieAAD E ctx (ck_name ck) (cookie_domain origin ck) (cookie_path origin ck)) (co_value r)
   \<and> co_host_only r = host_only ck \<and> co_secure r = ck_secure ck \<and> co_http_only r = ck_http_only ck \<and> co_expires r = ck_expires ck)"

lemma save_cookie_in_jar:
  assumes "aead_correct E" and "random_lengths E" and "acceptable E origin ck" and "0 \<le> ck_max_age ck" and "ck_expires ck = None"
  shows "wp (save_cookie E c ctx origin ck) (\<lambda>r w'. case r of Inl _ \<Rightarrow> True | Inr _ \<Rightarrow> in_jar E c ctx origin ck (w_db w')) w"
proof -
  let ?aad = "cookieAAD E ctx (ck_name ck) (cookie_domain origin ck) (cookie_path origin ck)"
  have up: "upsert_cookie (cookie_to_row i ctx origin ck s) t d = Inr (x, d') \<Longrightarrow> sealed_as E c (ck_value ck) ?aad s
      \<Longrightarrow> in_jar E c ctx origin ck d'" for i s t d x d'
    by (drule upsert_has_row) (auto simp: in_jar_def cookie_to_row_def)
  show ?thesis
    using assms(3-5) by (auto simp: save_cookie_def cookie_expired_def wp_if wp_bind wp_return
        intro!: wp_seq [OF Encrypt_spec [OF assms(1,2)]])
      (auto simp: step_simps split: option.split sum.split prod.split dest: up)
qed

text \<open>
  A cookie comes back. When a response's cookie is accepted and stored, without an expiry date,
  then a later request from the same context to a URL that its domain, path and secure attributes
  allow carries it with its value.
\<close>

theorem saved_cookie_is_sent:
  assumes "run_state (SaveCookies E c ctx origin [ck]) w = (Inr (), w1)" and "aead_correct E" and "random_lengths E"
    and "acceptable E origin ck" and "0 \<le> ck_max_age ck" and "ck_expires ck = None"
    and "run_state (Cookies E c ctx target) w1 = (Inr sent, w2)"
    and "ck_secure ck \<longrightarrow> u_scheme target = ''https''"
    and "if host_only ck then Hostname target = Hostname origin else domainMatches (ToLower (Hostname target)) (cookie_domain origin ck)"
    and "pathMatches (u_path target) (cookie_path origin ck)"
  shows "plain_cookie (ck_name ck) (ck_value ck) \<in> set sent"
proof -
  have "in_jar E c ctx origin ck (w_db w1)"
    using wp_run [THEN iffD1, OF save_cookie_in_jar [OF assms(2-6), of c ctx w]] assms(1)
    by (auto simp: ok_or_def State_Monad.bind_def State_Monad.return_def split: prod.splits sum.splits)
  then obtain r where r: "r \<in> set (proxy_cookies (w_db w1))"
      "same_cookie ctx (ck_name ck) (cookie_domain origin ck) (cookie_path origin ck) r"
      "Decrypt E c (co_value r) (cookieAAD E ctx (ck_name ck) (cookie_domain origin ck) (cookie_path origin ck)) = Inr (ck_value ck)"
      "co_host_only r = host_only ck" "co_secure r = ck_secure ck" "co_expires r = None"
    using assms(6) by (auto simp: in_jar_def sealed_as_def)
  have "belongs (e_now E (w_tick w1)) ctx target r"
    using r assms(8-10) by (auto simp: belongs_def same_cookie_def cookie_domain_def host_only_def Let_def split: if_splits)
  then have "r \<in> set (filter (belongs (e_now E (w_tick w1)) ctx target) (proxy_cookies (w_db w1)))" using r(1) by simp
  moreover have "list_all2 (opens_to E c ctx) (filter (belongs (e_now E (w_tick w1)) ctx target) (proxy_cookies (w_db w1))) sent"
    using jar_cookies_result [where E = E and c = c and ctx = ctx and target = target and v = False and w = w1] assms(7)
    by (simp add: Cookies_def)
  ultimately obtain ck' where "ck' \<in> set sent" "opens_to E c ctx r ck'" using list_all2_member by metis
  with r show ?thesis by (auto simp: opens_to_def same_cookie_def)
qed

definition sample_cookie :: cookie where
  "sample_cookie = (plain_cookie ''sid'' ''abc'')\<lparr>ck_domain := ''.example.com'', ck_path := ''/'', ck_secure := True, ck_http_only := True\<rparr>"

lemmas cookie_eval = SaveCookies.simps save_cookie_def acceptable_def cookie_expired_def cookie_domain_def cookie_path_def
  host_only_def domainMatches_def pathMatches_def sample_cookie_def plain_cookie_def cookie_to_row_def upsert_cookie_def
  same_cookie_def Encrypt_def Decrypt_def cookieAAD_def Cookies_def jar_cookies_def select_cookies_def read_rows_def live_cookie_def
  row_matches_def NonceSize_def

lemma sample_cookie_run: "\<exists>w1 w2. run_state (SaveCookies sample_env ''k'' 5 sample_target [sample_cookie]) (sample_world ticket_db) = (Inr (), w1)
    \<and> run_state (Cookies sample_env ''k'' 5 sample_target) w1 = (Inr [plain_cookie ''sid'' ''abc''], w2)"
proof (rule run_twice)
  have o: "sample_open k n (sample_seal k n p a) a = Some p" for k n p a
    using sample_aead(1) by (simp add: aead_correct_def sample_env_def)
  show "wp (SaveCookies sample_env ''k'' 5 sample_target [sample_cookie])
     (\<lambda>x. wp (Cookies sample_env ''k'' 5 sample_target) (\<lambda>y _. x = Inr () \<and> y = Inr [plain_cookie ''sid'' ''abc'']))
     (sample_world ticket_db)"
    by (simp add: cookie_eval store_eval o)
qed

theorem saved_cookie_is_sent_witness:
  "\<exists>w1 w2 sent. run_state (SaveCookies sample_env ''k'' 5 sample_target [sample_cookie]) (sample_world ticket_db) = (Inr (), w1)
    \<and> run_state (Cookies sample_env ''k'' 5 sample_target) w1 = (Inr sent, w2) \<and> plain_cookie ''sid'' ''abc'' \<in> set sent"
proof -
  obtain w1 w2 where r: "run_state (SaveCookies sample_env ''k'' 5 sample_target [sample_cookie]) (sample_world ticket_db) = (Inr (), w1)"
    "run_state (Cookies sample_env ''k'' 5 sample_target) w1 = (Inr [plain_cookie ''sid'' ''abc''], w2)"
    using sample_cookie_run by blast
  have a: "acceptable sample_env sample_target sample_cookie" "0 \<le> ck_max_age sample_cookie" "ck_expires sample_cookie = None"
    "ck_secure sample_cookie \<longrightarrow> u_scheme sample_target = ''https''"
    "if host_only sample_cookie then Hostname sample_target = Hostname sample_target
     else domainMatches (ToLower (Hostname sample_target)) (cookie_domain sample_target sample_cookie)"
    "pathMatches (u_path sample_target) (cookie_path sample_target sample_cookie)"
    by (simp_all add: cookie_eval store_eval)
  from saved_cookie_is_sent [OF r(1) sample_aead(1) sample_random a(1,2,3) r(2) a(4,5,6)]
  have "plain_cookie ''sid'' ''abc'' \<in> set [plain_cookie ''sid'' ''abc'']"
    by (simp add: sample_cookie_def plain_cookie_def)
  with r show ?thesis by blast
qed

end
