(* ===== verification/Service.thy ===== *)
theory Service
  imports Auth_Http Cookies
begin

text \<open>
  The proxy service of \<open>internal/proxy/http.go\<close>, first part: its configuration, the decision whether
  a user may reach a target, the audit log, the public URLs of routes and back, the connection to the
  target, and what is done to headers on the way.
\<close>

section \<open>Configuration\<close>

record service =
  sv_guard :: guard
  sv_cipher :: cipher
  sv_app :: url
  sv_domain :: string
  sv_secure :: bool
  sv_ttl :: int

definition proxyCookieName :: string where
  "proxyCookieName = ''tvpn_proxy_session''"

definition NewService :: "string \<Rightarrow> string \<Rightarrow> string \<Rightarrow> bool \<Rightarrow> int \<Rightarrow> service result" where
  "NewService appOrigin proxyBaseDomain key secure ttl = (case NewGuard appOrigin proxyBaseDomain of
     Inl err \<Rightarrow> Inl err
   | Inr g \<Rightarrow> (case NewCipher key of
       Inl err \<Rightarrow> Inl err
     | Inr c \<Rightarrow> (case url_parse appOrigin of
         None \<Rightarrow> Inl ''invalid URL''
       | Some app \<Rightarrow> Inr \<lparr>sv_guard = g, sv_cipher = c, sv_app = app, sv_domain = proxyBaseDomain, sv_secure = secure, sv_ttl = ttl\<rparr>)))"

section \<open>Authorization\<close>

text \<open>
  \<open>Guard.Resolve\<close> as an effect: what is checked before the host's addresses are known, the lookup
  unless the host is an address, and what is checked after.
\<close>

definition resolve_name :: "(string \<Rightarrow> string option) \<Rightarrow> guard \<Rightarrow> string \<Rightarrow> (url \<times> string \<times> int) result" where
  "resolve_name idna g raw = (case url_parse (normalizeTargetURL raw) of
     None \<Rightarrow> Inl ''only absolute HTTP and HTTPS URLs are supported''
   | Some parsed \<Rightarrow>
       if \<not> IsAbs parsed \<or> u_scheme parsed \<noteq> ''http'' \<and> u_scheme parsed \<noteq> ''https''
       then Inl ''only absolute HTTP and HTTPS URLs are supported''
       else if u_user parsed \<noteq> None \<or> Hostname parsed = []
       then Inl ''URL credentials and empty hosts are not allowed''
       else (case idna (TrimSuffix (ToLower (Hostname parsed)) ''.'') of
         None \<Rightarrow> Inl ''invalid internationalized host''
       | Some host \<Rightarrow>
           if is_control_plane g host then Inl ''Tvpn control plane cannot be proxied''
           else (case target_port parsed of Inl err \<Rightarrow> Inl err | Inr port \<Rightarrow> Inr (parsed, host, port))))"

definition addresses_of :: "env \<Rightarrow> string \<Rightarrow> addr list result prog" where
  "addresses_of E host = (case ParseAddr host of
     Some _ \<Rightarrow> State_Monad.return (target_addresses (\<lambda>_. Inr []) host)
   | None \<Rightarrow> do { found \<leftarrow> lookup_host E host; State_Monad.return (target_addresses (\<lambda>_. found) host) })"

definition GuardResolve :: "env \<Rightarrow> guard \<Rightarrow> string \<Rightarrow> target result prog" where
  "GuardResolve E g raw = ok_or (State_Monad.return (resolve_name (e_idna E) g raw)) (\<lambda>(parsed, host, port).
     ok_or (addresses_of E host) (\<lambda>addresses.
     State_Monad.return (
       if list_ex hardDenied (map Unmap addresses) then Inl ''target address is always denied''
       else Inr \<lparr>t_url = parsed\<lparr>u_host := canonical_host (u_scheme parsed) host port, u_fragment := []\<rparr>,
         t_addresses = map Unmap addresses, t_port = port\<rparr>)))"

text \<open>It is \<open>Resolve\<close> with the resolver's answer of the moment.\<close>

lemma wp_addresses_of: "wp (addresses_of E host) (\<lambda>r w'. w_db w' = w_db w \<and> r = target_addresses (e_lookup E (w_tick w)) host) w"
  by (auto simp: addresses_of_def step_simps target_addresses_def split: option.split sum.split)

lemma Resolve_split: "Resolve idna lookup g raw = (case resolve_name idna g raw of
    Inl err \<Rightarrow> Inl err
  | Inr (parsed, host, port) \<Rightarrow> (case target_addresses lookup host of
      Inl err \<Rightarrow> Inl err
    | Inr addresses \<Rightarrow> if list_ex hardDenied (map Unmap addresses) then Inl ''target address is always denied''
       else Inr \<lparr>t_url = parsed\<lparr>u_host := canonical_host (u_scheme parsed) host port, u_fragment := []\<rparr>,
         t_addresses = map Unmap addresses, t_port = port\<rparr>))"
  by (simp add: Resolve_def resolve_name_def Let_def split: option.split sum.split)

lemma GuardResolve_spec:
  "wp (GuardResolve E g raw) (\<lambda>r w'. w_db w' = w_db w \<and> r = Resolve (e_idna E) (e_lookup E (w_tick w)) g raw) w"
proof (cases "resolve_name (e_idna E) g raw")
  case (Inl e) then show ?thesis by (simp add: GuardResolve_def step_simps Resolve_split)
next
  case (Inr x)
  obtain parsed host port where x: "x = (parsed, host, port)" by (cases x)
  show ?thesis
    unfolding GuardResolve_def Inr x wp_ok_or wp_return sum.case prod.case
    by (rule wp_mono [OF wp_addresses_of]) (auto simp: Resolve_split Inr x wp_return split: sum.split)
qed

definition authorize :: "env \<Rightarrow> service \<Rightarrow> uuid \<Rightarrow> string \<Rightarrow> (target \<times> decision) result prog" where
  "authorize E s userID raw = ok_or (GuardResolve E (sv_guard s) raw) (\<lambda>target.
     ok_or (Effective E userID) (\<lambda>policies.
     State_Monad.return (Inr (target, Evaluate policies (t_url target) (t_addresses target)))))"

definition audit :: "env \<Rightarrow> uuid \<Rightarrow> string \<Rightarrow> string \<Rightarrow> string \<Rightarrow> unit prog" where
  "audit E userID eventType target outcome =
    (let safe = (case url_parse target of
         Some parsed \<Rightarrow> if IsAbs parsed then url_string (parsed\<lparr>u_rawquery := [], u_fragment := []\<rparr>) else target
       | None \<Rightarrow> target)
     in Audit E (Some userID) eventType outcome safe)"

section \<open>URLs of routes\<close>

definition querySuffix :: "string \<Rightarrow> string" where
  "querySuffix value = (if value = [] then [] else ''?'' @ value)"

definition hostWithPort :: "string \<Rightarrow> int \<Rightarrow> string \<Rightarrow> string" where
  "hostWithPort host port scheme =
    (if scheme = ''http'' \<and> port = 80 \<or> scheme = ''https'' \<and> port = 443 then host else JoinHostPort host (itoa_int port))"

definition hostname :: "string \<Rightarrow> string" where
  "hostname value = (case SplitHostPort value of Some (host, _) \<Rightarrow> host | None \<Rightarrow> TrimSuffix value ''.'')"

definition bootstrapURL :: "service \<Rightarrow> string \<Rightarrow> string" where
  "bootstrapURL s ticket = u_scheme (sv_app s) @ ''://bootstrap.'' @ sv_domain s @ ''/__tvpn/bootstrap?ticket='' @ QueryEscape ticket"

definition routeURL :: "env \<Rightarrow> service \<Rightarrow> route \<Rightarrow> url \<Rightarrow> string" where
  "routeURL E s rt target = u_scheme (sv_app s) @ ''://'' @ routeLabel E (rt_id rt) @ ''.'' @ sv_domain s
     @ EscapedPath target @ querySuffix (u_rawquery target)"

text \<open>The host of a proxied origin below the base domain, and the label it starts with.\<close>

definition proxy_label :: "service \<Rightarrow> url \<Rightarrow> string option" where
  "proxy_label s parsed =
    (let host = ToLower (Hostname parsed); base = ToLower (hostname (sv_domain s))
     in if \<not> HasSuffix host (''.'' @ base) then None else Some (TrimSuffix host (''.'' @ base)))"

text \<open>The zero context stands for any context, as \<open>Route{}\<close> does in the code.\<close>

definition any_route :: route where
  "any_route = \<lparr>rt_id = uuid_Nil, rt_context = uuid_Nil, rt_user = uuid_Nil, rt_scheme = [], rt_host = [], rt_port = 0, rt_url = [],
     rt_upstream = None, rt_compat = False\<rparr>"

definition mapProxyURLForContext :: "env \<Rightarrow> service \<Rightarrow> route \<Rightarrow> string \<Rightarrow> string option prog" where
  "mapProxyURLForContext E s current value = (case url_parse value of
     None \<Rightarrow> State_Monad.return None
   | Some parsed \<Rightarrow> (case proxy_label s parsed of
       None \<Rightarrow> State_Monad.return None
     | Some label \<Rightarrow> do {
         found \<leftarrow> RouteByLabel E label;
         State_Monad.return (case found of
           Inl _ \<Rightarrow> None
         | Inr rt \<Rightarrow>
             if rt_context current \<noteq> uuid_Nil \<and> (rt_context rt \<noteq> rt_context current \<or> rt_user rt \<noteq> rt_user current) then None
             else Some (url_string (parsed\<lparr>u_scheme := rt_scheme rt, u_host := hostWithPort (rt_host rt) (rt_port rt) (rt_scheme rt)\<rparr>)))}))"

definition mapProxyURL :: "env \<Rightarrow> service \<Rightarrow> string \<Rightarrow> string option prog" where
  "mapProxyURL E s value = mapProxyURLForContext E s any_route value"

definition normalizeClientURL :: "env \<Rightarrow> service \<Rightarrow> route \<Rightarrow> string \<Rightarrow> string prog" where
  "normalizeClientURL E s current value = (case url_parse value of
     None \<Rightarrow> State_Monad.return value
   | Some parsed \<Rightarrow> (case proxy_label s parsed of
       None \<Rightarrow> State_Monad.return value
     | Some label \<Rightarrow> do {
         found \<leftarrow> RouteByLabel E label;
         State_Monad.return (case found of
           Inl _ \<Rightarrow> value
         | Inr rt \<Rightarrow>
             if rt_context rt \<noteq> rt_context current \<or> rt_user rt \<noteq> rt_user current then value
             else let websocket = (u_scheme parsed = ''ws'' \<or> u_scheme parsed = ''wss'');
                scheme = (if websocket then (if rt_scheme rt = ''https'' then ''wss'' else ''ws'') else rt_scheme rt)
               in url_string (parsed\<lparr>u_scheme := scheme, u_host := hostWithPort (rt_host rt) (rt_port rt) (rt_scheme rt)\<rparr>))}))"

section \<open>The connection\<close>

text \<open>
  Which connection a request of a route leaves on, decided anew for each request: straight to the
  first checked address, or through the upstream proxy, which is asked for that address.
\<close>

definition pinned_address :: "target \<Rightarrow> string" where
  "pinned_address t = JoinHostPort (addr_string (hd (t_addresses t))) (itoa_int (t_port t))"

definition url_credentials :: "url \<Rightarrow> (string \<times> string) option" where
  "url_credentials u = (case u_user u of
     None \<Rightarrow> None | Some (User name) \<Rightarrow> Some (name, []) | Some (UserPassword name password) \<Rightarrow> Some (name, password))"

definition upstream_dial :: "env \<Rightarrow> service \<Rightarrow> upstream \<Rightarrow> string \<Rightarrow> dial result" where
  "upstream_dial E s u pinned = (case ProxyURL E (sv_cipher s) u of
     Inl err \<Rightarrow> Inl err
   | Inr proxyURL \<Rightarrow>
       if ux_type u = UpstreamHTTP then Inr (DialHTTPProxy (u_host proxyURL) (url_credentials proxyURL) pinned)
       else if ux_type u = UpstreamSOCKS5 then
         (if ux_username u = [] then Inr (DialSOCKS5 (u_host proxyURL) None pinned)
          else (case Password E (sv_cipher s) u of
              Inl err \<Rightarrow> Inl err
            | Inr password \<Rightarrow> Inr (DialSOCKS5 (u_host proxyURL) (Some (ux_username u, password)) pinned)))
       else Inl ''unsupported upstream proxy type'')"

definition make_transport :: "env \<Rightarrow> service \<Rightarrow> target \<Rightarrow> route \<Rightarrow> transport result prog" where
  "make_transport E s t rt =
    (let pinned = pinned_address t; name = Hostname (t_url t) in
     case rt_upstream rt of
       None \<Rightarrow> ok_or (DirectAllowed E (rt_user rt)) (\<lambda>allowed.
         State_Monad.return (if \<not> allowed then Inl ''direct access authorization revoked''
           else Inr \<lparr>tr_dial = DialDirect pinned, tr_server_name = name\<rparr>))
     | Some i \<Rightarrow> ok_or (Authorized E (rt_user rt) i) (\<lambda>u.
         State_Monad.return (case upstream_dial E s u pinned of
           Inl err \<Rightarrow> Inl err
         | Inr d \<Rightarrow> Inr \<lparr>tr_dial = d, tr_server_name = name\<rparr>)))"

text \<open>The \<open>CONNECT\<close> request that asks an HTTP proxy for the address.\<close>

definition connect_request :: "(string \<times> string) option \<Rightarrow> string \<Rightarrow> request" where
  "connect_request creds address = \<lparr>rq_method = ''CONNECT'', rq_url = empty_url\<lparr>u_opaque := address\<rparr>, rq_host = address,
     rq_header = (case creds of
         None \<Rightarrow> (\<lambda>_. None)
       | Some (name, password) \<Rightarrow> hSet ''Proxy-Authorization'' (''Basic '' @ Std_Encode (name @ '':'' @ password)) (\<lambda>_. None)),
     rq_body = []\<rparr>"

definition connect_accepted :: "nat \<Rightarrow> bool" where
  "connect_accepted status \<longleftrightarrow> \<not> (status < 200 \<or> 300 \<le> status)"

section \<open>Headers\<close>

definition hop_headers :: "string list" where
  "hop_headers = [''Connection'', ''Proxy-Connection'', ''Keep-Alive'', ''Proxy-Authenticate'', ''Proxy-Authorization'', ''TE'',
     ''Trailer'', ''Transfer-Encoding'', ''Upgrade'']"

definition stripHopHeaders :: "header \<Rightarrow> header" where
  "stripHopHeaders h = fold hDel hop_headers
     (fold (\<lambda>line. fold (\<lambda>name. hDel (TrimSpace name)) (Split line CHR '','')) (Values h ''Connection'') h)"

definition isHopHeader :: "string \<Rightarrow> bool" where
  "isHopHeader value \<longleftrightarrow> value \<in> set [''Connection'', ''Proxy-Connection'', ''Keep-Alive'', ''Proxy-Authenticate'', ''Proxy-Authorization'',
     ''Te'', ''Trailer'', ''Transfer-Encoding'', ''Upgrade'']"

text \<open>The keys of the header map of a response are canonical, so one pass over them adds each once.\<close>

definition kept_from_browser :: "string \<Rightarrow> bool" where
  "kept_from_browser name \<longleftrightarrow> name = ''Set-Cookie'' \<or> name = ''Content-Security-Policy'' \<or> name = ''Content-Security-Policy-Report-Only''
     \<or> name = ''X-Frame-Options'' \<or> name = ''Tvpn-Error-Code'' \<or> isHopHeader name"

definition copyResponseHeaders :: "header \<Rightarrow> header \<Rightarrow> header" where
  "copyResponseHeaders dst src = hSet ''Referrer-Policy'' ''no-referrer'' (\<lambda>name.
     if kept_from_browser name then dst name
     else (case src name of None \<Rightarrow> dst name | Some [] \<Rightarrow> dst name
       | Some vs \<Rightarrow> Some ((case dst name of None \<Rightarrow> [] | Some old \<Rightarrow> old) @ vs)))"

definition addVary :: "string \<Rightarrow> header \<Rightarrow> header" where
  "addVary value h =
    (if list_ex (\<lambda>item. list_ex (\<lambda>field. EqualFold (TrimSpace field) value) (Split item CHR '','')) (Values h ''Vary'') then h
     else hAdd ''Vary'' value h)"

definition translateCORS :: "header \<Rightarrow> string \<Rightarrow> string \<Rightarrow> bool \<Rightarrow> header \<Rightarrow> header" where
  "translateCORS request browserOrigin upstreamOrigin compatibility response =
    (if browserOrigin = [] \<or> upstreamOrigin = [] then response
     else if \<not> compatibility then
       (if Get response ''Access-Control-Allow-Origin'' = upstreamOrigin
        then hSet ''Access-Control-Allow-Origin'' browserOrigin response else response)
     else
       (let r1 = addVary ''Origin'' (hSet ''Access-Control-Allow-Credentials'' ''true'' (hSet ''Access-Control-Allow-Origin'' browserOrigin response))
        in if Get request ''Access-Control-Request-Method'' \<noteq> [] then
             (let r2 = (if Get r1 ''Access-Control-Allow-Methods'' = []
                  then hSet ''Access-Control-Allow-Methods'' (Get request ''Access-Control-Request-Method'') r1 else r1)
              in if Get r2 ''Access-Control-Allow-Headers'' = [] \<and> Get request ''Access-Control-Request-Headers'' \<noteq> []
                 then hSet ''Access-Control-Allow-Headers'' (Get request ''Access-Control-Request-Headers'') r2 else r2)
           else r1))"

end
