(* ===== verification/Rewrite.thy ===== *)
theory Rewrite
  imports Service
begin

text \<open>
  \<open>internal/proxy/rewrite.go\<close>: the links of HTML and CSS are turned into routes of the proxy and the
  runtime is injected. The parser and the printer of \<open>x/net/html\<close> are parameters, and so is the text
  of the embedded runtime; the tree parser and printer share is a datatype with the fields the code reads.
\<close>

section \<open>The HTML tree\<close>

datatype node_kind = ElementNode | TextNode | DocumentNode | CommentNode | DoctypeNode

record attribute =
  at_namespace :: string
  at_key :: string
  at_val :: string

datatype node = Node (n_kind: node_kind) (n_namespace: string) (n_data: string) (n_attr: "attribute list") (n_children: "node list")

record html_package =
  html_parse :: "string \<Rightarrow> node option"
  html_render :: "node \<Rightarrow> string option"
  runtimeJS :: string

section \<open>URLs\<close>

text \<open>
  The schemes the code leaves alone, matched without regard to case: in Go's regular expressions the
  letter s folds with the long s (U+017F, two bytes), too.
\<close>

definition plain_s :: "string \<Rightarrow> string" where
  "plain_s s = ReplaceAll s [CHR 0xC5, CHR 0xBF] ''s''"

definition opaque_scheme :: "string \<Rightarrow> bool" where
  "opaque_scheme raw \<longleftrightarrow>
     list_ex (\<lambda>scheme. HasPrefix (ToLower (plain_s raw)) (scheme @ '':'')) [''data'', ''blob'', ''javascript'', ''mailto'', ''tel'']"

definition fragment_suffix :: "string \<Rightarrow> string" where
  "fragment_suffix fragment = (if fragment = [] then [] else ''#'' @ PathEscape fragment)"

definition rewriteURL :: "env \<Rightarrow> service \<Rightarrow> route \<Rightarrow> url \<Rightarrow> string \<Rightarrow> string prog" where
  "rewriteURL E s rt base value =
    (let raw = TrimSpace value in
     if raw = [] \<or> HasPrefix raw ''#'' \<or> opaque_scheme raw then State_Monad.return raw
     else (case url_parse_ref base raw of
         None \<Rightarrow> State_Monad.return ''about:blank''
       | Some parsed \<Rightarrow>
           if \<not> (u_scheme parsed = ''http'' \<or> u_scheme parsed = ''https'') then State_Monad.return ''about:blank''
           else
             (let fragment = u_fragment parsed; resolved = parsed\<lparr>u_fragment := []\<rparr> in
              if EqualFold (u_scheme resolved) (u_scheme base) \<and> EqualFold (u_host resolved) (u_host base)
              then State_Monad.return (EscapedPath resolved @ querySuffix (u_rawquery resolved) @ fragment_suffix fragment)
              else do {
                mapped \<leftarrow> ResolveRoute E (rt_context rt) (rt_user rt) resolved;
                State_Monad.return (case mapped of
                    Inl _ \<Rightarrow> ''about:blank''
                  | Inr m \<Rightarrow> routeURL E s m resolved @ fragment_suffix fragment)})))"

section \<open>Style sheets\<close>

text \<open>
  The pattern \<open>url\(\s*(['"]?)([^'"\)]+)['"]?\s*\)\<close>. A matcher that prefers the leftmost and first
  alternative tries the greedy choices in the order of \<open>css_candidates\<close>, and the first one is the match.
\<close>

definition re_space :: "char \<Rightarrow> bool" where
  "re_space c \<longleftrightarrow> code c \<in> {9, 10, 12, 13, 32}"

definition re_quote :: "char \<Rightarrow> bool" where
  "re_quote c \<longleftrightarrow> code c = 34 \<or> code c = 39"

definition re_url_char :: "char \<Rightarrow> bool" where
  "re_url_char c \<longleftrightarrow> \<not> re_quote c \<and> c \<noteq> CHR '')''"

definition greedy :: "(char \<Rightarrow> bool) \<Rightarrow> string \<Rightarrow> nat list" where
  "greedy P s = rev [0..<Suc (length (takeWhile P s))]"

definition optional_quote :: "string \<Rightarrow> (string \<times> string) list" where
  "optional_quote s = (case s of [] \<Rightarrow> [([], s)] | c # t \<Rightarrow> if re_quote c then [([c], t), ([], s)] else [([], s)])"

definition css_candidates :: "string \<Rightarrow> (string \<times> string \<times> string) list" where
  "css_candidates s =
    [(q, take n b, drop 1 (drop v c)).
       w \<leftarrow> greedy re_space s,
       (q, b) \<leftarrow> optional_quote (drop w s),
       n \<leftarrow> greedy re_url_char b, 0 < n,
       (_, c) \<leftarrow> optional_quote (drop n b),
       v \<leftarrow> greedy re_space c, HasPrefix (drop v c) '')'']"

definition css_match :: "string \<Rightarrow> (string \<times> string \<times> string) option" where
  "css_match s = (if HasPrefix (ToLower s) ''url('' then
     (case css_candidates (drop 4 s) of [] \<Rightarrow> None | m # _ \<Rightarrow> Some m) else None)"

datatype css_part = Css_Char char | Css_Url string string

lemma optional_quote_shorter: "(q, b) \<in> set (optional_quote s) \<Longrightarrow> length b \<le> length s"
  by (cases s) (auto simp: optional_quote_def split: if_splits)

lemma css_candidate_shorter:
  assumes "(q, u, rest) \<in> set (css_candidates s)" shows "length rest \<le> length s"
proof -
  from assms obtain w b n q2 c v where "(q, b) \<in> set (optional_quote (drop w s))"
    "(q2, c) \<in> set (optional_quote (drop n b))" "rest = drop 1 (drop v c)"
    unfolding css_candidates_def by auto
  from optional_quote_shorter [OF this(1)] optional_quote_shorter [OF this(2)] this(3) show ?thesis by simp
qed

lemma css_match_shorter: "css_match (c # s) = Some (q, u, rest) \<Longrightarrow> length rest \<le> length s"
proof -
  assume "css_match (c # s) = Some (q, u, rest)"
  then have "(q, u, rest) \<in> set (css_candidates (drop 4 (c # s)))"
    by (auto simp: css_match_def split: if_splits list.splits)
  from css_candidate_shorter [OF this] show ?thesis by simp
qed

function css_parts :: "string \<Rightarrow> css_part list" where
  "css_parts [] = []"
| "css_parts (c # s) = (case css_match (c # s) of
     None \<Rightarrow> Css_Char c # css_parts s
   | Some (q, u, rest) \<Rightarrow> Css_Url q u # css_parts rest)"
  by pat_completeness auto
termination
proof (relation "measure length")
  fix c s x q y u rest
  assume "css_match (c # s) = Some x" "(q, y) = x" "(u, rest) = y"
  then show "(rest, c # s) \<in> measure length"
    using css_match_shorter [of c s q u rest] by simp
qed simp_all

primrec rewrite_parts :: "env \<Rightarrow> service \<Rightarrow> route \<Rightarrow> url \<Rightarrow> css_part list \<Rightarrow> string prog" where
  "rewrite_parts E s rt base [] = State_Monad.return []"
| "rewrite_parts E s rt base (p # ps) = do {
     text \<leftarrow> (case p of
         Css_Char c \<Rightarrow> State_Monad.return [c]
       | Css_Url q u \<Rightarrow> do { rewritten \<leftarrow> rewriteURL E s rt base u; State_Monad.return (''url('' @ q @ rewritten @ q @ '')'') });
     more \<leftarrow> rewrite_parts E s rt base ps;
     State_Monad.return (text @ more) }"

definition rewriteCSS :: "env \<Rightarrow> service \<Rightarrow> route \<Rightarrow> url \<Rightarrow> string \<Rightarrow> string prog" where
  "rewriteCSS E s rt base value = rewrite_parts E s rt base (css_parts value)"

section \<open>Elements\<close>

definition url_attributes :: "string list" where
  "url_attributes = [''href'', ''src'', ''action'', ''formaction'', ''poster'', ''data'', ''cite'', ''background'', ''manifest'']"

primrec rewrite_srcset :: "env \<Rightarrow> service \<Rightarrow> route \<Rightarrow> url \<Rightarrow> string list \<Rightarrow> string list prog" where
  "rewrite_srcset E s rt base [] = State_Monad.return []"
| "rewrite_srcset E s rt base (part # parts) = do {
     part' \<leftarrow> (case Fields (TrimSpace part) of
         [] \<Rightarrow> State_Monad.return part
       | f # fs \<Rightarrow> do { f' \<leftarrow> rewriteURL E s rt base f; State_Monad.return (Join (f' # fs) '' '') });
     parts' \<leftarrow> rewrite_srcset E s rt base parts;
     State_Monad.return (part' # parts') }"

definition rewrite_value :: "env \<Rightarrow> service \<Rightarrow> route \<Rightarrow> url \<Rightarrow> string \<Rightarrow> string \<Rightarrow> string prog" where
  "rewrite_value E s rt base key value =
    (if key \<in> set url_attributes then rewriteURL E s rt base value
     else if key = ''style'' then rewriteCSS E s rt base value
     else if key = ''srcset'' then do {
       parts \<leftarrow> rewrite_srcset E s rt base (Split value CHR '','');
       State_Monad.return (Join parts '', '') }
     else State_Monad.return value)"

primrec rewrite_attrs :: "env \<Rightarrow> service \<Rightarrow> route \<Rightarrow> url \<Rightarrow> attribute list \<Rightarrow> attribute list prog" where
  "rewrite_attrs E s rt base [] = State_Monad.return []"
| "rewrite_attrs E s rt base (a # as) =
    (if at_key a = ''integrity'' then rewrite_attrs E s rt base as
     else do {
       v \<leftarrow> rewrite_value E s rt base (at_key a) (at_val a);
       as' \<leftarrow> rewrite_attrs E s rt base as;
       State_Monad.return (a\<lparr>at_val := v\<rparr> # as') })"

text \<open>The position of the last attribute that satisfies a test.\<close>

definition last_index :: "(attribute \<Rightarrow> bool) \<Rightarrow> attribute list \<Rightarrow> nat option" where
  "last_index P as = (case rev (filter (\<lambda>i. P (as ! i)) [0..<length as]) of [] \<Rightarrow> None | i # _ \<Rightarrow> Some i)"

definition rewrite_refresh :: "env \<Rightarrow> service \<Rightarrow> route \<Rightarrow> url \<Rightarrow> attribute list \<Rightarrow> attribute list prog" where
  "rewrite_refresh E s rt base as =
    (case (last_index (\<lambda>a. EqualFold (at_key a) ''http-equiv'') as, last_index (\<lambda>a. at_key a = ''content'') as) of
       (Some e, Some content) \<Rightarrow>
         if EqualFold (at_val (as ! e)) ''refresh'' then
           (let value = at_val (as ! content) in
            case Index (ToLower value) ''url='' of
              None \<Rightarrow> State_Monad.return as
            | Some index \<Rightarrow> do {
                target \<leftarrow> rewriteURL E s rt base (TrimSpace (drop (index + 4) value));
                State_Monad.return (as[content := (as ! content)\<lparr>at_val := take (index + 4) value @ target\<rparr>]) })
         else State_Monad.return as
     | _ \<Rightarrow> State_Monad.return as)"

definition rewriteElement :: "env \<Rightarrow> service \<Rightarrow> route \<Rightarrow> url \<Rightarrow> string \<Rightarrow> attribute list \<Rightarrow> attribute list prog" where
  "rewriteElement E s rt base data as = do {
     filtered \<leftarrow> rewrite_attrs E s rt base as;
     (if data = ''meta'' then rewrite_refresh E s rt base filtered else State_Monad.return filtered) }"

section \<open>Documents\<close>

text \<open>The walk visits a node before its children and the children in order.\<close>

fun walk :: "(string \<Rightarrow> attribute list \<Rightarrow> attribute list prog) \<Rightarrow> node \<Rightarrow> node prog"
  and walk_list :: "(string \<Rightarrow> attribute list \<Rightarrow> attribute list prog) \<Rightarrow> node list \<Rightarrow> node list prog" where
  "walk f (Node k ns d as cs) = do {
     as' \<leftarrow> (if k = ElementNode then f d as else State_Monad.return as);
     cs' \<leftarrow> walk_list f cs;
     State_Monad.return (Node k ns d as' cs') }"
| "walk_list f [] = State_Monad.return []"
| "walk_list f (c # cs) = do {
     c' \<leftarrow> walk f c;
     cs' \<leftarrow> walk_list f cs;
     State_Monad.return (c' # cs') }"

text \<open>The first \<open>head\<close> element the walk meets gets the new nodes in front of its children.\<close>

fun insert_head :: "node list \<Rightarrow> node \<Rightarrow> node option"
  and insert_head_list :: "node list \<Rightarrow> node list \<Rightarrow> node list option" where
  "insert_head new (Node k ns d as cs) =
    (if k = ElementNode \<and> d = ''head'' then Some (Node k ns d as (new @ cs))
     else map_option (Node k ns d as) (insert_head_list new cs))"
| "insert_head_list new [] = None"
| "insert_head_list new (c # cs) = (case insert_head new c of
     Some c' \<Rightarrow> Some (c' # cs)
   | None \<Rightarrow> map_option ((#) c) (insert_head_list new cs))"

text \<open>
  \<open>json.Marshal\<close> of a string: besides quotes, backslashes and control characters it escapes the
  characters that are special in HTML, the line separators U+2028 and U+2029, and replaces bytes
  that are no UTF-8. \<open>rune_length\<close> is the length of the encoded rune a string starts with.
\<close>

definition continuation :: "nat \<Rightarrow> nat \<Rightarrow> char \<Rightarrow> bool" where
  "continuation lo hi c \<longleftrightarrow> lo \<le> code c \<and> code c \<le> hi"

fun rune_length :: "string \<Rightarrow> nat" where
  "rune_length [] = 0"
| "rune_length (a # s) =
    (let n = code a; tail = continuation 128 191 in
     if n < 128 then 1
     else case s of
       [] \<Rightarrow> 0
     | b # s2 \<Rightarrow>
        if 194 \<le> n \<and> n \<le> 223 then (if tail b then 2 else 0)
        else (case s2 of
           [] \<Rightarrow> 0
         | c # s3 \<Rightarrow>
            if 224 \<le> n \<and> n \<le> 239 then
              (if continuation (if n = 224 then 160 else 128) (if n = 237 then 159 else 191) b \<and> tail c then 3 else 0)
            else (case s3 of
               [] \<Rightarrow> 0
             | d # _ \<Rightarrow> if 240 \<le> n \<and> n \<le> 244
                   \<and> continuation (if n = 240 then 144 else 128) (if n = 244 then 143 else 191) b \<and> tail c \<and> tail d
                 then 4 else 0)))"

definition json_escape :: "string \<Rightarrow> string" where
  "json_escape s = CHR 0x5C # s"

definition json_ascii :: "char \<Rightarrow> string" where
  "json_ascii c =
    (let n = code c in
     if n = 34 \<or> n = 92 then json_escape [c]
     else if n = 8 then json_escape ''b'' else if n = 12 then json_escape ''f''
     else if n = 10 then json_escape ''n'' else if n = 13 then json_escape ''r'' else if n = 9 then json_escape ''t''
     else if n < 32 \<or> n = 60 \<or> n = 62 \<or> n = 38 then json_escape (''u00'' @ [hex_digit (n div 16), hex_digit (n mod 16)])
     else [c])"

function json_text :: "string \<Rightarrow> string" where
  "json_text [] = []"
| "json_text (c # s) =
    (if rune_length (c # s) = 0 then json_escape ''ufffd'' @ json_text s
     else if rune_length (c # s) = 1 then json_ascii c @ json_text s
     else (let r = take (rune_length (c # s)) (c # s) in
       (if r = [CHR 0xE2, CHR 0x80, CHR 0xA8] then json_escape ''u2028''
        else if r = [CHR 0xE2, CHR 0x80, CHR 0xA9] then json_escape ''u2029'' else r)
       @ json_text (drop (rune_length (c # s)) (c # s))))"
  by pat_completeness auto
termination by (relation "measure length") (auto simp del: rune_length.simps)

definition json_string :: "string \<Rightarrow> string" where
  "json_string s = [CHR 0x22] @ json_text s @ [CHR 0x22]"

definition config_text :: "env \<Rightarrow> service \<Rightarrow> route \<Rightarrow> url \<Rightarrow> cookie list \<Rightarrow> string" where
  "config_text E s rt target cookies =
    (let field = (\<lambda>name value. json_string name @ '':'' @ value) in
     ''{'' @ Join
       [field ''appOrigin'' (json_string (url_string (sv_app s))),
        field ''compatibilityMode'' (if rt_compat rt then ''true'' else ''false''),
        field ''contextID'' (json_string (e_uuid_string E (rt_context rt))),
        field ''cookies'' (json_string (Join (map (\<lambda>c. ck_name c @ ''='' @ ck_value c) cookies) ''; '')),
        field ''proxyBaseDomain'' (json_string (sv_domain s)),
        field ''upstreamURL'' (json_string (url_string target))] '','' @ ''}'')"

definition config_node :: "env \<Rightarrow> service \<Rightarrow> route \<Rightarrow> url \<Rightarrow> cookie list \<Rightarrow> node" where
  "config_node E s rt target cookies = Node ElementNode [] ''script'' []
     [Node TextNode [] (''window.__TVPN_CONFIG__='' @ config_text E s rt target cookies @ '';'') [] []]"

definition runtime_node :: node where
  "runtime_node = Node ElementNode [] ''script'' [\<lparr>at_namespace = [], at_key = ''src'', at_val = ''/__tvpn/runtime.js''\<rparr>] []"

definition rewriteHTML :: "env \<Rightarrow> html_package \<Rightarrow> service \<Rightarrow> route \<Rightarrow> url \<Rightarrow> string \<Rightarrow> string result prog" where
  "rewriteHTML E P s rt target raw = (case html_parse P raw of
     None \<Rightarrow> State_Monad.return (Inl ''html: parse error'')
   | Some document \<Rightarrow> do {
       walked \<leftarrow> walk (rewriteElement E s rt target) document;
       (if insert_head [] walked = None then State_Monad.return (Inl ''HTML document has no head'')
        else ok_or (VisibleCookies E (sv_cipher s) (rt_context rt) target) (\<lambda>cookies.
          State_Monad.return (case insert_head [config_node E s rt target cookies, runtime_node] walked of
             None \<Rightarrow> Inl ''HTML document has no head''
           | Some injected \<Rightarrow> (case html_render P injected of
               None \<Rightarrow> Inl ''html: render error''
             | Some text \<Rightarrow> Inr text)))) })"

definition maxRewriteBody :: nat where
  "maxRewriteBody = 16 * 2 ^ 20"

definition rewriteResponse :: "env \<Rightarrow> html_package \<Rightarrow> service \<Rightarrow> route \<Rightarrow> url \<Rightarrow> string \<Rightarrow> response \<Rightarrow> string result prog" where
  "rewriteResponse E P s rt target contentType response = do {
    (arrived, whole) \<leftarrow> read_body E response;
    (let raw = take (maxRewriteBody + 1) arrived in
     if \<not> whole \<and> length arrived \<le> maxRewriteBody then State_Monad.return (Inl ''unexpected EOF'')
     else if maxRewriteBody < length raw then State_Monad.return (Inl ''rewritable response exceeds 16 MiB'')
     else if Contains (ToLower contentType) ''text/html'' then rewriteHTML E P s rt target raw
     else if Contains (ToLower contentType) ''text/css'' then do {
       text \<leftarrow> rewriteCSS E s rt target raw;
       State_Monad.return (Inr text) }
     else State_Monad.return (Inr raw)) }"

section \<open>The injected configuration\<close>

definition safe_char :: "char \<Rightarrow> bool" where
  "safe_char c \<longleftrightarrow> 32 \<le> code c \<and> c \<noteq> CHR ''<'' \<and> c \<noteq> CHR ''>'' \<and> c \<noteq> CHR ''&''"

lemma safe_char_code: "safe_char c \<longleftrightarrow> 32 \<le> code c \<and> code c \<noteq> 60 \<and> code c \<noteq> 62 \<and> code c \<noteq> 38"
proof -
  have "code (CHR ''<'') = 60" "code (CHR ''>'') = 62" "code (CHR ''&'') = 38" by (simp_all add: code_def)
  then show ?thesis unfolding safe_char_def by (metis code_inject)
qed

lemma safe_literals: "safe_char CHR 0x5C" "safe_char CHR 0x22" "list_all safe_char ''bfnrtu0123456789acdefghijklmopqsvwxyzABCDEFGHIJKLMNOPQRSTUVWXYZ{};:,=_.''"
  by (simp_all add: safe_char_code code_def)

lemmas safe_letters = safe_literals(1,2) safe_literals(3) [unfolded list.pred_inject]

lemma safe_hex: "n < 16 \<Longrightarrow> safe_char (hex_digit n)"
  by (auto simp: safe_char_code hex_digit_def code_char_of)

lemma safe_ascii: "list_all safe_char (json_ascii c)"
proof -
  have "code c div 16 < 16" "code c mod 16 < 16" using code_less_256 [of c] by (simp_all add: less_mult_imp_div_less)
  then have h: "safe_char (hex_digit (code c div 16))" "safe_char (hex_digit (code c mod 16))" by (simp_all add: safe_hex)
  have "code c = 34 \<or> code c = 92 \<Longrightarrow> safe_char c" by (auto simp: safe_char_code)
  moreover have "\<not> (code c < 32 \<or> code c = 60 \<or> code c = 62 \<or> code c = 38) \<Longrightarrow> safe_char c" by (simp add: safe_char_code)
  ultimately show ?thesis using h by (simp add: json_ascii_def Let_def json_escape_def safe_letters)
qed

text \<open>The bytes of a longer rune are 0x80 and above.\<close>

lemma continuation_high: "continuation lo hi c \<Longrightarrow> 128 \<le> lo \<Longrightarrow> 128 \<le> code c"
  by (simp add: continuation_def)

lemma rune_length_cases:
  assumes "rune_length s = n" and "1 < n"
  obtains (two) a b t where "s = a # b # t" "n = 2" "128 \<le> code a" "128 \<le> code b"
  | (three) a b c t where "s = a # b # c # t" "n = 3" "128 \<le> code a" "128 \<le> code b" "128 \<le> code c"
  | (four) a b c d t where "s = a # b # c # d # t" "n = 4" "128 \<le> code a" "128 \<le> code b" "128 \<le> code c" "128 \<le> code d"
proof (cases s)
  case (Cons a s1)
  with assms obtain b s2 where b: "s1 = b # s2" "128 \<le> code a" by (cases s1) (auto simp: Let_def split: if_splits)
  show ?thesis
  proof (cases "194 \<le> code a \<and> code a \<le> 223")
    case True
    with assms Cons b show ?thesis by (intro two [of a b s2]) (auto simp: Let_def dest: continuation_high split: if_splits)
  next
    case False
    with assms Cons b obtain c s3 where c: "s2 = c # s3" by (cases s2) (auto simp: Let_def)
    show ?thesis
    proof (cases "224 \<le> code a \<and> code a \<le> 239")
      case True
      with assms Cons b c False show ?thesis
        by (intro three [of a b c s3]) (auto simp: Let_def dest!: continuation_high split: if_splits)
    next
      case False'': False
      with assms Cons b c False obtain d s4 where d: "s3 = d # s4" by (cases s3) (auto simp: Let_def)
      with assms Cons b c False False'' show ?thesis
        by (intro four [of a b c d s4]) (auto simp: Let_def dest!: continuation_high split: if_splits)
    qed
  qed
qed (use assms in simp)

lemma rune_bytes: "1 < rune_length s \<Longrightarrow> list_all (\<lambda>c. 128 \<le> code c) (take (rune_length s) s)"
  by (erule rune_length_cases [OF refl]) (simp_all del: rune_length.simps)

lemma high_bytes_safe: "list_all (\<lambda>c. 128 \<le> code c) s \<Longrightarrow> list_all safe_char s"
  by (auto simp: list_all_iff safe_char_code)

lemma safe_text: "list_all safe_char (json_text s)"
proof (induction s rule: json_text.induct)
  case (2 c s)
  have e: "list_all safe_char (json_escape ''ufffd'')" "list_all safe_char (json_escape ''u2028'')" "list_all safe_char (json_escape ''u2029'')"
    by (simp_all add: json_escape_def safe_letters)
  consider "rune_length (c # s) = 0" | "rune_length (c # s) = 1" | "1 < rune_length (c # s)" by linarith
  then show ?case
  proof cases
    case 3
    then have "list_all safe_char (take (rune_length (c # s)) (c # s))" by (intro high_bytes_safe rune_bytes)
    with 3 2(3) e show ?thesis by (simp del: rune_length.simps add: Let_def)
  qed (use 2 e safe_ascii in \<open>simp_all del: rune_length.simps\<close>)
qed simp

lemma safe_string: "list_all safe_char (json_string s)"
  by (simp add: json_string_def safe_text safe_letters)

lemma safe_Join: "(\<forall>x \<in> set xs. list_all safe_char x) \<Longrightarrow> list_all safe_char sep \<Longrightarrow> list_all safe_char (Join xs sep)"
  by (induction xs sep rule: Join.induct) auto

text \<open>
  The configuration the proxy writes into a page cannot end the script element it stands in, start
  a comment, or hold a line break: whatever the target's URL and the names and values of its cookies
  are, the text has no angle bracket, no ampersand and no control character.
\<close>

theorem config_cannot_break_out: "list_all safe_char (config_text E s rt target cookies)"
proof -
  have "list_all safe_char (''true'')" "list_all safe_char (''false'')" by (simp_all add: safe_letters)
  then show ?thesis
    by (simp add: config_text_def Let_def safe_letters safe_string safe_Join)
qed

section \<open>What the walk keeps\<close>

text \<open>The tree without the attributes, and a condition on the attributes of every element.\<close>

fun skeleton :: "node \<Rightarrow> node" where
  "skeleton (Node k ns d as cs) = Node k ns d [] (map skeleton cs)"

fun every_element :: "(attribute list \<Rightarrow> bool) \<Rightarrow> node \<Rightarrow> bool" where
  "every_element P (Node k ns d as cs) \<longleftrightarrow> (k = ElementNode \<longrightarrow> P as) \<and> list_all (every_element P) cs"

lemma walk_shape:
  fixes f :: "string \<Rightarrow> attribute list \<Rightarrow> attribute list prog"
  assumes f: "\<And>d as w. wp (f d as) (\<lambda>as' _. P as') w"
  shows "wp (walk f t) (\<lambda>t' _. skeleton t' = skeleton t \<and> every_element P t') w"
    and "wp (walk_list f ts) (\<lambda>ts' _. map skeleton ts' = map skeleton ts \<and> list_all (every_element P) ts') w"
  using f
proof (induction f t and f ts arbitrary: w and w rule: walk_walk_list.induct)
  case (1 f k ns d as cs)
  have "wp (if k = ElementNode then f d as else State_Monad.return as) (\<lambda>as' _. k = ElementNode \<longrightarrow> P as') v" for v
    using 1(2) by (auto simp: wp_return intro: wp_weaken)
  then show ?case unfolding walk.simps wp_bind
    by (rule wp_weaken) (auto simp: wp_return intro!: wp_weaken [OF 1(1) [OF 1(2)]])
next
  case (2 f)
  show ?case by (simp add: wp_return)
next
  case (3 f c cs)
  then show ?case by (auto simp: wp_bind wp_return intro!: wp_weaken [OF 3(1)] wp_weaken [OF 3(2)])
qed

definition no_integrity :: "attribute list \<Rightarrow> bool" where
  "no_integrity as \<longleftrightarrow> list_all (\<lambda>k. k \<noteq> ''integrity'') (map at_key as)"

lemma rewrite_attrs_integrity: "wp (rewrite_attrs E s rt base as) (\<lambda>as' _. no_integrity as') w"
proof (induction as arbitrary: w)
  case (Cons a as)
  have "wp (rewrite_attrs E s rt base as) (\<lambda>as' _. no_integrity (a\<lparr>at_val := v\<rparr> # as')) w"
    if "at_key a \<noteq> ''integrity''" for v w
    by (rule wp_weaken [OF Cons]) (use that in \<open>simp add: no_integrity_def\<close>)
  then have "wp (rewrite_value E s rt base k x) (\<lambda>v. wp (rewrite_attrs E s rt base as) (\<lambda>as' _. no_integrity (a\<lparr>at_val := v\<rparr> # as'))) w"
    if "at_key a \<noteq> ''integrity''" for k x
    by (rule wp_any) (rule that)
  then show ?case using Cons by (simp add: wp_fun)
qed (simp add: wp_return no_integrity_def)

lemma rewrite_refresh_keys: "wp (rewrite_refresh E s rt base as) (\<lambda>as' _. map at_key as' = map at_key as) w"
proof -
  have k: "map at_key (as[i := (as ! i)\<lparr>at_val := v\<rparr>]) = map at_key as" for i v
    by (cases "i < length as") (auto intro!: nth_equalityI simp: nth_list_update list_update_beyond)
  show ?thesis
    by (auto simp: rewrite_refresh_def Let_def wp_bind wp_return k intro!: wp_any [where p = "rewriteURL _ _ _ _ _"] split: option.split)
qed

lemma rewriteElement_integrity: "wp (rewriteElement E s rt base d as) (\<lambda>as' _. no_integrity as') w"
proof -
  have "wp (if d = ''meta'' then rewrite_refresh E s rt base x else State_Monad.return x) (\<lambda>as' _. no_integrity as') v"
    if "no_integrity x" for x v
    using that by (auto simp: wp_return no_integrity_def intro!: wp_weaken [OF rewrite_refresh_keys])
  then show ?thesis unfolding rewriteElement_def wp_bind by (rule wp_weaken [OF rewrite_attrs_integrity])
qed

text \<open>What is returned is printed from the walked tree with the two scripts first in its head.\<close>

definition injected_page :: "env \<Rightarrow> html_package \<Rightarrow> service \<Rightarrow> route \<Rightarrow> url \<Rightarrow> string \<Rightarrow> string \<Rightarrow> bool" where
  "injected_page E P s rt target raw text \<longleftrightarrow> (\<exists>document walked cookies injected.
     html_parse P raw = Some document \<and> skeleton walked = skeleton document \<and> every_element no_integrity walked
     \<and> insert_head [config_node E s rt target cookies, runtime_node] walked = Some injected
     \<and> html_render P injected = Some text)"

text \<open>
  C35: A rewritten page is the target's page: the tree that is printed has the elements, texts and
  comments of the parsed document in their places; only attributes differ, no element keeps a
  subresource integrity attribute that the rewriting would have invalidated, and the configuration and
  the runtime come first in the head, before any script of the page. A page without a head is refused.
\<close>

theorem rewritten_page_is_the_page:
  "wp (rewriteHTML E P s rt target raw) (\<lambda>r _. case r of Inl _ \<Rightarrow> True | Inr text \<Rightarrow> injected_page E P s rt target raw text) w"
proof (cases "html_parse P raw")
  case (Some document)
  note walked = walk_shape(1) [of "rewriteElement E s rt target" no_integrity document, OF rewriteElement_integrity]
  have page: "injected_page E P s rt target raw out"
    if "skeleton t = skeleton document" "every_element no_integrity t"
      "insert_head [config_node E s rt target cookies, runtime_node] t = Some i" "html_render P i = Some out" for t cookies i out
    unfolding injected_page_def using Some that by blast
  have "wp (ok_or (VisibleCookies E (sv_cipher s) (rt_context rt) target) (\<lambda>cookies.
          State_Monad.return (case insert_head [config_node E s rt target cookies, runtime_node] t of
             None \<Rightarrow> Inl ''HTML document has no head''
           | Some injected \<Rightarrow> (case html_render P injected of
               None \<Rightarrow> Inl ''html: render error''
             | Some text \<Rightarrow> Inr text))))
       (\<lambda>r _. case r of Inl _ \<Rightarrow> True | Inr text \<Rightarrow> injected_page E P s rt target raw text) v"
    if "skeleton t = skeleton document" "every_element no_integrity t" for t v
    unfolding wp_ok_or by (rule wp_any) (simp add: wp_return page [OF that] split: sum.split option.split)
  then show ?thesis using Some
    by (auto simp: rewriteHTML_def wp_bind wp_return intro!: wp_weaken [OF walked])
qed (simp add: rewriteHTML_def wp_return)

section \<open>Links to another origin\<close>

definition leaves_origin :: "url \<Rightarrow> url \<Rightarrow> bool" where
  "leaves_origin base u \<longleftrightarrow> \<not> (EqualFold (u_scheme u) (u_scheme base) \<and> EqualFold (u_host u) (u_host base))"

text \<open>A link to another origin, written as a URL below the host of a route.\<close>

definition below_label :: "service \<Rightarrow> string \<Rightarrow> url \<Rightarrow> string" where
  "below_label s label u = u_scheme (sv_app s) @ ''://'' @ label @ ''.'' @ sv_domain s @ EscapedPath u @ querySuffix (u_rawquery u)
     @ fragment_suffix (u_fragment u)"

definition sample_service :: service where
  "sample_service = \<lparr>sv_guard = sample_guard, sv_cipher = ''k'', sv_app = empty_url\<lparr>u_scheme := ''https'', u_host := ''app.example.org''\<rparr>,
     sv_domain = ''proxy.example.org'', sv_secure = True, sv_ttl = 3600 * second\<rparr>"

definition sample_page :: url where
  "sample_page = empty_url\<lparr>u_scheme := ''https'', u_host := ''site.example.com'', u_path := ''/a''\<rparr>"

definition sample_link :: string where
  "sample_link = '' https://db.example.com/x?q=1''"

definition sample_linked :: url where
  "sample_linked = empty_url\<lparr>u_scheme := ''https'', u_host := ''db.example.com'', u_path := ''/x'', u_rawquery := ''q=1''\<rparr>"

lemma sample_trim: "TrimSpace sample_link = ''https://db.example.com/x?q=1''"
  by code_simp

lemma sample_linked_parse: "url_parse_ref sample_page (TrimSpace sample_link) = Some sample_linked"
  by code_simp

lemma sample_not_opaque: "\<not> opaque_scheme (TrimSpace sample_link)" "\<not> HasPrefix (TrimSpace sample_link) ''#''"
  by code_simp+

lemma sample_leaves: "leaves_origin sample_page sample_linked"
  by code_simp

definition sample_out :: string where
  "sample_out = below_label sample_service (routeLabel sample_env 102) sample_linked"

lemma sample_label: "routeURL sample_env sample_service sample_route (sample_linked\<lparr>u_fragment := []\<rparr>) @ fragment_suffix (u_fragment sample_linked) = sample_out"
  by (simp add: sample_out_def below_label_def routeURL_def sample_route_def EscapedPath_def)

lemma sample_rewrite: "\<exists>w1. run_state (rewriteURL sample_env sample_service sample_route sample_page sample_link) (sample_world ticket_db) = (sample_out, w1)"
proof -
  have "wp (ResolveRoute sample_env 5 1 (sample_linked\<lparr>u_fragment := []\<rparr>)) (\<lambda>r _. r = Inr sample_route) (sample_world ticket_db)"
    by (simp add: store_eval sample_linked_def empty_url_def)
  moreover have "rt_context sample_route = 5" "rt_user sample_route = 1" by (simp_all add: sample_route_def)
  moreover have "\<not> (EqualFold (u_scheme sample_linked) (u_scheme sample_page) \<and> EqualFold (u_host sample_linked) (u_host sample_page))"
    using sample_leaves by (simp add: leaves_origin_def)
  moreover have "u_scheme sample_linked = ''https''" by (simp add: sample_linked_def)
  moreover have "TrimSpace sample_link \<noteq> []" by (simp add: sample_trim)
  ultimately show ?thesis
    using sample_linked_parse sample_not_opaque sample_label
    by (intro run_stateI) (auto simp: rewriteURL_def Let_def wp_bind wp_return elim!: wp_mono)
qed

text \<open>
  A link of the same origin becomes a path. When the path starts with two slashes the result is a
  reference to another host, which a browser resolves outside the proxy.
\<close>

definition sample_slashes :: string where
  "sample_slashes = ''https://site.example.com//evil.example/x''"

lemma same_origin_double_slash:
  "wp (rewriteURL E s rt sample_page sample_slashes) (\<lambda>out _. out = ''//evil.example/x''
     \<and> map_option u_host (url_parse_ref (sv_app sample_service) out) = Some ''evil.example'') w"
proof -
  let ?u = "empty_url\<lparr>u_scheme := ''https'', u_host := ''site.example.com'', u_path := ''//evil.example/x''\<rparr>"
  have "TrimSpace sample_slashes = sample_slashes" "\<not> HasPrefix sample_slashes ''#''" "\<not> opaque_scheme sample_slashes"
    "url_parse_ref sample_page sample_slashes = Some ?u" "EqualFold (u_host ?u) (u_host sample_page)"
    "EqualFold (u_scheme ?u) (u_scheme sample_page)" "EscapedPath ?u = ''//evil.example/x''" "u_scheme ?u = ''https''"
    "map_option u_host (url_parse_ref (sv_app sample_service) ''//evil.example/x'') = Some ''evil.example''"
    by code_simp+
  then show ?thesis
    by (simp add: rewriteURL_def Let_def wp_return querySuffix_def fragment_suffix_def empty_url_def sample_slashes_def)
qed

end
