(* ===== verification/Forward.thy ===== *)
theory Forward
  imports Rewrite
begin

text \<open>
  The handlers of \<open>internal/proxy/http.go\<close>: contexts are opened, navigated and closed from the
  application, and a request that came in on a route is forwarded to its target.
\<close>

section \<open>Contexts\<close>

definition proxyID :: "env \<Rightarrow> reply \<Rightarrow> request \<Rightarrow> string \<Rightarrow> reply + uuid" where
  "proxyID E w r value = (case e_uuid_parse E value of None \<Rightarrow> Inl (Problem w r ErrInvalidID) | Some i \<Rightarrow> Inr i)"

definition json_context :: "env \<Rightarrow> proxy_context \<Rightarrow> json" where
  "json_context E c = JObj [(''id'', JStr (e_uuid_string E (cx_id c))), (''current_url'', JStr (cx_url c)),
     (''upstream_proxy_id'', json_optional_id E (cx_upstream c)), (''compatibility_mode'', JBool (cx_compat c)),
     (''created_at'', JTime (cx_created c)), (''last_active_at'', JTime (cx_active c))]"

definition AvailableUpstreams :: "env \<Rightarrow> handler" where
  "AvailableUpstreams E sn w r =
     attempt (DirectAllowed E (session_user sn)) (\<lambda>_. refuse w r ErrInternal) (\<lambda>directAllowed.
     attempt (EffectiveUpstreams E (session_user sn)) (\<lambda>_. refuse w r ErrInternal) (\<lambda>items.
     State_Monad.return (WriteJSON 200 (JObj [(''direct_allowed'', JBool directAllowed), (''items'', JList (map (json_upstream E) items))]) w)))"

text \<open>The way out of a new context: the upstream proxy it names, or the server itself.\<close>

definition egress_allowed :: "env \<Rightarrow> uuid \<Rightarrow> uuid option \<Rightarrow> (error_code + unit) prog" where
  "egress_allowed E user up = (case up of
     Some i \<Rightarrow> attempt (Authorized E user i) (\<lambda>_. State_Monad.return (Inl ErrUpstreamProxyDenied)) (\<lambda>_. State_Monad.return (Inr ()))
   | None \<Rightarrow> attempt (DirectAllowed E user) (\<lambda>_. State_Monad.return (Inl ErrInternal)) (\<lambda>allowed.
       State_Monad.return (if allowed then Inr () else Inl ErrDirectAccessDenied)))"

text \<open>A target of a user's request: refused when it is no target, or when the policies deny it, which is audited.\<close>

definition permitted_target :: "env \<Rightarrow> service \<Rightarrow> uuid \<Rightarrow> string \<Rightarrow> (error_code + target) prog" where
  "permitted_target E s user raw =
     attempt (authorize E s user raw) (\<lambda>_. State_Monad.return (Inl ErrInvalidTarget)) (\<lambda>(t, d).
       if \<not> Allowed d then do { audit E user ''proxy.denied'' raw ''denied''; State_Monad.return (Inl ErrTargetDenied) }
       else State_Monad.return (Inr t))"

definition createContext :: "env \<Rightarrow> service \<Rightarrow> (string \<Rightarrow> (string \<times> uuid option \<times> bool) option) \<Rightarrow> handler" where
  "createContext E s dec sn w r =
    (case DecodeJSON dec w r of
       Inl p \<Rightarrow> State_Monad.return p
     | Inr (raw, up, compatibility) \<Rightarrow> (let user = session_user sn in
         attempt (egress_allowed E user up) (refuse w r) (\<lambda>_.
         attempt (permitted_target E s user raw) (refuse w r) (\<lambda>t.
         attempt (CreateContext E user (t_url t) up compatibility) (\<lambda>_. refuse w r ErrInternal) (\<lambda>(c, rt, ticket). do {
           audit E user ''proxy.context.create'' (url_string (t_url t)) ''success'';
           State_Monad.return (WriteJSON 201 (JObj [(''context'', json_context E c), (''bootstrap_url'', JStr (bootstrapURL s ticket)),
             (''route_url'', JStr (routeURL E s rt (t_url t)))]) w) })))))"

definition getContext :: "env \<Rightarrow> string \<Rightarrow> handler" where
  "getContext E param sn w r = (case proxyID E w r param of
     Inl p \<Rightarrow> State_Monad.return p
   | Inr i \<Rightarrow> attempt (GetContext E i (session_user sn)) (\<lambda>_. refuse w r ErrContextNotFound) (\<lambda>c.
       State_Monad.return (WriteJSON 200 (json_context E c) w)))"

definition navigate :: "env \<Rightarrow> service \<Rightarrow> (string \<Rightarrow> string option) \<Rightarrow> string \<Rightarrow> handler" where
  "navigate E s dec param sn w r = (case proxyID E w r param of
     Inl p \<Rightarrow> State_Monad.return p
   | Inr i \<Rightarrow> (case DecodeJSON dec w r of
       Inl p \<Rightarrow> State_Monad.return p
     | Inr raw \<Rightarrow> (let user = session_user sn in
         attempt (GetContext E i user) (\<lambda>_. refuse w r ErrContextNotFound) (\<lambda>_.
         attempt (permitted_target E s user raw) (refuse w r) (\<lambda>t.
         attempt (ResolveRoute E i user (t_url t)) (\<lambda>_. refuse w r ErrInternal) (\<lambda>rt. do {
           UpdateCurrentURL E i (url_string (t_url t));
           attempt (CreateTicket E user i) (\<lambda>_. refuse w r ErrInternal) (\<lambda>ticket. do {
             audit E user ''proxy.navigate'' (url_string (t_url t)) ''allowed'';
             State_Monad.return (WriteJSON 200 (JObj [(''bootstrap_url'', JStr (bootstrapURL s ticket)),
               (''route_url'', JStr (routeURL E s rt (t_url t)))]) w) }) }))))))"

definition closeContext :: "env \<Rightarrow> string \<Rightarrow> handler" where
  "closeContext E param sn w r = (case proxyID E w r param of
     Inl p \<Rightarrow> State_Monad.return p
   | Inr i \<Rightarrow> attempt (CloseContext E i (session_user sn)) (\<lambda>_. refuse w r ErrContextNotFound) (\<lambda>_. do {
       audit E (session_user sn) ''proxy.context.close'' (e_uuid_string E i) ''success'';
       State_Monad.return (no_content w) }))"

section \<open>Requests of the runtime\<close>

definition route_origin_url :: "route \<Rightarrow> string" where
  "route_origin_url rt = rt_scheme rt @ ''://'' @ hostWithPort (rt_host rt) (rt_port rt) (rt_scheme rt)"

definition setDocumentCookie :: "env \<Rightarrow> service \<Rightarrow> (string \<Rightarrow> string option) \<Rightarrow> route \<Rightarrow> reply \<Rightarrow> request \<Rightarrow> reply prog" where
  "setDocumentCookie E s dec rt w r =
    (if rq_method r \<noteq> ''POST'' then refuse w r ErrMethodNotAllowed
     else (case DecodeJSON dec w r of
       Inl p \<Rightarrow> State_Monad.return p
     | Inr line \<Rightarrow> (case e_set_cookie E line of
         None \<Rightarrow> refuse w r ErrInvalidCookie
       | Some ck \<Rightarrow>
           if ck_http_only ck then refuse w r ErrInvalidCookie
           else (case url_parse (route_origin_url rt @ Get (rq_header r) ''X-Tvpn-Upstream-Path'') of
               None \<Rightarrow> refuse w r ErrInternal
             | Some target \<Rightarrow>
                 attempt (SaveCookies E (sv_cipher s) (rt_context rt) target [ck\<lparr>ck_http_only := False\<rparr>])
                   (\<lambda>_. refuse w r ErrInternal) (\<lambda>_. State_Monad.return (no_content w))))))"

definition resolveURL :: "env \<Rightarrow> service \<Rightarrow> (string \<Rightarrow> string option) \<Rightarrow> route \<Rightarrow> reply \<Rightarrow> request \<Rightarrow> reply prog" where
  "resolveURL E s dec rt w r =
    (if rq_method r \<noteq> ''POST'' then refuse w r ErrMethodNotAllowed
     else (case DecodeJSON dec w r of
       Inl p \<Rightarrow> State_Monad.return p
     | Inr given \<Rightarrow> do {
         raw \<leftarrow> normalizeClientURL E s rt given;
         attempt (permitted_target E s (rt_user rt) raw) (refuse w r) (\<lambda>t.
         attempt (ResolveRoute E (rt_context rt) (rt_user rt) (t_url t)) (\<lambda>_. refuse w r ErrInternal) (\<lambda>mapped.
         State_Monad.return (WriteJSON 200 (JObj [(''url'', JStr (routeURL E s mapped (t_url t)))]) w))) }))"

definition proxy_cookie :: "service \<Rightarrow> string \<Rightarrow> int \<Rightarrow> cookie" where
  "proxy_cookie s token t = \<lparr>ck_name = proxyCookieName, ck_value = token, ck_path = ''/'', ck_domain = ''.'' @ hostname (sv_domain s),
     ck_expires = Some (t + sv_ttl s), ck_max_age = whole_seconds (sv_ttl s), ck_secure = sv_secure s, ck_http_only = True,
     ck_same_site = SameSiteLax\<rparr>"

definition bootstrap :: "env \<Rightarrow> service \<Rightarrow> reply \<Rightarrow> request \<Rightarrow> reply prog" where
  "bootstrap E s w r =
     attempt (ConsumeTicket E (query_get (u_rawquery (rq_url r)) ''ticket'') (sv_ttl s)) (\<lambda>_. refuse w r ErrInvalidTicket)
       (\<lambda>(sessionToken, userID, contextID).
     attempt (GetContext E contextID userID) (\<lambda>_. refuse w r ErrInternal) (\<lambda>c.
     attempt (GuardResolve E (sv_guard s) (cx_url c)) (\<lambda>_. refuse w r ErrInternal) (\<lambda>t.
     attempt (ResolveRoute E contextID userID (t_url t)) (\<lambda>_. refuse w r ErrInternal) (\<lambda>rt. do {
       at \<leftarrow> now E;
       State_Monad.return (Redirect (routeURL E s rt (t_url t)) 303 (SetCookie (proxy_cookie s sessionToken at) w)) }))))"

section \<open>Forwarding\<close>

definition forward_url :: "route \<Rightarrow> request \<Rightarrow> string" where
  "forward_url rt r = route_origin_url rt @ EscapedPath (rq_url r)
     @ (if u_rawquery (rq_url r) \<noteq> [] then ''?'' @ u_rawquery (rq_url r) else [])"

definition private_headers :: "string list" where
  "private_headers = [''Cookie'', ''Accept-Encoding'', ''X-Forwarded-For'', ''X-Forwarded-Host'', ''X-Forwarded-Proto'', ''Tvpn-Error-Code'']"

definition outgoing_header :: "header \<Rightarrow> header" where
  "outgoing_header h = fold hDel private_headers (stripHopHeaders h)"

definition map_origin :: "env \<Rightarrow> service \<Rightarrow> route \<Rightarrow> string \<Rightarrow> string option prog" where
  "map_origin E s rt value = do {
     mapped \<leftarrow> mapProxyURL E s value;
     (if rt_compat rt then mapProxyURLForContext E s rt value else State_Monad.return mapped) }"

text \<open>The \<open>Origin\<close> and \<open>Referer\<close> of a request name proxied origins, or are dropped.\<close>

definition translate_header :: "env \<Rightarrow> service \<Rightarrow> route \<Rightarrow> string \<Rightarrow> header \<Rightarrow> (header \<times> string) prog" where
  "translate_header E s rt name h =
    (if Get h name = [] then State_Monad.return (h, [])
     else do {
       mapped \<leftarrow> map_origin E s rt (Get h name);
       State_Monad.return (case mapped of Some v \<Rightarrow> (hSet name v h, v) | None \<Rightarrow> (hDel name h, [])) })"

definition out_request :: "request \<Rightarrow> target \<Rightarrow> header \<Rightarrow> cookie list \<Rightarrow> request" where
  "out_request r t h cookies = r\<lparr>rq_url := t_url t, rq_host := u_host (t_url t), rq_header := fold AddCookie cookies h\<rparr>"

definition response_cookies :: "env \<Rightarrow> response \<Rightarrow> cookie list" where
  "response_cookies E response = List.map_filter (e_set_cookie E) (Values (rs_header response) ''Set-Cookie'')"

definition relocate :: "env \<Rightarrow> service \<Rightarrow> route \<Rightarrow> target \<Rightarrow> header \<Rightarrow> (error_code + header) prog" where
  "relocate E s rt t h =
    (if Get h ''Location'' = [] then State_Monad.return (Inr h)
     else (case url_parse_ref (t_url t) (Get h ''Location'') of
       None \<Rightarrow> State_Monad.return (Inr h)
     | Some resolved \<Rightarrow>
         attempt (authorize E s (rt_user rt) (url_string resolved)) (\<lambda>_. State_Monad.return (Inl ErrRedirectDenied)) (\<lambda>(redirect, d).
           if \<not> Allowed d then State_Monad.return (Inl ErrRedirectDenied)
           else attempt (ResolveRoute E (rt_context rt) (rt_user rt) (t_url redirect)) (\<lambda>_. State_Monad.return (Inl ErrInternal)) (\<lambda>m.
             State_Monad.return (Inr (hSet ''Location'' (routeURL E s m (t_url redirect)) h))))))"

definition visited :: "env \<Rightarrow> route \<Rightarrow> target \<Rightarrow> request \<Rightarrow> unit prog" where
  "visited E rt t r =
    (if Get (rq_header r) ''Sec-Fetch-Dest'' = ''document'' then do {
       UpdateCurrentURL E (rt_context rt) (url_string (t_url t));
       audit E (rt_user rt) ''proxy.navigate'' (url_string (t_url t)) ''allowed'' }
     else skip)"

definition rewritable :: "nat \<Rightarrow> string \<Rightarrow> bool" where
  "rewritable status contentType \<longleftrightarrow> 200 \<le> status \<and> status < 300
     \<and> (Contains (ToLower contentType) ''text/html'' \<or> Contains (ToLower contentType) ''text/css'')"

definition browser_reply :: "nat \<Rightarrow> header \<Rightarrow> string \<Rightarrow> reply \<Rightarrow> reply" where
  "browser_reply status h body w = w\<lparr>rp_header := copyResponseHeaders (rp_header w) h, rp_status := status, rp_body := Bytes body\<rparr>"

definition deliver :: "env \<Rightarrow> html_package \<Rightarrow> service \<Rightarrow> route \<Rightarrow> target \<Rightarrow> request \<Rightarrow> string \<Rightarrow> response \<Rightarrow> header \<Rightarrow> reply \<Rightarrow> reply prog" where
  "deliver E P s rt t r upstreamOrigin response located w =
    (let h = stripHopHeaders (translateCORS (rq_header r) (Get (outgoing_header (rq_header r)) ''Origin'') upstreamOrigin (rt_compat rt) located);
         contentType = Get h ''Content-Type''
     in if rewritable (rs_status response) contentType then
          attempt (rewriteResponse E P s rt (t_url t) contentType response) (\<lambda>_. refuse w r ErrRewriteFailed) (\<lambda>rewritten. do {
            visited E rt t r;
            State_Monad.return (browser_reply (rs_status response)
              (fold hDel [''Content-Length'', ''Content-Encoding'', ''ETag'', ''Content-MD5''] h) rewritten w) })
        else do {
          (arrived, _) \<leftarrow> read_body E response;
          visited E rt t r;
          State_Monad.return (browser_reply (rs_status response) h arrived w) })"

text \<open>From the cookies of the context to the reply.\<close>

definition exchange :: "env \<Rightarrow> html_package \<Rightarrow> service \<Rightarrow> route \<Rightarrow> target \<Rightarrow> request \<Rightarrow> header \<Rightarrow> string \<Rightarrow> reply \<Rightarrow> reply prog" where
  "exchange E P s rt t r h upstreamOrigin w =
     attempt (Cookies E (sv_cipher s) (rt_context rt) (t_url t)) (\<lambda>_. refuse w r ErrInternal) (\<lambda>cookies.
     attempt (make_transport E s t rt) (\<lambda>_. refuse w r ErrUpstreamProxyUnavailable) (\<lambda>tr.
     attempt (round_trip E tr (out_request r t h cookies)) (\<lambda>_. refuse w r ErrUpstreamError) (\<lambda>response.
     attempt (SaveCookies E (sv_cipher s) (rt_context rt) (t_url t) (response_cookies E response)) (\<lambda>_. refuse w r ErrInternal) (\<lambda>_.
     attempt (relocate E s rt t (rs_header response)) (refuse w r) (\<lambda>located.
     deliver E P s rt t r upstreamOrigin response located w)))))"

definition forward :: "env \<Rightarrow> html_package \<Rightarrow> service \<Rightarrow> route \<Rightarrow> reply \<Rightarrow> request \<Rightarrow> reply prog" where
  "forward E P s rt w r =
     attempt (authorize E s (rt_user rt) (forward_url rt r)) (\<lambda>_. refuse w r ErrTargetUnavailable) (\<lambda>(t, d).
     if \<not> Allowed d then do {
       audit E (rt_user rt) ''proxy.denied'' (url_string (t_url t)) ''denied'';
       refuse w r ErrTargetDenied }
     else do {
       (h1, upstreamOrigin) \<leftarrow> translate_header E s rt ''Origin'' (outgoing_header (rq_header r));
       (h2, _) \<leftarrow> translate_header E s rt ''Referer'' h1;
       exchange E P s rt t r h2 upstreamOrigin w })"

end
