(* ===== verification/Egress.thy ===== *)
theory Egress
  imports Forward
begin

text \<open>
  What leaves the process. The requests and connections to targets are the outgoing events of the
  trace; every component but the forwarding itself is shown to add none, and a forwarded request is
  shown to go to the address that was checked, with the rights its user has at that moment.
\<close>

section \<open>Outgoing events\<close>

definition is_outgoing :: "event \<Rightarrow> bool" where
  "is_outgoing e = (case e of Sent _ _ \<Rightarrow> True | Opened _ _ _ _ \<Rightarrow> True | Redirected _ _ \<Rightarrow> True | _ \<Rightarrow> False)"

definition outgoing :: "world \<Rightarrow> event list" where
  "outgoing w = filter is_outgoing (w_trace w)"

lemma is_outgoing_simps [simp]: "is_outgoing (Sent tr rq)" "is_outgoing (Opened tr u h ps)" "is_outgoing (Redirected tr v)" "\<not> is_outgoing (Looked_Up x)"
  "\<not> is_outgoing (Framed k i b)" "\<not> is_outgoing (Closed n y)" "\<not> is_outgoing (Ldap le)"
  by (simp_all add: is_outgoing_def)

text \<open>A program is quiet when it adds no outgoing event, and a reader when it leaves the database alone, too.\<close>

definition quiet :: "event list \<Rightarrow> world \<Rightarrow> bool" where
  "quiet l w \<longleftrightarrow> outgoing w = l"

lemma quiet_update [simp]: "quiet l (w\<lparr>w_tick := t\<rparr>) = quiet l w" "quiet l (w\<lparr>w_db := d\<rparr>) = quiet l w"
  "quiet l (w\<lparr>w_trace := w_trace w @ [e]\<rparr>) = (if is_outgoing e then outgoing w @ [e] = l else quiet l w)"
  by (simp_all add: quiet_def outgoing_def)

lemma quiet_prims [keeps_intro]:
  "keeps (quiet l) tick" "keeps (quiet l) skip" "keeps (quiet l) (now E)" "keeps (quiet l) (random_bytes E n)"
  "keeps (quiet l) (new_uuid E)" "keeps (quiet l) (lookup_host E h)" "keeps (quiet l) (ws_accept E rq ps)"
  "keeps (quiet l) (ws_messages E)" "keeps (quiet l) (ws_relay E)" "keeps (quiet l) (sql_at E at st)" "keeps (quiet l) (sql E st')"
  by (auto simp: keeps_def step_simps quiet_def outgoing_def split: option.split sum.split)

lemma quiet_transaction [keeps_intro]:
  assumes "\<And>at. keeps (quiet l) (body at)" shows "keeps (quiet l) (transaction E body)"
proof (rule keepsI)
  fix w assume w: "quiet l w"
  have "wp (body (e_now E (w_tick w))) (\<lambda>_. quiet l) (w\<lparr>w_tick := Suc (w_tick w)\<rparr>)"
    using assms w by (simp add: keeps_def)
  then show "wp (transaction E body) (\<lambda>_. quiet l) w"
    using w by (auto simp: step_simps Let_def split: option.split sum.split elim!: wp_mono)
qed

section \<open>Readers\<close>

text \<open>What a component that only reads leaves behind: the same tables and nothing sent.\<close>

definition untouched :: "world \<Rightarrow> world \<Rightarrow> bool" where
  "untouched w w' \<longleftrightarrow> w_db w' = w_db w \<and> outgoing w' = outgoing w"

lemma untouched_refl [simp]: "untouched w w"
  by (simp add: untouched_def)

lemma untouched_trans: "untouched w w' \<Longrightarrow> untouched w' w'' \<Longrightarrow> untouched w w''"
  by (simp add: untouched_def)

lemma reads_only_untouched: "reads_only w w' \<Longrightarrow> untouched w w'"
  by (simp add: reads_only_def untouched_def outgoing_def)

lemma untouched_keeps:
  assumes "keeps (on_db (\<lambda>d. d = w_db w)) p" and "keeps (quiet (outgoing w)) p"
  shows "wp p (\<lambda>_. untouched w) w"
  using assms by (auto simp: keeps_def on_db_def quiet_def untouched_def wp_run)

lemma RouteByLabel_keeps [keeps_intro]: "keeps (on_db J) (RouteByLabel E label)" "keeps (quiet l) (RouteByLabel E label)"
  unfolding RouteByLabel_def by (intro keeps_intro)+

lemma mapProxyURL_keeps [keeps_intro]:
  "keeps (on_db J) (mapProxyURLForContext E s rt value)" "keeps (quiet l) (mapProxyURLForContext E s rt value)"
  "keeps (on_db J) (mapProxyURL E s value)" "keeps (quiet l) (mapProxyURL E s value)"
  unfolding mapProxyURL_def mapProxyURLForContext_def by (intro keeps_intro)+

lemma normalizeClientURL_keeps [keeps_intro]:
  "keeps (on_db J) (normalizeClientURL E s rt value)" "keeps (quiet l) (normalizeClientURL E s rt value)"
  unfolding normalizeClientURL_def by (intro keeps_intro)+

lemma translate_header_keeps [keeps_intro]:
  "keeps (on_db J) (translate_header E s rt name h)" "keeps (quiet l) (translate_header E s rt name h)"
  unfolding translate_header_def map_origin_def by (intro keeps_intro)+

lemma GuardResolve_keeps [keeps_intro]: "keeps (quiet l) (GuardResolve E g raw)"
  unfolding GuardResolve_def addresses_of_def by (intro keeps_intro)+

section \<open>The decision\<close>

definition may_reach :: "env \<Rightarrow> service \<Rightarrow> db \<Rightarrow> uuid \<Rightarrow> string \<Rightarrow> target \<Rightarrow> decision \<Rightarrow> bool" where
  "may_reach E s d user raw t v \<longleftrightarrow> (\<exists>n. Resolve (e_idna E) (e_lookup E n) (sv_guard s) raw = Inr t)
     \<and> v = Evaluate (effective_policies d user) (t_url t) (t_addresses t)"

lemma GuardResolve_untouched:
  "wp (GuardResolve E g raw) (\<lambda>r w'. untouched w w' \<and> (\<exists>n. r = Resolve (e_idna E) (e_lookup E n) g raw)) w"
proof -
  have "wp (GuardResolve E g raw) (\<lambda>_. quiet (outgoing w)) w"
    using GuardResolve_keeps [of "outgoing w" E g raw] by (simp add: keeps_def quiet_def)
  with GuardResolve_spec [of E g raw w] show ?thesis by (auto simp: wp_run untouched_def quiet_def)
qed

lemma authorize_spec:
  "wp (authorize E s user raw) (\<lambda>r w'. untouched w w' \<and> (case r of Inl _ \<Rightarrow> True | Inr (t, v) \<Rightarrow> may_reach E s (w_db w) user raw t v)) w"
  unfolding authorize_def
proof (rule wp_seq [OF GuardResolve_untouched])
  fix t w1 assume t: "untouched w w1 \<and> (\<exists>n. Inr t = Resolve (e_idna E) (e_lookup E n) (sv_guard s) raw)"
  then have d: "w_db w1 = w_db w" by (simp add: untouched_def)
  show "wp (ok_or (Effective E user) (\<lambda>policies. State_Monad.return (Inr (t, Evaluate policies (t_url t) (t_addresses t)))))
    (\<lambda>r w'. untouched w w' \<and> (case r of Inl _ \<Rightarrow> True | Inr (t, v) \<Rightarrow> may_reach E s (w_db w) user raw t v)) w1"
    by (rule wp_seq [OF Effective_spec])
      (use t d in \<open>auto simp: step_simps may_reach_def intro: untouched_trans reads_only_untouched dest: sym\<close>)
qed auto

section \<open>The connection\<close>

text \<open>The address a connection ends at, and when a route may use it.\<close>

fun dial_target :: "dial \<Rightarrow> string" where
  "dial_target (DialDirect a) = a"
| "dial_target (DialHTTPProxy _ _ a) = a"
| "dial_target (DialSOCKS5 _ _ a) = a"

definition goes_out :: "db \<Rightarrow> route \<Rightarrow> target \<Rightarrow> transport \<Rightarrow> bool" where
  "goes_out d rt t tr \<longleftrightarrow> tr_server_name tr = Hostname (t_url t) \<and> dial_target (tr_dial tr) = pinned_address t
   \<and> (case rt_upstream rt of
        None \<Rightarrow> direct_permitted d (rt_user rt) \<and> tr_dial tr = DialDirect (pinned_address t)
      | Some i \<Rightarrow> (\<exists>u. usable_upstream d (rt_user rt) i u) \<and> tr_dial tr \<noteq> DialDirect (pinned_address t))"

lemma upstream_dial_target: "upstream_dial E s u a = Inr x \<Longrightarrow> dial_target x = a \<and> x \<noteq> DialDirect b"
  by (auto simp: upstream_dial_def split: sum.splits if_splits)

lemma make_transport_spec:
  "wp (make_transport E s t rt) (\<lambda>r w'. untouched w w' \<and> (case r of Inl _ \<Rightarrow> True | Inr tr \<Rightarrow> goes_out (w_db w) rt t tr)) w"
proof (cases "rt_upstream rt")
  case None
  show ?thesis unfolding make_transport_def Let_def None option.case
    by (rule wp_seq [OF DirectAllowed_spec]) (auto simp: step_simps goes_out_def None intro: reads_only_untouched)
next
  case (Some i)
  show ?thesis unfolding make_transport_def Let_def Some option.case
    by (rule wp_seq [OF Authorized_spec])
      (auto simp: step_simps goes_out_def Some intro: reads_only_untouched dest: upstream_dial_target split: sum.split)
qed

section \<open>Headers\<close>

lemma Values_hDels: "Values (fold hDel ks h) n = (if CanonicalHeaderKey n \<in> CanonicalHeaderKey ` set ks then [] else Values h n)"
  by (induction ks arbitrary: h) (auto simp: Values_hDel)

definition withheld_headers :: "string list" where
  "withheld_headers = hop_headers @ [''Accept-Encoding'', ''X-Forwarded-For'', ''X-Forwarded-Host'', ''X-Forwarded-Proto'', ''Tvpn-Error-Code'']"

definition withheld :: "header \<Rightarrow> bool" where
  "withheld h \<longleftrightarrow> list_all (\<lambda>n. Values h n = []) withheld_headers"

text \<open>The headers that a request declares to be for this connection only.\<close>

definition nominated :: "header \<Rightarrow> string list" where
  "nominated h = concat (map (\<lambda>line. map TrimSpace (Split line CHR '','')) (Values h ''Connection''))"

definition strips_nominated :: "header \<Rightarrow> header \<Rightarrow> bool" where
  "strips_nominated h h' \<longleftrightarrow> list_all (\<lambda>n. CanonicalHeaderKey n = CanonicalHeaderKey ''Cookie'' \<or> Values h' n = []) (nominated h)"

lemma stripHopHeaders_names: "stripHopHeaders h = fold hDel (nominated h @ hop_headers) h"
proof -
  have "fold (\<lambda>line. fold (\<lambda>name. hDel (TrimSpace name)) (f line)) ls g = fold hDel (concat (map (\<lambda>line. map TrimSpace (f line)) ls)) g" for f ls g
    by (induction ls arbitrary: g) (simp_all add: fold_map comp_def)
  from this [of "\<lambda>line. Split line CHR '',''"] show ?thesis by (simp add: stripHopHeaders_def nominated_def)
qed

lemma outgoing_header_drops: "n \<in> set (nominated h) \<or> n \<in> set hop_headers \<or> n \<in> set private_headers \<Longrightarrow> Values (outgoing_header h) n = []"
  by (auto simp: outgoing_header_def stripHopHeaders_names Values_hDels)

lemma outgoing_header_withheld: "withheld (outgoing_header h)" "Values (outgoing_header h) ''Cookie'' = []"
proof -
  have "n \<in> set hop_headers \<or> n \<in> set private_headers" if "n \<in> set withheld_headers" for n
    using that by (auto simp: withheld_headers_def private_headers_def)
  then show "withheld (outgoing_header h)" by (simp add: withheld_def list_all_iff outgoing_header_drops)
  show "Values (outgoing_header h) ''Cookie'' = []"
    by (rule outgoing_header_drops) (simp add: private_headers_def)
qed

lemma canonical_withheld:
  "list_all (\<lambda>n. CanonicalHeaderKey n \<noteq> CanonicalHeaderKey ''Origin'' \<and> CanonicalHeaderKey n \<noteq> CanonicalHeaderKey ''Referer''
     \<and> CanonicalHeaderKey n \<noteq> CanonicalHeaderKey ''Cookie'') withheld_headers"
  "CanonicalHeaderKey ''Cookie'' \<noteq> CanonicalHeaderKey ''Origin''" "CanonicalHeaderKey ''Cookie'' \<noteq> CanonicalHeaderKey ''Referer''"
  by (simp_all add: withheld_headers_def hop_headers_def canonical_neq lower_heads)

definition same_but :: "string \<Rightarrow> header \<Rightarrow> header \<Rightarrow> bool" where
  "same_but name h h' \<longleftrightarrow> (\<forall>n. CanonicalHeaderKey n \<noteq> CanonicalHeaderKey name \<longrightarrow> Values h' n = Values h n)"

lemma withheld_same_but: "withheld h \<Longrightarrow> same_but ''Origin'' h h' \<or> same_but ''Referer'' h h' \<or> same_but ''Cookie'' h h' \<Longrightarrow> withheld h'"
  using canonical_withheld(1) by (auto simp: withheld_def same_but_def list_all_iff)

definition adds_none :: "header \<Rightarrow> header \<Rightarrow> bool" where
  "adds_none h h' \<longleftrightarrow> (\<forall>n. Values h n = [] \<longrightarrow> Values h' n = [])"

lemma adds_none_set: "Get h name \<noteq> [] \<Longrightarrow> adds_none h (hSet name v h)" "adds_none h (hDel name h)" "adds_none h h"
proof -
  have "Values h n \<noteq> []" if "Get h name \<noteq> []" "CanonicalHeaderKey n = CanonicalHeaderKey name" for n
    using that by (auto simp: Get_def Values_def split: option.splits)
  then show "Get h name \<noteq> [] \<Longrightarrow> adds_none h (hSet name v h)" by (simp add: adds_none_def Values_hSet)
qed (simp_all add: adds_none_def Values_hDel)

lemma translate_header_spec:
  "wp (translate_header E s rt name h) (\<lambda>(h', _) w'. untouched w w' \<and> same_but name h h' \<and> adds_none h h') w"
proof -
  have "wp (translate_header E s rt name h) (\<lambda>_. untouched w) w" by (intro untouched_keeps keeps_intro)
  moreover have "wp (translate_header E s rt name h) (\<lambda>(h', _) _. same_but name h h' \<and> adds_none h h') w"
    by (auto simp: translate_header_def wp_bind wp_return same_but_def Values_hSet Values_hDel adds_none_set
        intro!: wp_any [where p = "map_origin _ _ _ _"] split: option.split)
  ultimately show ?thesis by (auto simp: wp_run split: prod.splits)
qed

lemma AddCookie_same_but: "same_but ''Cookie'' h (fold AddCookie cks h)"
  by (induction cks arbitrary: h) (simp_all add: same_but_def AddCookie_def Let_def Values_hSet)

lemma strips_nominated_outgoing: "adds_none (outgoing_header h) h' \<Longrightarrow> strips_nominated h (fold AddCookie cookies h')"
  using AddCookie_same_but [of h' cookies] by (auto simp: strips_nominated_def adds_none_def list_all_iff outgoing_header_drops same_but_def)

lemma AddCookie_only: "Values h ''Cookie'' = Values h' ''Cookie'' \<Longrightarrow>
  Values (fold AddCookie cks h) ''Cookie'' = Values (fold AddCookie cks h') ''Cookie''"
proof (induction cks arbitrary: h h')
  case (Cons c cks)
  then have "Values (AddCookie c h) ''Cookie'' = Values (AddCookie c h') ''Cookie''"
    by (simp add: AddCookie_def Let_def Values_hSet Get_def)
  from Cons.IH [OF this] show ?case by simp
qed simp

section \<open>Forwarding\<close>

text \<open>The rest of the handler sends nothing.\<close>

lemma keeps_walk: "(\<And>d as. keeps I (f d as)) \<Longrightarrow> keeps I (walk f t)" "(\<And>d as. keeps I (f d as)) \<Longrightarrow> keeps I (walk_list f ts)"
proof (induction f t and f ts rule: walk_walk_list.induct)
  case (1 f k ns d as cs)
  then show ?case unfolding walk.simps by (intro keeps_intro) auto
next
  case (2 f)
  show ?case by (simp add: keeps_return)
next
  case (3 f c cs)
  then show ?case unfolding walk_list.simps by (intro keeps_intro) auto
qed

lemma quiet_ResolveRoute [keeps_intro]: "keeps (quiet l) (ResolveRoute E ctx user u)"
  unfolding ResolveRoute_def createRoute_def by (intro keeps_intro)+

lemma quiet_rewriteURL [keeps_intro]: "keeps (quiet l) (rewriteURL E s rt base v)"
  unfolding rewriteURL_def by (intro keeps_intro)

lemma quiet_rewriteCSS [keeps_intro]: "keeps (quiet l) (rewriteCSS E s rt base v)"
proof -
  have "keeps (quiet l) (rewrite_parts E s rt base ps)" for ps
    by (induction ps) (auto intro!: keeps_intro split: css_part.split)
  then show ?thesis by (simp add: rewriteCSS_def)
qed

lemma quiet_rewriteElement: "keeps (quiet l) (rewriteElement E s rt base d as)"
proof -
  have "keeps (quiet l) (rewrite_srcset E s rt base ps)" for ps
    by (induction ps) (auto intro!: keeps_intro)
  then have "keeps (quiet l) (rewrite_value E s rt base k v)" for k v
    unfolding rewrite_value_def by (intro keeps_intro)
  then have "keeps (quiet l) (rewrite_attrs E s rt base as)" for as
    by (induction as) (auto intro!: keeps_intro)
  moreover have "keeps (quiet l) (rewrite_refresh E s rt base as)" for as
    unfolding rewrite_refresh_def by (intro keeps_intro)
  ultimately show ?thesis unfolding rewriteElement_def by (intro keeps_intro)
qed

lemma quiet_jar [keeps_intro]: "keeps (quiet l) (jar_cookies E c ctx u v)" "keeps (quiet l) (Cookies E c ctx u)"
  "keeps (quiet l) (VisibleCookies E c ctx u)"
  unfolding Cookies_def VisibleCookies_def jar_cookies_def by (intro keeps_intro)+

lemma quiet_SaveCookies [keeps_intro]: "keeps (quiet l) (SaveCookies E c ctx origin cks)"
proof -
  have "keeps (quiet l) (save_cookie E c ctx origin ck)" for ck
    unfolding save_cookie_def cookie_expired_def Encrypt_def by (intro keeps_intro)
  then show ?thesis by (induction cks) (auto intro!: keeps_intro)
qed

lemma quiet_rewriteResponse [keeps_intro]: "keeps (quiet l) (rewriteResponse E P s rt t ct response)"
  unfolding rewriteResponse_def rewriteHTML_def Let_def by (intro keeps_intro keeps_walk quiet_rewriteElement)

lemma quiet_authorize [keeps_intro]: "keeps (quiet l) (authorize E s user raw)"
  unfolding keeps_def quiet_def by (auto intro!: wp_mono [OF authorize_spec] simp: untouched_def)

lemma quiet_audit [keeps_intro]: "keeps (quiet l) (audit E user ty t out)" "keeps (quiet l) (UpdateCurrentURL E i u)"
  unfolding audit_def Audit_def UpdateCurrentURL_def Let_def by (intro keeps_intro)+

lemma quiet_deliver [keeps_intro]: "keeps (quiet l) (relocate E s rt t h)" "keeps (quiet l) (deliver E P s rt t r up response located w)"
  unfolding relocate_def deliver_def visited_def Let_def by (intro keeps_intro)+

text \<open>What a request that leaves for a target looks like, and what let it out.\<close>

definition from_jar :: "env \<Rightarrow> service \<Rightarrow> db \<Rightarrow> route \<Rightarrow> target \<Rightarrow> header \<Rightarrow> bool" where
  "from_jar E s d rt t h \<longleftrightarrow> (\<exists>at cookies.
     list_all2 (opens_to E (sv_cipher s) (rt_context rt)) (filter (belongs at (rt_context rt) (t_url t)) (proxy_cookies d)) cookies
   \<and> Values h ''Cookie'' = Values (fold AddCookie cookies (\<lambda>_. None)) ''Cookie'')"

definition forwarded :: "env \<Rightarrow> service \<Rightarrow> db \<Rightarrow> route \<Rightarrow> request \<Rightarrow> event \<Rightarrow> bool" where
  "forwarded E s d rt r ev = (case ev of
     Sent tr out \<Rightarrow> (\<exists>t v. may_reach E s d (rt_user rt) (forward_url rt r) t v \<and> Allowed v \<and> goes_out d rt t tr
       \<and> rq_method out = rq_method r \<and> rq_body out = rq_body r \<and> rq_url out = t_url t \<and> rq_host out = u_host (t_url t)
       \<and> withheld (rq_header out) \<and> strips_nominated (rq_header r) (rq_header out) \<and> from_jar E s d rt t (rq_header out))
   | _ \<Rightarrow> False)"

definition sends_at_most_one :: "(event \<Rightarrow> bool) \<Rightarrow> world \<Rightarrow> world \<Rightarrow> bool" where
  "sends_at_most_one P w w' \<longleftrightarrow> outgoing w' = outgoing w \<or> (\<exists>ev. P ev \<and> outgoing w' = outgoing w @ [ev])"

lemma sends_none: "outgoing w' = outgoing w \<Longrightarrow> sends_at_most_one P w w'"
  by (simp add: sends_at_most_one_def)

lemma Cookies_spec:
  "wp (Cookies E c ctx target) (\<lambda>r w'. untouched w w' \<and> (case r of Inl _ \<Rightarrow> True
     | Inr cks \<Rightarrow> list_all2 (opens_to E c ctx) (filter (belongs (e_now E (w_tick w)) ctx target) (proxy_cookies (w_db w))) cks)) w"
  using jar_cookies_spec [of E c ctx target False w]
  unfolding Cookies_def by (auto elim!: wp_mono simp: reads_only_untouched filter_belongs [where v = False, simplified] split: sum.splits)

text \<open>A quiet program after the event.\<close>

lemma wp_quiet: "(\<And>l. keeps (quiet l) p) \<Longrightarrow> wp p (\<lambda>_ w'. outgoing w' = outgoing w) w"
  by (simp add: keeps_def wp_run quiet_def)

lemma wp_attempt_seq:
  assumes "wp p R w" and "\<And>e w'. R (Inl e) w' \<Longrightarrow> wp (err e) Q w'" and "\<And>x w'. R (Inr x) w' \<Longrightarrow> wp (ok x) Q w'"
  shows "wp (attempt p err ok) Q w"
  unfolding wp_attempt by (rule wp_mono [OF assms(1)]) (auto split: sum.split intro: assms(2,3))

lemma exchange_sends:
  assumes "may_reach E s (w_db w) (rt_user rt) (forward_url rt r) t v" and "Allowed v"
    and "untouched w w1" and "withheld h" and "Values h ''Cookie'' = []" and "adds_none (outgoing_header (rq_header r)) h"
  shows "wp (exchange E P s rt t r h up w0) (\<lambda>_ w'. sends_at_most_one (forwarded E s (w_db w) rt r) w w') w1"
  unfolding exchange_def
proof (rule wp_attempt_seq [OF Cookies_spec], goal_cases)
  case (1 e w2)
  then show ?case using assms(3) by (simp add: wp_refuse untouched_def sends_none)
next
  case (2 cookies w2)
  note c = 2
  have send: "wp (attempt (make_transport E s t rt) (\<lambda>_. refuse w0 r ErrUpstreamProxyUnavailable) (\<lambda>tr.
     attempt (round_trip E tr (out_request r t h cookies)) (\<lambda>_. refuse w0 r ErrUpstreamError) rest))
     (\<lambda>_ w'. sends_at_most_one (forwarded E s (w_db w) rt r) w w') w2"
    if rest: "\<And>x l. keeps (quiet l) (rest x)" for rest
  proof (rule wp_attempt_seq [OF make_transport_spec], goal_cases)
    case (1 e w3)
    then show ?case using c assms(3) by (simp add: wp_refuse untouched_def sends_none)
  next
    case (2 tr w3)
    let ?out = "out_request r t h cookies"
    have d: "w_db w1 = w_db w" "w_db w2 = w_db w" "outgoing w3 = outgoing w"
      using c 2 assms(3) by (simp_all add: untouched_def)
    have "withheld (rq_header ?out)"
      unfolding out_request_def using assms(4) AddCookie_same_but by (auto intro: withheld_same_but)
    moreover have "from_jar E s (w_db w) rt t (rq_header ?out)"
      using c d(1) AddCookie_only [of h "\<lambda>_. None" cookies] assms(5)
      by (auto simp: from_jar_def out_request_def Values_def)
    moreover have "strips_nominated (rq_header r) (rq_header ?out)"
      unfolding out_request_def using strips_nominated_outgoing [OF assms(6)] by simp
    ultimately have f: "forwarded E s (w_db w) rt r (Sent tr ?out)"
      using assms(1,2) 2 d(2) unfolding forwarded_def event.case by (auto simp: out_request_def)
    have o: "outgoing (w3\<lparr>w_tick := n, w_trace := w_trace w3 @ [Sent tr ?out]\<rparr>) = outgoing w @ [Sent tr ?out]" for n
      using d(3) by (simp add: outgoing_def)
    show ?case unfolding wp_attempt wp_round_trip
      using o by (auto simp: wp_refuse sends_at_most_one_def f split: sum.split intro!: wp_mono [OF wp_quiet [OF rest]])
  qed
  show ?case by (rule send) (intro keeps_intro)
qed

text \<open>
  C4: The proxy only sends what it may. Forwarding one browser request sends at most one request, and if
  it sends one: the target was resolved and checked by the guard in this very run, the policies that
  apply to the route's user now allow it, the connection ends at an address that was checked (no second
  lookup of the name), directly only if the user may go out directly now and otherwise through the
  route's upstream proxy, enabled and assigned to the user now; the request is for the resolved URL, with
  the browser's method and body; and of the headers no hop-by-hop header leaves, neither one of the
  standard ones (such as the program token in \<open>Proxy-Authorization\<close>) nor one that the browser's
  \<open>Connection\<close> names, no forwarding header and none of the proxy's own cookies: the cookies, and they
  alone, are those the context's jar has for the URL, whatever \<open>Connection\<close> says. Every other outcome sends nothing.
\<close>

theorem forward_sends_authorized:
  "wp (forward E P s rt w0 r) (\<lambda>_ w'. sends_at_most_one (forwarded E s (w_db w) rt r) w w') w"
  unfolding forward_def
proof (rule wp_attempt_seq [OF authorize_spec], goal_cases)
  case (1 e w1)
  then show ?case by (simp add: wp_refuse untouched_def sends_none)
next
  case (2 tv w1)
  obtain t v where tv: "tv = (t, v)" by (cases tv)
  from 2 have w1: "untouched w w1" and reach: "may_reach E s (w_db w) (rt_user rt) (forward_url rt r) t v" by (auto simp: tv)
  show ?case
  proof (cases "Allowed v")
    case False
    have "wp (audit E (rt_user rt) ''proxy.denied'' (url_string (t_url t)) ''denied'') (\<lambda>_ w'. outgoing w' = outgoing w1) w1"
      by (rule wp_quiet) (rule keeps_intro)
    with False w1 show ?thesis
      by (auto simp: tv wp_bind wp_refuse untouched_def elim!: wp_mono intro: sends_none)
  next
    case True
    have "wp (exchange E P s rt t r h2 up w0) (\<lambda>_ w'. sends_at_most_one (forwarded E s (w_db w) rt r) w w') w3"
      if "untouched w1 w2" "same_but ''Origin'' (outgoing_header (rq_header r)) h1" "untouched w2 w3" "same_but ''Referer'' h1 h2"
        "adds_none (outgoing_header (rq_header r)) h1" "adds_none h1 h2"
      for h1 h2 w2 w3 up
    proof (rule exchange_sends [OF reach True])
      show "untouched w w3" using w1 that(1,3) by (blast intro: untouched_trans)
      show "withheld h2" using that outgoing_header_withheld(1) by (blast intro: withheld_same_but)
      show "adds_none (outgoing_header (rq_header r)) h2" using that(5,6) by (simp add: adds_none_def)
      show "Values h2 ''Cookie'' = []"
        using that(2,4) outgoing_header_withheld(2) canonical_withheld(2,3) by (simp add: same_but_def)
    qed
    then show ?thesis using True
      by (auto simp: tv wp_bind intro!: wp_mono [OF translate_header_spec])
  qed
qed

end
