(* ===== verification/Mux.thy ===== *)
theory Mux
  imports Egress
begin

text \<open>
  \<open>internal/proxy/mux.go\<close>: many requests of a page over one WebSocket connection. Frames are decoded,
  the streams of a connection are a map from identifiers to what has arrived of a request, and a
  complete request is executed with up to ten redirects. Messages that fail to be written are faults
  of the environment, like failing statements.
\<close>

section \<open>Frames\<close>

definition frameStart :: "8 word" where "frameStart = 1"
definition frameChunk :: "8 word" where "frameChunk = 2"
definition frameEnd :: "8 word" where "frameEnd = 3"
definition frameCancel :: "8 word" where "frameCancel = 4"
definition frameResponse :: "8 word" where "frameResponse = 11"
definition frameResponseChunk :: "8 word" where "frameResponseChunk = 12"
definition frameResponseEnd :: "8 word" where "frameResponseEnd = 13"
definition frameResponseError :: "8 word" where "frameResponseError = 14"

definition maxMuxRequestBody :: nat where "maxMuxRequestBody = 32 * 2 ^ 20"

text \<open>A frame is the version byte 1, the kind, the stream's identifier in big-endian order and the payload.\<close>

definition put_uint32 :: "32 word \<Rightarrow> string" where
  "put_uint32 x = map (\<lambda>i. char_of (unat x div 256 ^ i mod 256)) [3, 2, 1, 0]"

definition uint32 :: "string \<Rightarrow> 32 word" where
  "uint32 s = of_nat (foldl (\<lambda>n c. 256 * n + code c) 0 (take 4 s))"

definition encode_frame :: "8 word \<Rightarrow> 32 word \<Rightarrow> string \<Rightarrow> string" where
  "encode_frame kind i payload = [char_of (1 :: nat), char_of (unat kind)] @ put_uint32 i @ payload"

definition decode_frame :: "string \<Rightarrow> (8 word \<times> 32 word \<times> string) option" where
  "decode_frame data =
    (if length data < 6 \<or> code (data ! 0) \<noteq> 1 then None
     else Some (of_nat (code (data ! 1)), uint32 (drop 2 data), drop 6 data))"

definition mux_send :: "env \<Rightarrow> 8 word \<Rightarrow> 32 word \<Rightarrow> body \<Rightarrow> unit result prog" where
  "mux_send E kind i payload = State (\<lambda>w. case e_fault E (w_tick w) of
     Some err \<Rightarrow> (Inl err, w\<lparr>w_tick := Suc (w_tick w)\<rparr>)
   | None \<Rightarrow> (Inr (), w\<lparr>w_tick := Suc (w_tick w), w_trace := w_trace w @ [Framed kind i payload]\<rparr>))"

definition muxError :: "env \<Rightarrow> 32 word \<Rightarrow> string \<Rightarrow> unit prog" where
  "muxError E i message = ignore (mux_send E frameResponseError i (Bytes message))"

section \<open>Streams\<close>

record mux_request =
  mx_method :: string
  mx_url :: string
  mx_headers :: "(string \<times> string) list"

record mux_stream =
  ms_meta :: mux_request
  ms_body :: string

type_synonym mux_streams = "32 word \<rightharpoonup> mux_stream"

text \<open>What a frame does besides changing the streams.\<close>

datatype mux_action = Ignore | Report string | Execute mux_stream

definition start_frame :: "(string \<Rightarrow> mux_request option) \<Rightarrow> mux_stream option \<Rightarrow> string \<Rightarrow> mux_stream option \<times> mux_action" where
  "start_frame dec old payload = (case old of
     Some _ \<Rightarrow> (old, Report ''error.proxy.mux.duplicate_stream'')
   | None \<Rightarrow> (case dec payload of
       None \<Rightarrow> (None, Report ''error.proxy.mux.invalid_metadata'')
     | Some meta \<Rightarrow>
         if mx_url meta = [] \<or> mx_method meta = [] then (None, Report ''error.proxy.mux.invalid_metadata'')
         else (Some \<lparr>ms_meta = meta, ms_body = []\<rparr>, Ignore)))"

definition chunk_frame :: "mux_stream option \<Rightarrow> string \<Rightarrow> mux_stream option \<times> mux_action" where
  "chunk_frame old payload = (case old of
     None \<Rightarrow> (None, Ignore)
   | Some st \<Rightarrow>
       if maxMuxRequestBody < length (ms_body st) + length payload then (None, Report ''error.proxy.mux.body_too_large'')
       else (Some (st\<lparr>ms_body := ms_body st @ payload\<rparr>), Ignore))"

definition end_frame :: "mux_stream option \<Rightarrow> mux_stream option \<times> mux_action" where
  "end_frame old = (case old of None \<Rightarrow> (None, Ignore) | Some st \<Rightarrow> (None, Execute st))"

definition stream_frame :: "(string \<Rightarrow> mux_request option) \<Rightarrow> 8 word \<Rightarrow> string \<Rightarrow> mux_stream option \<Rightarrow> mux_stream option \<times> mux_action" where
  "stream_frame dec kind payload old =
    (if kind = frameStart then start_frame dec old payload
     else if kind = frameChunk then chunk_frame old payload
     else if kind = frameEnd then end_frame old
     else if kind = frameCancel then (None, Ignore)
     else (old, Ignore))"

definition mux_frame :: "(string \<Rightarrow> mux_request option) \<Rightarrow> 8 word \<Rightarrow> 32 word \<Rightarrow> string \<Rightarrow> mux_streams \<Rightarrow> mux_streams \<times> mux_action" where
  "mux_frame dec kind i payload states = (case stream_frame dec kind payload (states i) of
     (st, action) \<Rightarrow> (states(i := st), action))"

section \<open>Executing a request\<close>

definition httpCookieURL :: "url \<Rightarrow> url" where
  "httpCookieURL u = (if u_scheme u = ''wss'' then u\<lparr>u_scheme := ''https''\<rparr>
     else if u_scheme u = ''ws'' then u\<lparr>u_scheme := ''http''\<rparr> else u)"

definition mux_header :: "(string \<times> string) list \<Rightarrow> cookie list \<Rightarrow> header" where
  "mux_header headers cookies = fold AddCookie cookies
     (fold hDel [''Tvpn-Error-Code'', ''Cookie'', ''Accept-Encoding'']
       (stripHopHeaders (fold (\<lambda>(n, v). hSet n v) headers (\<lambda>_. None))))"

definition is_redirect :: "response \<Rightarrow> bool" where
  "is_redirect response \<longleftrightarrow> \<not> (rs_status response < 300 \<or> 399 < rs_status response \<or> Get (rs_header response) ''Location'' = [])"

definition becomes_get :: "nat \<Rightarrow> string \<Rightarrow> bool" where
  "becomes_get status method \<longleftrightarrow> status = 303 \<or> (status = 301 \<or> status = 302) \<and> method = ''POST''"

primrec mux_hops :: "env \<Rightarrow> service \<Rightarrow> route \<Rightarrow> (string \<times> string) list \<Rightarrow> nat \<Rightarrow> string \<Rightarrow> string \<Rightarrow> target \<Rightarrow> (response \<times> target) result prog" where
  "mux_hops E s rt headers 0 method body current = State_Monad.return (Inl ''too many redirects'')"
| "mux_hops E s rt headers (Suc n) method body current =
     ok_or (State_Monad.return (new_request method (url_string (t_url current)) body)) (\<lambda>rq.
     ok_or (Cookies E (sv_cipher s) (rt_context rt) (httpCookieURL (t_url current))) (\<lambda>cookies.
     ok_or (make_transport E s current rt) (\<lambda>tr.
     ok_or (round_trip E tr (rq\<lparr>rq_header := mux_header headers cookies\<rparr>)) (\<lambda>response.
     ok_or (SaveCookies E (sv_cipher s) (rt_context rt) (httpCookieURL (t_url current)) (response_cookies E response)) (\<lambda>_.
     if \<not> is_redirect response then State_Monad.return (Inr (response, current))
     else (case url_parse_ref (t_url current) (Get (rs_header response) ''Location'') of
         None \<Rightarrow> State_Monad.return (Inl ''invalid URL'')
       | Some location \<Rightarrow> ok_or (wrap_err (\<lambda>_. ''redirect denied'') (authorize E s (rt_user rt) (url_string location))) (\<lambda>(t, d).
           if \<not> Allowed d then State_Monad.return (Inl ''redirect denied'')
           else if becomes_get (rs_status response) method then mux_hops E s rt headers n ''GET'' [] t
           else mux_hops E s rt headers n method body t)))))))"

definition muxRoundTrip :: "env \<Rightarrow> service \<Rightarrow> route \<Rightarrow> target \<Rightarrow> mux_request \<Rightarrow> string \<Rightarrow> (response \<times> target) result prog" where
  "muxRoundTrip E s rt t meta body = mux_hops E s rt (mx_headers meta) 11 (mx_method meta) body t"

definition mux_metadata :: "response \<Rightarrow> target \<Rightarrow> cookie list \<Rightarrow> json" where
  "mux_metadata response final visible = JObj
     [(''status'', JNum (int (rs_status response))),
      (''statusText'', JStr (TrimPrefix (rs_line response) (itoa (rs_status response) @ '' ''))),
      (''headers'', JMap (\<lambda>name.
         if CanonicalHeaderKey name = ''Set-Cookie'' \<or> CanonicalHeaderKey name = ''Tvpn-Error-Code'' \<or> isHopHeader (CanonicalHeaderKey name)
         then None else map_option (\<lambda>vs. Join vs '', '') (rs_header response name))),
      (''url'', JStr (url_string (t_url final))),
      (''cookies'', JList (map (\<lambda>c. JStr (ck_name c @ ''='' @ ck_value c)) visible))]"

text \<open>The body in pieces of at most 32 KiB.\<close>

function pieces :: "nat \<Rightarrow> string \<Rightarrow> string list" where
  "pieces n s = (if s = [] \<or> n = 0 then [] else take n s # pieces n (drop n s))"
  by pat_completeness auto
termination by (relation "measure (\<lambda>(n, s). length s)") auto

declare pieces.simps [simp del]

text \<open>
  The loop over the body sends what arrived in pieces. Then it sends the end frame when the body was read
  to its end, and an error frame when reading failed.
\<close>

primrec send_pieces :: "env \<Rightarrow> 32 word \<Rightarrow> bool \<Rightarrow> string list \<Rightarrow> unit result prog" where
  "send_pieces E i whole [] =
    (if whole then mux_send E frameResponseEnd i (Bytes [])
     else mux_send E frameResponseError i (Bytes ''error.proxy.mux.response_interrupted''))"
| "send_pieces E i whole (p # ps) = ok_or (mux_send E frameResponseChunk i (Bytes p)) (\<lambda>_. send_pieces E i whole ps)"

definition executeMux :: "env \<Rightarrow> service \<Rightarrow> route \<Rightarrow> 32 word \<Rightarrow> mux_stream \<Rightarrow> unit prog" where
  "executeMux E s rt i st =
    (if mx_method (ms_meta st) = ''CONNECT'' \<or> mx_method (ms_meta st) = ''TRACE''
     then muxError E i ''error.proxy.mux.unsupported_method''
     else do {
       raw \<leftarrow> normalizeClientURL E s rt (mx_url (ms_meta st));
       found \<leftarrow> authorize E s (rt_user rt) raw;
       (case (case found of Inl _ \<Rightarrow> None | Inr (t, d) \<Rightarrow> if Allowed d then Some t else None) of
          None \<Rightarrow> do {
            audit E (rt_user rt) ''proxy.denied'' raw ''denied'';
            muxError E i ''error.proxy.target_denied'' }
        | Some t \<Rightarrow>
            attempt (muxRoundTrip E s rt t (ms_meta st) (ms_body st)) (\<lambda>_. muxError E i ''error.proxy.upstream_error'') (\<lambda>(response, final). do {
              found \<leftarrow> VisibleCookies E (sv_cipher s) (rt_context rt) (httpCookieURL (t_url final));
              (let visible = (case found of Inl _ \<Rightarrow> [] | Inr cks \<Rightarrow> cks) in
               ignore (ok_or (mux_send E frameResponse i (Json (mux_metadata response final visible))) (\<lambda>_. do {
                 (arrived, whole) \<leftarrow> read_body E response;
                 send_pieces E i whole (pieces (32 * 2 ^ 10) arrived) }))) })) })"

section \<open>The connection\<close>

text \<open>
  One message of the browser. The stream a frame completes is handed to \<open>run\<close>; in the program it then
  runs beside the loop, in this function before the next message is read.
\<close>

definition perform :: "env \<Rightarrow> (32 word \<Rightarrow> mux_stream \<Rightarrow> unit prog) \<Rightarrow> 32 word \<Rightarrow> mux_action \<Rightarrow> unit prog" where
  "perform E run i action = (case action of Ignore \<Rightarrow> skip | Report message \<Rightarrow> muxError E i message | Execute st \<Rightarrow> run i st)"

primrec mux_loop :: "env \<Rightarrow> (string \<Rightarrow> mux_request option) \<Rightarrow> (32 word \<Rightarrow> mux_stream \<Rightarrow> unit prog) \<Rightarrow> (bool \<times> string) list
    \<Rightarrow> mux_streams \<Rightarrow> unit prog" where
  "mux_loop E dec run [] states = skip"
| "mux_loop E dec run (m # ms) states =
    (case (if fst m then decode_frame (snd m) else None) of
       None \<Rightarrow> emit (Closed 1003 ''error.proxy.mux.invalid_frame'')
     | Some (kind, i, payload) \<Rightarrow> (case mux_frame dec kind i payload states of
         (states', action) \<Rightarrow> do {
           perform E run i action;
           mux_loop E dec run ms states' }))"

definition serveMux :: "env \<Rightarrow> service \<Rightarrow> (string \<Rightarrow> mux_request option) \<Rightarrow> route \<Rightarrow> reply \<Rightarrow> request \<Rightarrow> reply prog" where
  "serveMux E s dec rt w r = do {
     refused \<leftarrow> ws_accept E r [];
     (case refused of
        Some reply \<Rightarrow> State_Monad.return reply
      | None \<Rightarrow> do {
          messages \<leftarrow> ws_messages E;
          mux_loop E dec (executeMux E s rt) messages (\<lambda>_. None);
          State_Monad.return w }) }"

section \<open>Decoding and encoding\<close>

lemma put_uint32_eq: "put_uint32 x = [char_of (unat x div 256 div 256 div 256 mod 256), char_of (unat x div 256 div 256 mod 256),
    char_of (unat x div 256 mod 256), char_of (unat x mod 256)]"
  by (simp add: put_uint32_def div_mult2_eq [symmetric])

lemma base_256: "n < 4294967296 \<Longrightarrow>
  256 * (256 * (256 * (n div 256 div 256 div 256 mod 256) + n div 256 div 256 mod 256) + n div 256 mod 256) + n mod 256 = (n :: nat)"
proof -
  assume "n < 4294967296"
  then have "n div 256 div 256 div 256 mod 256 = n div 256 div 256 div 256" by simp
  then show ?thesis by (simp only: mult_div_mod_eq)
qed

lemma base_256_digits:
  assumes "d < 256" shows "(256 * q + d) div 256 = (q :: nat)" "(256 * q + d) mod 256 = d"
  using assms by simp_all

lemma base_256_bound: "q \<le> m \<Longrightarrow> 256 * q + code c \<le> 256 * m + 255"
  using code_less_256 [of c] by linarith

lemma code_char_of_mod: "code (char_of (n mod 256)) = n mod 256"
  by (rule code_char_of) simp

lemma uint32_four: "uint32 (a # b # c # d # s) = word_of_nat (256 * (256 * (256 * code a + code b) + code c) + code d)"
  by (simp add: uint32_def)

lemma uint32_put: "uint32 (put_uint32 x @ s) = x"
proof -
  have "unat x < 4294967296" using unsigned_less [of x, where ?'a = nat] by simp
  from base_256 [OF this] have "uint32 (put_uint32 x @ s) = word_of_nat (unat x)"
    by (simp only: put_uint32_eq append_Cons append_Nil uint32_four code_char_of_mod)
  then show ?thesis by simp
qed

lemma length_put [simp]: "length (put_uint32 x) = 4"
  by (simp add: put_uint32_def)

lemma word_of_nat_unat: "n < 2 ^ LENGTH('a :: len) \<Longrightarrow> unat (word_of_nat n :: 'a word) = n"
  by (simp add: unsigned_of_nat take_bit_nat_eq_self)

lemma put_uint32: "length s = 4 \<Longrightarrow> put_uint32 (uint32 s) = s"
proof -
  assume "length s = 4"
  then obtain a b c d where s: "s = [a, b, c, d]" by (auto simp: numeral_eq_Suc length_Suc_conv)
  let ?n = "256 * (256 * (256 * code a + code b) + code c) + code d"
  have "code a \<le> 255" using code_less_256 [of a] by linarith
  then have "?n \<le> 256 * (256 * (256 * 255 + 255) + 255) + 255" by (intro base_256_bound)
  then have "?n < 2 ^ LENGTH(32)" by simp
  then have "unat (word_of_nat ?n :: 32 word) = ?n" by (intro word_of_nat_unat)
  moreover have "uint32 s = word_of_nat ?n" by (simp only: s uint32_four)
  ultimately show ?thesis by (simp only: put_uint32_eq s base_256_digits code_less_256 mod_less char_of_code)
qed

text \<open>
  Frames are read exactly as they are written: a message decodes to a kind, a stream and a payload
  if and only if it is the encoding of them, for every kind byte, identifier and payload. Anything else,
  short or of another version, is refused.
\<close>

theorem frame_roundtrip: "decode_frame data = Some (kind, i, payload) \<longleftrightarrow> data = encode_frame kind i payload"
proof
  assume "data = encode_frame kind i payload"
  then show "decode_frame data = Some (kind, i, payload)"
    using unsigned_less [of kind, where ?'a = nat] uint32_put [of i payload] length_put
    by (simp add: decode_frame_def encode_frame_def code_char_of)
next
  assume d: "decode_frame data = Some (kind, i, payload)"
  then have l: "6 \<le> length data" "code (data ! 0) = 1" and
    k: "kind = of_nat (code (data ! 1))" "i = uint32 (drop 2 data)" "payload = drop 6 data"
    by (auto simp: decode_frame_def split: if_splits)
  then obtain v b rest where data: "data = v # b # rest" "4 \<le> length rest" "code v = 1"
    by (cases data; cases "tl data") auto
  have "put_uint32 (uint32 rest) = take 4 rest"
    using put_uint32 [of "take 4 rest"] data(2) by (simp add: uint32_def min_def)
  moreover have "v = char_of (1 :: nat)" using data(3) by (metis char_of_code)
  moreover have "unat (word_of_nat (code b) :: 8 word) = code b" by (intro word_of_nat_unat) simp
  ultimately show "data = encode_frame kind i payload"
    using k by (simp add: encode_frame_def data(1))
qed

section \<open>Streams are independent\<close>

fun mux_run :: "(string \<Rightarrow> mux_request option) \<Rightarrow> (8 word \<times> 32 word \<times> string) list \<Rightarrow> mux_streams \<Rightarrow> mux_streams \<times> (32 word \<times> mux_action) list" where
  "mux_run dec [] states = (states, [])"
| "mux_run dec ((kind, i, payload) # fs) states = (case mux_frame dec kind i payload states of
     (states', a) \<Rightarrow> (case mux_run dec fs states' of (states'', as) \<Rightarrow> (states'', (i, a) # as)))"

fun stream_run :: "(string \<Rightarrow> mux_request option) \<Rightarrow> (8 word \<times> string) list \<Rightarrow> mux_stream option \<Rightarrow> mux_stream option \<times> mux_action list" where
  "stream_run dec [] st = (st, [])"
| "stream_run dec ((kind, payload) # fs) st = (case stream_frame dec kind payload st of
     (st', a) \<Rightarrow> (case stream_run dec fs st' of (st'', as) \<Rightarrow> (st'', a # as)))"

definition of_stream :: "32 word \<Rightarrow> (32 word \<times> 'b) list \<Rightarrow> 'b list" where
  "of_stream i xs = map snd (filter (\<lambda>x. fst x = i) xs)"

definition by_stream :: "32 word \<Rightarrow> (8 word \<times> 32 word \<times> string) list \<Rightarrow> (8 word \<times> string) list" where
  "by_stream i fs = map (\<lambda>(k, _, p). (k, p)) (filter (\<lambda>(_, j, _). j = i) fs)"

lemma mux_run_stream:
  "fst (mux_run dec fs states) i = fst (stream_run dec (by_stream i fs) (states i))
   \<and> of_stream i (snd (mux_run dec fs states)) = snd (stream_run dec (by_stream i fs) (states i))"
proof (induction fs arbitrary: states)
  case (Cons f fs)
  obtain kind j payload where f: "f = (kind, j, payload)" by (cases f)
  obtain st a where sf: "stream_frame dec kind payload (states j) = (st, a)" by fastforce
  obtain st2 as2 where r: "mux_run dec fs (states(j := st)) = (st2, as2)" by fastforce
  have IH: "st2 i = fst (stream_run dec (by_stream i fs) (if i = j then st else states i))
    \<and> of_stream i as2 = snd (stream_run dec (by_stream i fs) (if i = j then st else states i))"
    using Cons [of "states(j := st)", unfolded r] by simp
  then show ?case using r sf
    by (cases "j = i") (auto simp: f mux_frame_def by_stream_def of_stream_def split: prod.splits)
qed (simp add: by_stream_def of_stream_def)

lemma chunk_run:
  assumes "length (ms_body st) + length (concat cs) \<le> maxMuxRequestBody"
  shows "stream_run dec (map (Pair frameChunk) cs @ [(frameEnd, e)]) (Some st)
     = (None, replicate (length cs) Ignore @ [Execute (st\<lparr>ms_body := ms_body st @ concat cs\<rparr>)])"
  using assms
proof (induction cs arbitrary: st)
  case (Cons c cs)
  let ?st = "st\<lparr>ms_body := ms_body st @ c\<rparr>"
  from Cons have "stream_run dec (map (Pair frameChunk) cs @ [(frameEnd, e)]) (Some ?st)
     = (None, replicate (length cs) Ignore @ [Execute (?st\<lparr>ms_body := ms_body ?st @ concat cs\<rparr>)])" by (intro Cons.IH) simp
  then show ?case using Cons.prems
    by (simp add: stream_frame_def chunk_frame_def frameStart_def frameChunk_def)
qed (simp add: stream_frame_def end_frame_def frameStart_def frameChunk_def frameEnd_def)

text \<open>
  C18: Streams of one connection do not disturb each other, and a request arrives whole. Whatever frames
  of other streams are mixed in, a stream whose frames are a valid start, chunks of up to 32 MiB in all
  and the end leads to exactly one action, at its end: the execution of the request that was started
  with the chunks in order as its body; and the identifier is free again.
\<close>

theorem mux_request_assembled:
  assumes "by_stream i fs = (frameStart, p) # map (Pair frameChunk) cs @ [(frameEnd, e)]" and "states i = None"
    and "dec p = Some meta" and "mx_url meta \<noteq> []" and "mx_method meta \<noteq> []" and "length (concat cs) \<le> maxMuxRequestBody"
  shows "fst (mux_run dec fs states) i = None \<and> of_stream i (snd (mux_run dec fs states))
     = Ignore # replicate (length cs) Ignore @ [Execute \<lparr>ms_meta = meta, ms_body = concat cs\<rparr>]"
proof -
  have "stream_run dec (map (Pair frameChunk) cs @ [(frameEnd, e)]) (Some \<lparr>ms_meta = meta, ms_body = []\<rparr>)
      = (None, replicate (length cs) Ignore @ [Execute \<lparr>ms_meta = meta, ms_body = concat cs\<rparr>])"
    using chunk_run [of "\<lparr>ms_meta = meta, ms_body = []\<rparr>" cs dec e] assms(6) by simp
  then show ?thesis
    using mux_run_stream [of dec fs states i] assms by (simp add: stream_frame_def start_frame_def)
qed

definition sample_frames :: "(8 word \<times> 32 word \<times> string) list" where
  "sample_frames = [(frameStart, 7, ''meta''), (frameChunk, 9, ''?''), (frameChunk, 7, ''ab''), (frameEnd, 9, []), (frameChunk, 7, ''c''),
     (frameEnd, 7, [])]"

definition sample_meta :: "string \<Rightarrow> mux_request option" where
  "sample_meta p = (if p = ''meta'' then Some \<lparr>mx_method = ''PUT'', mx_url = ''https://db.example.com/'', mx_headers = []\<rparr> else None)"

theorem mux_request_assembled_witness:
  "of_stream 7 (snd (mux_run sample_meta sample_frames (\<lambda>_. None)))
     = [Ignore, Ignore, Ignore, Execute \<lparr>ms_meta = \<lparr>mx_method = ''PUT'', mx_url = ''https://db.example.com/'', mx_headers = []\<rparr>, ms_body = ''abc''\<rparr>]"
  using mux_request_assembled [of 7 sample_frames "''meta''" "[''ab'', ''c'']" "[]" "\<lambda>_. None" sample_meta]
  by (simp add: by_stream_def sample_frames_def sample_meta_def maxMuxRequestBody_def)

text \<open>What a stream in progress and a request to be executed satisfy.\<close>

definition stream_ok :: "mux_stream \<Rightarrow> bool" where
  "stream_ok st \<longleftrightarrow> length (ms_body st) \<le> maxMuxRequestBody \<and> mx_method (ms_meta st) \<noteq> [] \<and> mx_url (ms_meta st) \<noteq> []"

definition streams_ok :: "mux_streams \<Rightarrow> bool" where
  "streams_ok states \<longleftrightarrow> (\<forall>i. case states i of None \<Rightarrow> True | Some st \<Rightarrow> stream_ok st)"

definition action_ok :: "mux_action \<Rightarrow> bool" where
  "action_ok a = (case a of Execute st \<Rightarrow> stream_ok st | _ \<Rightarrow> True)"

lemma stream_frame_ok:
  assumes "case old of None \<Rightarrow> True | Some st \<Rightarrow> stream_ok st"
  shows "(case fst (stream_frame dec kind payload old) of None \<Rightarrow> True | Some st \<Rightarrow> stream_ok st)
    \<and> action_ok (snd (stream_frame dec kind payload old))"
  using assms
  by (auto simp: stream_frame_def start_frame_def chunk_frame_def end_frame_def stream_ok_def action_ok_def maxMuxRequestBody_def
      split: option.splits)

lemma mux_frame_ok: "mux_frame dec kind i payload states = (states', a) \<Longrightarrow> streams_ok states \<Longrightarrow> streams_ok states' \<and> action_ok a"
  using stream_frame_ok [of "states i" dec kind payload]
  by (auto simp: mux_frame_def streams_ok_def split: prod.splits)

lemma mux_run_ok: "streams_ok states \<Longrightarrow> streams_ok (fst (mux_run dec fs states)) \<and> list_all (\<lambda>x. action_ok (snd x)) (snd (mux_run dec fs states))"
proof (induction dec fs states rule: mux_run.induct)
  case (2 dec kind i payload fs states)
  then show ?case using mux_frame_ok by (fastforce split: prod.splits)
qed simp

text \<open>
  C36: Whatever frames the browser sends, no request is executed, and no stream kept, whose body is
  larger than 32 MiB or whose method or URL is empty.
\<close>

theorem mux_bodies_bounded:
  "streams_ok (fst (mux_run dec fs (\<lambda>_. None))) \<and> list_all (\<lambda>x. action_ok (snd x)) (snd (mux_run dec fs (\<lambda>_. None)))"
  by (rule mux_run_ok) (simp add: streams_ok_def)

section \<open>What a stream sends\<close>

text \<open>The jar is the only part of the database a stream changes, and no decision looks at it.\<close>

definition jar_change :: "db \<Rightarrow> db \<Rightarrow> bool" where
  "jar_change d d' \<longleftrightarrow> (\<exists>cs. d' = d\<lparr>proxy_cookies := cs\<rparr>)"

lemma jar_change_refl [simp]: "jar_change d d"
  unfolding jar_change_def by (rule exI [of _ "proxy_cookies d"]) simp

lemma jar_change_trans: "jar_change d d' \<Longrightarrow> jar_change d' d'' \<Longrightarrow> jar_change d d''"
  by (auto simp: jar_change_def)

lemma jar_change_same:
  assumes "jar_change d d'"
  shows "effective_policies d' u = effective_policies d u" "direct_permitted d' u = direct_permitted d u"
    "usable_upstream d' u i x = usable_upstream d u i x"
    "usable_upstream d' u i = usable_upstream d u i"
  using assms by (auto simp: fun_eq_iff jar_change_def effective_policies_def stored_rules_def has_policy_def direct_permitted_def
      usable_upstream_def may_use_def)

lemma SaveCookies_jar: "wp (SaveCookies E c ctx origin cks) (\<lambda>_ w'. jar_change (w_db w) (w_db w') \<and> outgoing w' = outgoing w) w"
proof -
  have "statement_keeps (jar_change d) (delete_cookie ctx n dm pa)" "statement_keeps (jar_change d) (upsert_cookie row)" for d n dm pa row
    by (auto simp: statement_keeps_def delete_cookie_def upsert_cookie_def Let_def store_db_ok jar_change_def)
  then have "keeps (on_db (jar_change d)) (save_cookie E c ctx origin ck)" for ck d
    unfolding save_cookie_def by (intro keeps_intro)
  then have "keeps (on_db (jar_change d)) (SaveCookies E c ctx origin cks)" for d
    by (induction cks) (auto intro!: keeps_intro)
  moreover have "keeps (quiet (outgoing w)) (SaveCookies E c ctx origin cks)" by (rule keeps_intro)
  ultimately show ?thesis by (auto simp: keeps_def on_db_def quiet_def wp_run)
qed

definition mux_withheld :: "header \<Rightarrow> bool" where
  "mux_withheld h \<longleftrightarrow> list_all (\<lambda>n. Values h n = []) (hop_headers @ [''Accept-Encoding'', ''Tvpn-Error-Code''])"

lemma mux_header_withheld: "mux_withheld (mux_header headers cookies)"
proof -
  let ?h = "fold hDel [''Tvpn-Error-Code'', ''Cookie'', ''Accept-Encoding''] (stripHopHeaders (fold (\<lambda>(n, v). hSet n v) headers (\<lambda>_. None)))"
  have "Values ?h n = []" if "n \<in> set (hop_headers @ [''Accept-Encoding'', ''Tvpn-Error-Code''])" for n
    using that unfolding stripHopHeaders_def Values_hDels by auto
  moreover have "Values (fold AddCookie cookies ?h) n = Values ?h n" if "n \<in> set withheld_headers" for n
    using AddCookie_same_but [of ?h cookies] canonical_withheld(1) that by (auto simp: same_but_def list_all_iff)
  ultimately show ?thesis by (simp add: mux_withheld_def mux_header_def list_all_iff withheld_headers_def)
qed

lemma mux_header_nominated: "strips_nominated (fold (\<lambda>(n, v). hSet n v) headers (\<lambda>_. None)) (mux_header headers cookies)"
proof -
  let ?h = "fold (\<lambda>(n, v). hSet n v) headers (\<lambda>_. None)"
  have "Values (fold hDel [''Tvpn-Error-Code'', ''Cookie'', ''Accept-Encoding''] (stripHopHeaders ?h)) n = []" if "n \<in> set (nominated ?h)" for n
    using that unfolding stripHopHeaders_names Values_hDels by auto
  then show ?thesis using AddCookie_same_but [of _ cookies]
    unfolding strips_nominated_def mux_header_def list_all_iff same_but_def by (metis (no_types, lifting))
qed

definition mux_sent :: "env \<Rightarrow> service \<Rightarrow> db \<Rightarrow> route \<Rightarrow> (string \<times> string) list \<Rightarrow> event \<Rightarrow> bool" where
  "mux_sent E s d rt headers ev = (case ev of
     Sent tr out \<Rightarrow> (\<exists>raw t v u. may_reach E s d (rt_user rt) raw t v \<and> Allowed v \<and> goes_out d rt t tr
       \<and> url_parse (url_string (t_url t)) = Some u \<and> rq_url out = u\<lparr>u_host := TrimSuffix (u_host u) '':''\<rparr>
       \<and> mux_withheld (rq_header out) \<and> strips_nominated (fold (\<lambda>(n, v). hSet n v) headers (\<lambda>_. None)) (rq_header out))
   | _ \<Rightarrow> False)"

definition sends_up_to :: "nat \<Rightarrow> (event \<Rightarrow> bool) \<Rightarrow> world \<Rightarrow> world \<Rightarrow> bool" where
  "sends_up_to n P w w' \<longleftrightarrow> (\<exists>evs. outgoing w' = outgoing w @ evs \<and> length evs \<le> n \<and> list_all P evs)"

lemma sends_up_to_refl [simp]: "outgoing w' = outgoing w \<Longrightarrow> sends_up_to n P w w'"
  by (simp add: sends_up_to_def)

lemma sends_up_to_step: "P ev \<Longrightarrow> outgoing w1 = outgoing w @ [ev] \<Longrightarrow> sends_up_to n P w1 w' \<Longrightarrow> sends_up_to (Suc n) P w w'"
  unfolding sends_up_to_def by fastforce

lemma may_reach_jar: "jar_change d d' \<Longrightarrow> may_reach E s d' u raw t v = may_reach E s d u raw t v"
  by (simp add: may_reach_def jar_change_same)

lemma goes_out_jar: "jar_change d d' \<Longrightarrow> goes_out d' rt t tr = goes_out d rt t tr"
  by (simp add: goes_out_def jar_change_same split: option.split)

lemma new_requestD: "new_request method raw body = Inr rq \<Longrightarrow> \<exists>u. url_parse raw = Some u \<and> rq_url rq = u\<lparr>u_host := TrimSuffix (u_host u) '':''\<rparr>"
  by (auto simp: new_request_def Let_def split: if_splits option.splits)

text \<open>What holds before a hop sends, and after.\<close>

definition mux_before :: "db \<Rightarrow> world \<Rightarrow> world \<Rightarrow> bool" where
  "mux_before d w w' \<longleftrightarrow> jar_change d (w_db w') \<and> outgoing w' = outgoing w"

definition mux_after :: "env \<Rightarrow> service \<Rightarrow> db \<Rightarrow> route \<Rightarrow> (string \<times> string) list \<Rightarrow> nat \<Rightarrow> world \<Rightarrow> world \<Rightarrow> bool" where
  "mux_after E s d rt headers n w w' \<longleftrightarrow> jar_change d (w_db w') \<and> sends_up_to n (mux_sent E s d rt headers) w w'"

lemma mux_before_after: "mux_before d w w' \<Longrightarrow> mux_after E s d rt headers n w w'"
  by (simp add: mux_before_def mux_after_def)

lemma mux_before_untouched: "mux_before d w w1 \<Longrightarrow> untouched w1 w2 \<Longrightarrow> mux_before d w w2"
  by (simp add: mux_before_def untouched_def)

lemma mux_after_step:
  "mux_sent E s d rt headers ev \<Longrightarrow> outgoing w1 = outgoing w @ [ev] \<Longrightarrow> mux_after E s d rt headers n w1 w' \<Longrightarrow> mux_after E s d rt headers (Suc n) w w'"
  by (auto simp: mux_after_def intro: sends_up_to_step)

text \<open>Once a hop has sent, the cookies are saved and a redirect is authorized before the next hop.\<close>

lemma after_hop:
  assumes jar: "jar_change d (w_db w1)"
    and next_hop: "\<And>raw t v m b w2. may_reach E s d (rt_user rt) raw t v \<Longrightarrow> Allowed v \<Longrightarrow> mux_before d w1 w2 \<Longrightarrow>
      wp (mux_hops E s rt headers n m b t) (\<lambda>_ w'. mux_after E s d rt headers n w2 w') w2"
  shows "wp (ok_or (SaveCookies E c ctx u cks) (\<lambda>_.
     if \<not> is_redirect response then State_Monad.return (Inr (response, current))
     else (case url_parse_ref (t_url current) (Get (rs_header response) ''Location'') of
         None \<Rightarrow> State_Monad.return (Inl ''invalid URL'')
       | Some location \<Rightarrow> ok_or (wrap_err (\<lambda>_. ''redirect denied'') (authorize E s (rt_user rt) (url_string location))) (\<lambda>(t, d).
           if \<not> Allowed d then State_Monad.return (Inl ''redirect denied'')
           else if becomes_get (rs_status response) method then mux_hops E s rt headers n ''GET'' [] t
           else mux_hops E s rt headers n method body t))))
     (\<lambda>_ w'. mux_after E s d rt headers n w1 w') w1"
proof (rule wp_seq [OF SaveCookies_jar], goal_cases)
  case (1 e w2)
  then show ?case using jar by (auto intro!: mux_before_after simp: mux_before_def intro: jar_change_trans)
next
  case (2 x w2)
  then have b: "mux_before d w1 w2" using jar by (auto simp: mux_before_def intro: jar_change_trans)
  have hop: "wp (mux_hops E s rt headers n m bd t) (\<lambda>_ w'. mux_after E s d rt headers n w1 w') w3"
    if "mux_before d w1 w3" "may_reach E s (w_db w2) (rt_user rt) raw t v" "Allowed v" for m bd t v raw w3
  proof -
    have "outgoing w3 = outgoing w1" using that(1) by (simp add: mux_before_def)
    then have "mux_after E s d rt headers n w3 = mux_after E s d rt headers n w1" by (intro ext) (simp add: mux_after_def sends_up_to_def)
    moreover have "may_reach E s d (rt_user rt) raw t v"
      using that(2) b may_reach_jar [of d "w_db w2"] by (simp add: mux_before_def)
    ultimately show ?thesis using next_hop [OF _ that(3,1)] by metis
  qed
  show ?case
  proof (cases "is_redirect response")
    case False
    then show ?thesis using b by (simp add: wp_return mux_before_after)
  next
    case True
    show ?thesis
    proof (cases "url_parse_ref (t_url current) (Get (rs_header response) ''Location'')")
      case None
      then show ?thesis using b True by (simp add: wp_return mux_before_after)
    next
      case (Some location)
      have "wp (wrap_err (\<lambda>_. ''redirect denied'') (authorize E s (rt_user rt) (url_string location)))
         (\<lambda>r w3. mux_before d w1 w3 \<and> (case r of Inl _ \<Rightarrow> True | Inr (t, v) \<Rightarrow> may_reach E s (w_db w2) (rt_user rt) (url_string location) t v)) w2"
        unfolding wp_wrap_err by (rule wp_mono [OF authorize_spec]) (auto intro: mux_before_untouched [OF b] split: sum.splits)
      then show ?thesis unfolding Some option.case using True
        by (simp) (erule wp_seq, auto simp: wp_return intro: mux_before_after hop)
    qed
  qed
qed

lemma mux_hops_sends:
  assumes "may_reach E s d (rt_user rt) raw t v" and "Allowed v" and "jar_change d (w_db w)"
  shows "wp (mux_hops E s rt headers n verb body t) (\<lambda>_ w'. mux_after E s d rt headers n w w') w"
  using assms
proof (induction n arbitrary: raw t v w body verb)
  case 0
  then show ?case by (simp add: wp_return mux_after_def)
next
  case (Suc n)
  note reach = Suc.prems(1,2)
  have b: "mux_before d w w" using Suc.prems(3) by (simp add: mux_before_def)
  show ?case
  proof (cases "new_request verb (url_string (t_url t)) body")
    case (Inl e)
    then show ?thesis using b by (simp add: wp_ok_or wp_return mux_before_after)
  next
    case (Inr rq)
    show ?thesis unfolding mux_hops.simps Inr wp_ok_or [of "State_Monad.return _"] wp_return sum.case
    proof (rule wp_seq [OF Cookies_spec], goal_cases)
      case (1 e w1)
      then show ?case using mux_before_untouched [OF b] by (auto intro: mux_before_after)
    next
      case (2 cookies w1)
      then have b1: "mux_before d w w1" using mux_before_untouched [OF b] by auto
      show ?case
      proof (rule wp_seq [OF make_transport_spec], goal_cases)
        case (1 e w2)
        then show ?case using mux_before_untouched [OF b1] by (auto intro: mux_before_after)
      next
        case (2 tr w2)
        then have b2: "mux_before d w w2" using mux_before_untouched [OF b1] by auto
        let ?rq = "rq\<lparr>rq_header := mux_header headers cookies\<rparr>"
        have "goes_out d rt t tr" using 2 b1 goes_out_jar [of d "w_db w1"] by (simp add: mux_before_def)
        then have sent: "mux_sent E s d rt headers (Sent tr ?rq)"
          using reach new_requestD [OF Inr] mux_header_withheld mux_header_nominated unfolding mux_sent_def event.case by fastforce
        have w3: "outgoing w3 = outgoing w @ [Sent tr ?rq] \<and> jar_change d (w_db w3)"
          if "w3 = w2\<lparr>w_tick := k, w_trace := w_trace w2 @ [Sent tr ?rq]\<rparr>" for w3 k
          using that b2 by (simp add: mux_before_def outgoing_def)
        show ?case
        proof (rule wp_seq [where R = "\<lambda>_ w3. outgoing w3 = outgoing w @ [Sent tr ?rq] \<and> jar_change d (w_db w3)"], goal_cases)
          case 1
          show ?case unfolding wp_round_trip by (rule w3) simp
        next
          case (2 e w3)
          then show ?case using sent by (auto simp: mux_after_def intro: sends_up_to_step)
        next
          case (3 response w3)
          then have o: "outgoing w3 = outgoing w @ [Sent tr ?rq]" and j: "jar_change d (w_db w3)" by auto
          show ?case
          proof (rule wp_mono [OF after_hop [OF j]], goal_cases)
            case (1 raw' t' v' m bd w4)
            then show ?case using Suc.IH by (simp add: mux_before_def)
          next
            case (2 x w4)
            then show ?case using mux_after_step [OF sent o] by simp
          qed
        qed
      qed
    qed
  qed
qed

lemma mux_send_quiet [keeps_intro]: "keeps (quiet l) (mux_send E k i p)"
  by (simp add: keeps_def wp_def mux_send_def quiet_def outgoing_def split: option.split)

lemma muxError_quiet [keeps_intro]: "keeps (quiet l) (muxError E i m)"
  unfolding muxError_def by (intro keeps_intro)

lemma send_pieces_quiet [keeps_intro]: "keeps (quiet l) (send_pieces E i whole ps)"
  by (induction ps) (auto intro!: keeps_intro)

text \<open>
  C5: A multiplexed request sends only what it may, on every hop. Executing a stream sends at most
  eleven requests: the first and ten redirects. Each of them goes to a target that the guard resolved
  and checked in this run, redirects included, that the policies of the route's user allow, to a
  checked address, by a way out the user has; and without hop-by-hop headers, whatever headers the page
  asked for: neither the standard ones nor those that its own Connection header names.
\<close>

theorem mux_sends_authorized:
  "wp (executeMux E s rt i st) (\<lambda>_ w'. sends_up_to 11 (mux_sent E s (w_db w) rt (mx_headers (ms_meta st))) w w') w"
proof -
  have none: "wp p (\<lambda>_ w'. sends_up_to 11 (mux_sent E s (w_db w) rt (mx_headers (ms_meta st))) w w') w1"
    if "\<And>l. keeps (quiet l) p" "outgoing w1 = outgoing w" for p :: "unit prog" and w1
    using that by (intro wp_mono [OF wp_quiet [OF that(1)]]) simp
  have hops: "wp (attempt (muxRoundTrip E s rt t (ms_meta st) body) (\<lambda>_. muxError E i m) answer)
      (\<lambda>_ w'. sends_up_to 11 (mux_sent E s (w_db w) rt (mx_headers (ms_meta st))) w w') w1"
    if reach: "may_reach E s (w_db w) (rt_user rt) raw t v" "Allowed v" and w1: "untouched w w1" and quiet: "\<And>x l. keeps (quiet l) (answer x)"
    for t raw v w1 body m and answer :: "response \<times> target \<Rightarrow> unit prog"
  proof -
    have "wp (muxRoundTrip E s rt t (ms_meta st) body) (\<lambda>_ w'. sends_up_to 11 (mux_sent E s (w_db w) rt (mx_headers (ms_meta st))) w w') w1"
      unfolding muxRoundTrip_def using w1
      by (intro wp_mono [OF mux_hops_sends [OF reach]]) (auto simp: mux_after_def untouched_def sends_up_to_def)
    moreover have rest: "wp p (\<lambda>_ w'. sends_up_to 11 (mux_sent E s (w_db w) rt (mx_headers (ms_meta st))) w w') w2"
      if "\<And>l. keeps (quiet l) p" "sends_up_to 11 (mux_sent E s (w_db w) rt (mx_headers (ms_meta st))) w w2" for p :: "unit prog" and w2
      using that by (intro wp_mono [OF wp_quiet [OF that(1)]]) (simp add: sends_up_to_def)
    ultimately show ?thesis unfolding wp_attempt
      by (auto elim!: wp_mono intro!: rest quiet muxError_quiet split: sum.split)
  qed
  show ?thesis
  proof (cases "mx_method (ms_meta st) = ''CONNECT'' \<or> mx_method (ms_meta st) = ''TRACE''")
    case True
    then show ?thesis by (auto simp: executeMux_def intro!: none keeps_intro)
  next
    case False
    have n: "wp (normalizeClientURL E s rt v) (\<lambda>_ w'. untouched w w') w" for v
      by (intro untouched_keeps keeps_intro)
    show ?thesis unfolding executeMux_def if_not_P [OF False]
    proof (rule wp_then [OF n], rule wp_then [OF authorize_spec], goal_cases)
      case (1 raw w1 found w2)
      then have w2: "untouched w w2" "w_db w1 = w_db w" using untouched_trans by (blast, simp add: untouched_def)
      show ?case
      proof (cases "case found of Inl _ \<Rightarrow> None | Inr (t, d) \<Rightarrow> if Allowed d then Some t else None")
        case None
        then show ?thesis using w2 by (auto simp: untouched_def intro!: none keeps_intro)
      next
        case (Some t)
        then obtain v where "found = Inr (t, v)" "Allowed v" by (auto split: sum.splits if_splits)
        moreover from this 1 w2 have "may_reach E s (w_db w) (rt_user rt) raw t v" by simp
        ultimately show ?thesis unfolding Some option.case
          by (intro hops [OF _ _ w2(1)]) (auto simp: Let_def intro!: keeps_intro)
      qed
    qed
  qed
qed

end
