(* ===== verification/WebSocket.thy ===== *)
theory WebSocket
  imports Mux
begin

text \<open>
  \<open>internal/proxy/websocket.go\<close>: a WebSocket of a page is relayed to its target. Dialling, accepting and
  what ends the relaying are answers of the environment (package \<open>coder/websocket\<close>).
\<close>

section \<open>Authorization\<close>

definition ws_http_scheme :: "url \<Rightarrow> url" where
  "ws_http_scheme parsed = parsed\<lparr>u_scheme := (if u_scheme parsed = ''ws'' then ''http'' else ''https'')\<rparr>"

definition authorizeWebSocket :: "env \<Rightarrow> service \<Rightarrow> uuid \<Rightarrow> string \<Rightarrow> (target \<times> decision) result prog" where
  "authorizeWebSocket E s user raw = (case url_parse (TrimSpace raw) of
     None \<Rightarrow> State_Monad.return (Inl ''only ws and wss URLs are supported'')
   | Some parsed \<Rightarrow>
       if u_scheme parsed \<noteq> ''ws'' \<and> u_scheme parsed \<noteq> ''wss'' then State_Monad.return (Inl ''only ws and wss URLs are supported'')
       else ok_or (GuardResolve E (sv_guard s) (url_string (ws_http_scheme parsed))) (\<lambda>resolved.
         let t = resolved\<lparr>t_url := (t_url resolved)\<lparr>u_scheme := u_scheme parsed\<rparr>\<rparr> in
         ok_or (Effective E user) (\<lambda>policies.
         State_Monad.return (Inr (t, Evaluate policies (t_url t) (t_addresses t))))))"

section \<open>Relaying\<close>

definition splitProtocols :: "string \<Rightarrow> string list" where
  "splitProtocols value = filter (\<lambda>item. item \<noteq> []) (map TrimSpace (Split value CHR '',''))"

text \<open>
  \<open>websocketPump\<close> for the reads that a source delivers, given whether the n-th write of a message fails:
  the messages that were written and the error that ended it, if it has ended.
\<close>

fun websocketPump :: "(nat \<Rightarrow> 'm \<Rightarrow> 'e option) \<Rightarrow> nat \<Rightarrow> ('e + 'm) list \<Rightarrow> 'm list \<times> 'e option" where
  "websocketPump write_error n [] = ([], None)"
| "websocketPump write_error n (Inl e # reads) = ([], Some e)"
| "websocketPump write_error n (Inr m # reads) = (case write_error n m of
     Some e \<Rightarrow> ([], Some e)
   | None \<Rightarrow> (case websocketPump write_error (Suc n) reads of (ms, e) \<Rightarrow> (m # ms, e)))"

text \<open>The close frame both sides get: the one that was received, or a normal closure.\<close>

definition closing :: "(int \<times> string) option \<Rightarrow> int \<times> string" where
  "closing first = (case first of
     None \<Rightarrow> (1000, [])
   | Some (status, reason) \<Rightarrow> (if status < 0 then 1000 else status, reason))"

text \<open>\<open>Cookie.String\<close> of a cookie that only has a name and a value.\<close>

definition cookie_string :: "cookie \<Rightarrow> string" where
  "cookie_string ck = (if \<not> cookie_name_ok (ck_name ck) then [] else ck_name ck @ ''='' @ sanitize_cookie_value (ck_value ck))"

definition ws_header :: "route \<Rightarrow> cookie list \<Rightarrow> header" where
  "ws_header rt cookies = fold (\<lambda>ck. hAdd ''Cookie'' (cookie_string ck)) cookies
     (hSet ''Origin'' (route_origin_url rt) (\<lambda>_. None))"

definition serveWebSocket :: "env \<Rightarrow> service \<Rightarrow> route \<Rightarrow> reply \<Rightarrow> request \<Rightarrow> reply prog" where
  "serveWebSocket E s rt w r = do {
     raw \<leftarrow> normalizeClientURL E s rt (query_get (u_rawquery (rq_url r)) ''target'');
     found \<leftarrow> authorizeWebSocket E s (rt_user rt) raw;
     (case (case found of Inl _ \<Rightarrow> None | Inr (t, d) \<Rightarrow> if Allowed d then Some t else None) of
        None \<Rightarrow> do {
          audit E (rt_user rt) ''proxy.websocket.denied'' raw ''denied'';
          refuse w r ErrTargetDenied }
      | Some t \<Rightarrow>
          attempt (Cookies E (sv_cipher s) (rt_context rt) (httpCookieURL (t_url t))) (\<lambda>_. refuse w r ErrInternal) (\<lambda>cookies.
          attempt (make_transport E s t rt) (\<lambda>_. refuse w r ErrUpstreamProxyUnavailable) (\<lambda>tr.
          attempt (ws_dial E tr (url_string (t_url t)) (ws_header rt cookies) (splitProtocols (Get (rq_header r) ''Sec-WebSocket-Protocol'')))
              (\<lambda>_. refuse w r ErrWebSocketUpstreamFailed) (\<lambda>(protocol, response). do {
            (case response of
               None \<Rightarrow> skip
             | Some rs \<Rightarrow> ignore (SaveCookies E (sv_cipher s) (rt_context rt) (httpCookieURL (t_url t)) (response_cookies E rs)));
            refused \<leftarrow> ws_accept E r (if protocol \<noteq> [] then [protocol] else []);
            (case refused of
               Some reply \<Rightarrow> State_Monad.return reply
             | None \<Rightarrow> do {
                 first \<leftarrow> ws_relay E;
                 emit (Closed (fst (closing first)) (snd (closing first)));
                 emit (Closed (fst (closing first)) (snd (closing first)));
                 State_Monad.return w }) })))) }"

section \<open>What leaves\<close>

lemma pump_in_order: "\<exists>rest. List.map_filter (\<lambda>r. case r of Inl _ \<Rightarrow> None | Inr m \<Rightarrow> Some m) reads = fst (websocketPump write_error n reads) @ rest"
  by (induction write_error n reads rule: websocketPump.induct)
    (auto simp: List.map_filter_def split: option.split prod.split)

definition ws_may_reach :: "env \<Rightarrow> service \<Rightarrow> db \<Rightarrow> uuid \<Rightarrow> string \<Rightarrow> target \<Rightarrow> bool" where
  "ws_may_reach E s d user raw t \<longleftrightarrow> (\<exists>parsed n t0. url_parse (TrimSpace raw) = Some parsed \<and> u_scheme parsed \<in> {''ws'', ''wss''}
     \<and> Resolve (e_idna E) (e_lookup E n) (sv_guard s) (url_string (ws_http_scheme parsed)) = Inr t0
     \<and> t = t0\<lparr>t_url := (t_url t0)\<lparr>u_scheme := u_scheme parsed\<rparr>\<rparr>
     \<and> Allowed (Evaluate (effective_policies d user) (t_url t) (t_addresses t)))"

lemma authorizeWebSocket_spec:
  "wp (authorizeWebSocket E s user raw) (\<lambda>r w'. untouched w w' \<and> (case r of Inl _ \<Rightarrow> True
     | Inr (t, v) \<Rightarrow> Allowed v \<longrightarrow> ws_may_reach E s (w_db w) user raw t)) w"
proof (cases "url_parse (TrimSpace raw)")
  case (Some parsed)
  show ?thesis
  proof (cases "u_scheme parsed = ''ws'' \<or> u_scheme parsed = ''wss''")
    case True
    then have n: "\<not> (u_scheme parsed \<noteq> ''ws'' \<and> u_scheme parsed \<noteq> ''wss'')" by blast
    show ?thesis unfolding authorizeWebSocket_def Some option.case if_not_P [OF n] Let_def
    proof (rule wp_seq [OF GuardResolve_untouched], goal_cases)
      case (2 t0 w1)
      have "ws_may_reach E s (w_db w) user raw (t0\<lparr>t_url := (t_url t0)\<lparr>u_scheme := u_scheme parsed\<rparr>\<rparr>)"
        if "Allowed (Evaluate (effective_policies (w_db w) user) ((t_url t0)\<lparr>u_scheme := u_scheme parsed\<rparr>) (t_addresses t0))"
        unfolding ws_may_reach_def
        by (rule exI [of _ parsed]) (use 2 Some True that in \<open>auto dest: sym\<close>)
      with 2 show ?case
        by (intro wp_seq [OF Effective_spec])
          (auto simp: wp_return untouched_def intro: untouched_trans dest: reads_only_untouched)
    qed auto
  next
    case False
    then show ?thesis by (simp add: authorizeWebSocket_def Some wp_return)
  qed
qed (simp add: authorizeWebSocket_def wp_return)

definition ws_opened :: "env \<Rightarrow> service \<Rightarrow> db \<Rightarrow> route \<Rightarrow> event \<Rightarrow> bool" where
  "ws_opened E s d rt ev = (case ev of
     Opened tr u h ps \<Rightarrow> (\<exists>raw t. ws_may_reach E s d (rt_user rt) raw t \<and> goes_out d rt t tr \<and> u = url_string (t_url t)
       \<and> Values h ''Origin'' = [route_origin_url rt])
   | _ \<Rightarrow> False)"

lemma filter_outgoing_redirects: "filter is_outgoing (map (Redirected tr) us) = map (Redirected tr) us"
  by (simp add: filter_id_conv)

lemma ws_header_origin: "Values (ws_header rt cookies) ''Origin'' = [route_origin_url rt]"
proof -
  have "Values (fold (\<lambda>ck. hAdd ''Cookie'' (f ck)) cookies h) ''Origin'' = Values h ''Origin''" for f :: "cookie \<Rightarrow> string" and h
    using canonical_withheld(2) by (induction cookies arbitrary: h) (auto simp: Values_hAdd)
  then show ?thesis by (simp add: ws_header_def Values_hSet)
qed

text \<open>
  What a WebSocket of a route may add to the trace: nothing, or one handshake to an authorized target and
  the redirects of it that are followed, all of them on the handshake's transport. The URLs that a
  redirect leads to are not checked again; the transport still dials only the address of the target that
  was checked, by the same way out.
\<close>

definition ws_sends :: "env \<Rightarrow> service \<Rightarrow> db \<Rightarrow> route \<Rightarrow> world \<Rightarrow> world \<Rightarrow> bool" where
  "ws_sends E s d rt w w' \<longleftrightarrow> outgoing w' = outgoing w
     \<or> (\<exists>tr u h ps us. ws_opened E s d rt (Opened tr u h ps) \<and> outgoing w' = outgoing w @ Opened tr u h ps # map (Redirected tr) us)"

text \<open>
  C6: A WebSocket is opened to a target only as a request is sent to one. At most one handshake is made:
  to a \<open>ws\<close> or \<open>wss\<close> URL whose HTTP form the guard resolved and checked in this run and whose address and
  URL the policies of the route's user allow, at a checked address and by a way out the user has, with
  the origin of the route and not one the page chose. The only other requests are the redirects of the
  handshake, which the client of the handshake follows without a check to whatever URL they name, and
  they stay on the handshake's transport: the same checked address and the same way out.
\<close>

theorem websocket_opens_authorized:
  "wp (serveWebSocket E s rt w0 r) (\<lambda>_ w'. ws_sends E s (w_db w) rt w w') w"
proof -
  have n: "wp (normalizeClientURL E s rt v) (\<lambda>_ w'. untouched w w') w" for v
    by (intro untouched_keeps keeps_intro)
  show ?thesis unfolding serveWebSocket_def
  proof (rule wp_then [OF n], rule wp_then [OF authorizeWebSocket_spec], goal_cases)
    case (1 raw w1 found w2)
    then have w2: "untouched w w2" "w_db w1 = w_db w" using untouched_trans by (blast, simp add: untouched_def)
    show ?case
    proof (cases "case found of Inl _ \<Rightarrow> None | Inr (t, d) \<Rightarrow> if Allowed d then Some t else None")
      case None
      have "wp (audit E (rt_user rt) ''proxy.websocket.denied'' raw ''denied'') (\<lambda>_ w'. outgoing w' = outgoing w2) w2"
        by (rule wp_quiet) (rule keeps_intro)
      then show ?thesis unfolding None option.case using w2(1)
        by (auto simp: wp_bind wp_refuse untouched_def elim!: wp_mono simp: ws_sends_def)
    next
      case (Some t)
      then obtain v where "found = Inr (t, v)" "Allowed v" by (auto split: sum.splits if_splits)
      with 1 w2 have reach: "ws_may_reach E s (w_db w) (rt_user rt) raw t" by simp
      show ?thesis unfolding Some option.case
      proof (rule wp_attempt_seq [OF Cookies_spec], goal_cases)
        case (1 e w3)
        then show ?case using w2(1) by (simp add: wp_refuse untouched_def ws_sends_def)
      next
        case (2 cookies w3)
        then have w3: "untouched w w3" using w2(1) untouched_trans by blast
        show ?case
        proof (rule wp_attempt_seq [OF make_transport_spec], goal_cases)
          case (1 e w4)
          then show ?case using w3 by (simp add: wp_refuse untouched_def ws_sends_def)
        next
          case (2 tr w4)
          have o: "outgoing w4 = outgoing w" "w_db w3 = w_db w" using 2 w3 by (simp_all add: untouched_def)
          let ?ev = "Opened tr (url_string (t_url t)) (ws_header rt cookies) (splitProtocols (Get (rq_header r) ''Sec-WebSocket-Protocol''))"
          have ev: "ws_opened E s (w_db w) rt ?ev"
            using reach 2 o(2) ws_header_origin by (auto simp: ws_opened_def)
          have rest: "wp p (\<lambda>_ w'. ws_sends E s (w_db w) rt w w') w5"
            if "\<And>l. keeps (quiet l) p" "outgoing w5 = outgoing w @ ?ev # map (Redirected tr) us" for p :: "reply prog" and w5 us
          proof (rule wp_mono [OF wp_quiet [OF that(1)]], goal_cases)
            case (1 x w')
            then show ?case using that(2) ev unfolding ws_sends_def by metis
          qed
          have q: "keeps (quiet l) (emit (Closed n x))" for l n x
            by (simp add: keeps_def wp_emit)
          show ?case unfolding wp_attempt wp_ws(1)
            using o(1) by (auto split: sum.split prod.split simp: outgoing_def filter_outgoing_redirects intro!: rest keeps_intro q)
        qed
      qed
    qed
  qed
qed

end
