(* ===== verification/Gateway.thy ===== *)
theory Gateway
  imports WebSocket
begin

text \<open>
  \<open>Service.ServeHTTP\<close> of \<open>internal/proxy/http.go\<close>: what a request to a host below the proxy domain has to
  show before it is served, and which handler serves it.
\<close>

section \<open>Credentials\<close>

definition proxyBearerToken :: "string \<Rightarrow> string option" where
  "proxyBearerToken value = (case Fields value of
     [scheme, token] \<Rightarrow> if EqualFold scheme ''Bearer'' \<and> token \<noteq> [] then Some token else None
   | _ \<Rightarrow> None)"

definition compatibilityRequestAllowed :: "env \<Rightarrow> service \<Rightarrow> request \<Rightarrow> route \<Rightarrow> bool prog" where
  "compatibilityRequestAllowed E s r rt =
    (if \<not> rt_compat rt \<or> HasPrefix (u_path (rq_url r)) ''/__tvpn/'' then State_Monad.return False
     else if Get (rq_header r) ''Sec-Fetch-Dest'' \<in> {''document'', ''iframe'', ''frame''} then State_Monad.return False
     else if Get (rq_header r) ''Origin'' = [] then State_Monad.return False
     else do {
       mapped \<leftarrow> mapProxyURLForContext E s rt (Get (rq_header r) ''Origin'');
       State_Monad.return (mapped \<noteq> None) })"

text \<open>A program token in \<open>Proxy-Authorization\<close>, if there is one, has to be good and decides alone.\<close>

definition token_access :: "env \<Rightarrow> route \<Rightarrow> request \<Rightarrow> bool option prog" where
  "token_access E rt r =
    (if Get (rq_header r) ''Proxy-Authorization'' = [] then State_Monad.return None
     else (let token = proxyBearerToken (Get (rq_header r) ''Proxy-Authorization'') in do {
       found \<leftarrow> SessionByProgramToken E (case token of None \<Rightarrow> [] | Some t \<Rightarrow> t);
       State_Monad.return (Some (case found of
          Inl _ \<Rightarrow> False
        | Inr x \<Rightarrow> token \<noteq> None \<and> ScopeProxy \<in> set (sn_scopes x) \<and> uu_id (sn_user x) = rt_user rt)) }))"

definition challenge :: "reply \<Rightarrow> request \<Rightarrow> reply" where
  "challenge w r = Problem (w\<lparr>rp_header := hSet ''Proxy-Authenticate'' (''Bearer realm='' @ [CHR 0x22] @ ''tvpn'' @ [CHR 0x22]) (rp_header w)\<rparr>)
     r ErrProxyAuthentication"

definition cookie_access :: "env \<Rightarrow> route \<Rightarrow> request \<Rightarrow> bool prog" where
  "cookie_access E rt r = (case rCookie r proxyCookieName of
     None \<Rightarrow> State_Monad.return False
   | Some token \<Rightarrow> do {
       found \<leftarrow> AuthenticateProxy E token;
       State_Monad.return (case found of Inl _ \<Rightarrow> False | Inr user \<Rightarrow> user = rt_user rt) })"

definition route_access :: "env \<Rightarrow> service \<Rightarrow> route \<Rightarrow> reply \<Rightarrow> request \<Rightarrow> (reply + unit) prog" where
  "route_access E s rt w r = do {
     by_token \<leftarrow> token_access E rt r;
     (if by_token = Some False then State_Monad.return (Inl (challenge w r))
      else do {
        authenticated \<leftarrow> (if by_token = Some True then State_Monad.return True else cookie_access E rt r);
        compatibilityAllowed \<leftarrow> compatibilityRequestAllowed E s r rt;
        State_Monad.return
          (if \<not> authenticated \<and> rCookie r proxyCookieName = None \<and> \<not> compatibilityAllowed then Inl (challenge w r)
           else if \<not> authenticated \<and> \<not> compatibilityAllowed then Inl (Problem w r ErrProxySessionInvalid)
           else Inr ()) }) }"

section \<open>Serving\<close>

text \<open>The decoders of the request bodies the handlers of the runtime read.\<close>

record proxy_decoders =
  pd_url :: "string \<Rightarrow> string option"
  pd_cookie :: "string \<Rightarrow> string option"
  pd_mux :: "string \<Rightarrow> mux_request option"

definition serve_runtime :: "html_package \<Rightarrow> reply \<Rightarrow> request \<Rightarrow> reply" where
  "serve_runtime P w r =
    (if rq_method r \<noteq> ''GET'' then Problem w r ErrMethodNotAllowed
     else w\<lparr>rp_header := hSet ''Cache-Control'' ''no-store'' (hSet ''Content-Type'' ''text/javascript; charset=utf-8'' (rp_header w)),
       rp_body := Bytes (runtimeJS P)\<rparr>)"

definition serve_route :: "env \<Rightarrow> html_package \<Rightarrow> proxy_decoders \<Rightarrow> service \<Rightarrow> route \<Rightarrow> reply \<Rightarrow> request \<Rightarrow> reply prog" where
  "serve_route E P D s rt w r =
    (let path = u_path (rq_url r) in
     if path = ''/__tvpn/runtime.js'' then State_Monad.return (serve_runtime P w r)
     else if path = ''/__tvpn/resolve'' then resolveURL E s (pd_url D) rt w r
     else if path = ''/__tvpn/cookie'' then setDocumentCookie E s (pd_cookie D) rt w r
     else if path = ''/__tvpn/mux'' then serveMux E s (pd_mux D) rt w r
     else if path = ''/__tvpn/ws'' then serveWebSocket E s rt w r
     else forward E P s rt w r)"

definition route_label :: "service \<Rightarrow> request \<Rightarrow> string option" where
  "route_label s r =
    (let host = ToLower (hostname (rq_host r)); suffix = ''.'' @ ToLower (hostname (sv_domain s))
     in if \<not> HasSuffix host suffix then None
        else if Contains (TrimSuffix host suffix) ''.'' then None
        else Some (TrimSuffix host suffix))"

definition ServeHTTP :: "env \<Rightarrow> html_package \<Rightarrow> proxy_decoders \<Rightarrow> service \<Rightarrow> reply \<Rightarrow> request \<Rightarrow> reply prog" where
  "ServeHTTP E P D s w r =
    (if ToLower (hostname (rq_host r)) = ''bootstrap.'' @ ToLower (hostname (sv_domain s)) then bootstrap E s w r
     else (case route_label s r of
       None \<Rightarrow> refuse w r ErrRouteNotFound
     | Some label \<Rightarrow>
         attempt (RouteByLabel E label) (\<lambda>_. refuse w r ErrRouteNotFound) (\<lambda>rt.
         attempt (route_access E s rt w r) State_Monad.return (\<lambda>_.
         serve_route E P D s rt w r))))"

section \<open>Who is served\<close>

text \<open>The three ways to be let in to a route, in terms of the tables and the time.\<close>

definition token_lets_in :: "env \<Rightarrow> db \<Rightarrow> int \<Rightarrow> route \<Rightarrow> request \<Rightarrow> bool" where
  "token_lets_in E d at rt r \<longleftrightarrow> (\<exists>token x. proxyBearerToken (Get (rq_header r) ''Proxy-Authorization'') = Some token
     \<and> HasPrefix token token_prefix \<and> names_token d at (e_sha256 E token) x \<and> ScopeProxy \<in> set (sn_scopes x) \<and> uu_id (sn_user x) = rt_user rt)"

definition cookie_lets_in :: "env \<Rightarrow> db \<Rightarrow> int \<Rightarrow> route \<Rightarrow> request \<Rightarrow> bool" where
  "cookie_lets_in E d at rt r \<longleftrightarrow> (\<exists>token p. Get (rq_header r) ''Proxy-Authorization'' = [] \<and> rCookie r proxyCookieName = Some token
     \<and> p \<in> set (proxy_sessions d) \<and> ps_hash p = e_sha256 E token \<and> at < ps_expires p \<and> ps_user p = rt_user rt)"

definition stored_route :: "env \<Rightarrow> db \<Rightarrow> string \<Rightarrow> route \<Rightarrow> bool" where
  "stored_route E d label rt \<longleftrightarrow> (\<exists>row c. parseLabel E label = Inr (rt_id rt) \<and> row \<in> set (proxy_routes d) \<and> pr_id row = rt_id rt
     \<and> c \<in> set (proxy_contexts d) \<and> pc_id c = pr_context row \<and> pc_closed c = None
     \<and> rt = \<lparr>rt_id = pr_id row, rt_context = pr_context row, rt_user = pc_user c, rt_scheme = pr_scheme row,
         rt_host = pr_host row, rt_port = pr_port row, rt_url = pc_url c, rt_upstream = pc_upstream c, rt_compat = pc_compat c\<rparr>)"

definition names_context :: "env \<Rightarrow> service \<Rightarrow> db \<Rightarrow> route \<Rightarrow> string \<Rightarrow> bool" where
  "names_context E s d rt origin \<longleftrightarrow> (\<exists>u label rt'. url_parse origin = Some u \<and> proxy_label s u = Some label \<and> stored_route E d label rt'
     \<and> (rt_context rt = uuid_Nil \<or> rt_context rt' = rt_context rt \<and> rt_user rt' = rt_user rt))"

definition origin_lets_in :: "env \<Rightarrow> service \<Rightarrow> db \<Rightarrow> route \<Rightarrow> request \<Rightarrow> bool" where
  "origin_lets_in E s d rt r \<longleftrightarrow> rt_compat rt \<and> \<not> HasPrefix (u_path (rq_url r)) ''/__tvpn/''
     \<and> Get (rq_header r) ''Sec-Fetch-Dest'' \<notin> {''document'', ''iframe'', ''frame''} \<and> Get (rq_header r) ''Proxy-Authorization'' = []
     \<and> names_context E s d rt (Get (rq_header r) ''Origin'')"

definition let_in :: "env \<Rightarrow> service \<Rightarrow> db \<Rightarrow> int \<Rightarrow> route \<Rightarrow> request \<Rightarrow> bool" where
  "let_in E s d at rt r \<longleftrightarrow> token_lets_in E d at rt r \<or> cookie_lets_in E d at rt r \<or> origin_lets_in E s d rt r"

lemma select_routeD: "select_route i at d = Inr (rt, d') \<Longrightarrow> parseLabel E label = Inr i \<Longrightarrow> d' = d \<and> stored_route E d label rt"
  by (auto simp: select_route_def read_row_def stored_route_def split: option.splits dest!: find_SomeD)

lemma RouteByLabel_spec:
  "wp (RouteByLabel E label) (\<lambda>r w'. untouched w w' \<and> (case r of Inl _ \<Rightarrow> True | Inr rt \<Rightarrow> stored_route E (w_db w) label rt)) w"
proof -
  have "wp (RouteByLabel E label) (\<lambda>_ w'. untouched w w') w" by (intro untouched_keeps keeps_intro)
  moreover have "wp (RouteByLabel E label) (\<lambda>r _. case r of Inl _ \<Rightarrow> True | Inr rt \<Rightarrow> stored_route E (w_db w) label rt) w"
    by (auto simp: RouteByLabel_def step_simps split: sum.split option.split dest: select_routeD)
  ultimately show ?thesis by (simp add: wp_conj)
qed

text \<open>Looking a route up is one step of the run, so the credentials are checked at the time of the next.\<close>

lemma RouteByLabel_one_step:
  "wp (RouteByLabel E label) (\<lambda>r w'. untouched w w' \<and> (case r of Inl _ \<Rightarrow> True
     | Inr rt \<Rightarrow> stored_route E (w_db w) label rt \<and> w_tick w' = Suc (w_tick w))) w"
proof -
  have "wp (RouteByLabel E label) (\<lambda>r w'. case r of Inl _ \<Rightarrow> True | Inr rt \<Rightarrow> w_tick w' = Suc (w_tick w)) w"
    by (auto simp: RouteByLabel_def step_simps split: sum.split option.split)
  with RouteByLabel_spec [of E label w] show ?thesis by (auto simp: wp_run split: sum.splits prod.splits)
qed

lemma token_access_spec:
  assumes "db_ok (w_db w)"
  shows "wp (token_access E rt r) (\<lambda>b w'. touched (w_db w) (w_db w') \<and> outgoing w' = outgoing w \<and> (case b of
     None \<Rightarrow> Get (rq_header r) ''Proxy-Authorization'' = [] \<and> w' = w
   | Some good \<Rightarrow> good = False \<or> token_lets_in E (w_db w) (e_now E (w_tick w)) rt r)) w"
proof (cases "Get (rq_header r) ''Proxy-Authorization'' = []")
  case True
  then show ?thesis by (simp add: token_access_def wp_return touched_refl)
next
  case False
  let ?t = "proxyBearerToken (Get (rq_header r) ''Proxy-Authorization'')"
  show ?thesis unfolding token_access_def if_not_P [OF False] Let_def wp_bind
    by (rule wp_mono [OF SessionByProgramToken_spec [OF assms]])
      (auto simp: wp_return token_lets_in_def outgoing_def split: sum.splits option.splits)
qed

lemma cookie_access_spec:
  assumes "Get (rq_header r) ''Proxy-Authorization'' = []"
  shows "wp (cookie_access E rt r) (\<lambda>b w'. untouched w w' \<and> (b = False \<or> rCookie r proxyCookieName \<noteq> None \<and> cookie_lets_in E (w_db w) (e_now E (w_tick w)) rt r)) w"
proof (cases "rCookie r proxyCookieName")
  case (Some token)
  have "wp (cookie_access E rt r) (\<lambda>_ w'. untouched w w') w"
    unfolding cookie_access_def AuthenticateProxy_def by (intro untouched_keeps keeps_intro)
  moreover have "wp (cookie_access E rt r) (\<lambda>b _. b = False \<or> cookie_lets_in E (w_db w) (e_now E (w_tick w)) rt r) w"
    using assms
    by (auto simp: cookie_access_def Some AuthenticateProxy_def step_simps select_proxy_session_def read_row_def cookie_lets_in_def
        split: option.split dest!: find_SomeD)
  ultimately show ?thesis by (simp add: wp_conj Some)
qed (simp add: cookie_access_def wp_return)

lemma compatibility_spec:
  assumes "Get (rq_header r) ''Proxy-Authorization'' = []"
  shows "wp (compatibilityRequestAllowed E s r rt) (\<lambda>b w'. untouched w w' \<and> (b = False \<or> origin_lets_in E s (w_db w) rt r)) w"
proof -
  have "wp (compatibilityRequestAllowed E s r rt) (\<lambda>_ w'. untouched w w') w"
    unfolding compatibilityRequestAllowed_def by (intro untouched_keeps keeps_intro)
  moreover have m: "wp (mapProxyURLForContext E s rt v) (\<lambda>m _. m = None \<or> names_context E s (w_db w) rt v) w" for v
    unfolding names_context_def
    by (auto simp: mapProxyURLForContext_def wp_return wp_bind intro!: wp_mono [OF RouteByLabel_spec] split: option.split sum.split)
      blast+
  have "wp (compatibilityRequestAllowed E s r rt) (\<lambda>b _. b = False \<or> origin_lets_in E s (w_db w) rt r) w"
    using assms by (auto simp: compatibilityRequestAllowed_def wp_return wp_bind origin_lets_in_def intro!: wp_mono [OF m])
  ultimately show ?thesis by (simp add: wp_conj)
qed

text \<open>A reply that turns the request away.\<close>

definition turned_away :: "world \<Rightarrow> world \<Rightarrow> reply \<Rightarrow> bool" where
  "turned_away w w' p \<longleftrightarrow> touched (w_db w) (w_db w') \<and> outgoing w' = outgoing w \<and> 400 \<le> rp_status p \<and> rp_status p < 600"

lemma Problem_turns_away: "touched (w_db w) (w_db w') \<Longrightarrow> outgoing w' = outgoing w \<Longrightarrow> turned_away w w' (Problem v r c)"
  using Problem_error [of v r c] by (simp add: turned_away_def)

lemma Problem_turns_away_same: "w_db w' = w_db w \<Longrightarrow> outgoing w' = outgoing w \<Longrightarrow> turned_away w w' (Problem v r c)"
  by (simp add: Problem_turns_away touched_refl)

lemma route_access_spec:
  assumes "db_ok (w_db w)"
  shows "wp (route_access E s rt w0 r) (\<lambda>x w'. case x of
     Inl p \<Rightarrow> turned_away w w' p | Inr _ \<Rightarrow> let_in E s (w_db w) (e_now E (w_tick w)) rt r) w"
  unfolding route_access_def
proof (rule wp_then [OF token_access_spec [OF assms]], goal_cases)
  case (1 by_token w1)
  consider "by_token = Some False" | "by_token = Some True" | "by_token = None" by (cases by_token) auto
  then show ?case
  proof cases
    case 1
    then show ?thesis using \<open>touched _ _ \<and> _\<close> by (auto simp: wp_return challenge_def intro: Problem_turns_away)
  next
    case 2
    with \<open>touched _ _ \<and> _\<close> have "let_in E s (w_db w) (e_now E (w_tick w)) rt r" by (simp add: let_in_def)
    with 2 show ?thesis by (simp add: wp_return wp_bind wp_any)
  next
    case 3
    with \<open>touched _ _ \<and> _\<close> have h: "Get (rq_header r) ''Proxy-Authorization'' = []" "w1 = w" by auto
    show ?thesis
      using 3 by (auto simp: wp_bind wp_return h(2) intro!: wp_mono [OF cookie_access_spec [OF h(1)]] wp_mono [OF compatibility_spec [OF h(1)]]
          simp: untouched_def challenge_def let_in_def intro!: Problem_turns_away_same)
  qed
qed

text \<open>
  C7: Nobody gets through the proxy without the route's user standing behind it. A request for a route
  is served only if it shows a program token with the proxy scope of the enabled user the route belongs
  to, which is not revoked and has not expired at the time of the check, the step after the route is
  looked up; or, without such a header, a proxy session of that user which has not expired at that time;
  or, in a context opened in compatibility mode, comes from a page of the same context and is no
  navigation. Otherwise, with an expired token or session, too, it is turned away with an error, nothing
  leaves the process and nothing is stored except the time a token was last used.
\<close>

theorem proxy_turns_away:
  assumes "db_ok (w_db w)"
    and "ToLower (hostname (rq_host r)) \<noteq> ''bootstrap.'' @ ToLower (hostname (sv_domain s))"
    and "\<And>label rt. route_label s r = Some label \<Longrightarrow> stored_route E (w_db w) label rt \<Longrightarrow> \<not> let_in E s (w_db w) (e_now E (Suc (w_tick w))) rt r"
  shows "wp (ServeHTTP E P D s w0 r) (\<lambda>p w'. turned_away w w' p) w"
proof (cases "route_label s r")
  case None
  then show ?thesis using assms(2) by (auto simp: ServeHTTP_def wp_refuse touched_refl intro: Problem_turns_away)
next
  case (Some label)
  show ?thesis unfolding ServeHTTP_def if_not_P [OF assms(2)] Some option.case
  proof (rule wp_attempt_seq [OF RouteByLabel_one_step], goal_cases)
    case (1 e w1)
    then show ?case by (auto simp: wp_refuse untouched_def touched_refl intro: Problem_turns_away)
  next
    case (2 rt w1)
    then have u: "w_db w1 = w_db w" "outgoing w1 = outgoing w" "stored_route E (w_db w) label rt" "w_tick w1 = Suc (w_tick w)"
      by (auto simp: untouched_def)
    have "wp (route_access E s rt w0 r) (\<lambda>x w'. case x of Inl p \<Rightarrow> turned_away w w' p | Inr _ \<Rightarrow> False) w1"
      using route_access_spec [of w1 E s rt w0 r] assms(1) assms(3) [OF Some u(3)] u(1,2,4)
      by (auto simp: turned_away_def elim!: wp_mono split: sum.splits)
    then show ?case unfolding wp_attempt by (auto simp: wp_return elim!: wp_mono split: sum.splits)
  qed
qed

text \<open>A page of a route, asked for with a proxy session that has expired: it let in before, and does not now.\<close>

definition expired_db :: db where
  "expired_db = ticket_db\<lparr>
     proxy_routes := [\<lparr>pr_id = 42, pr_context = 5, pr_scheme = ''http'', pr_host = ''db.example.com'', pr_port = 80\<rparr>],
     proxy_sessions := [\<lparr>ps_hash = ''sha256:s'', ps_user = 1, ps_expires = 5, ps_created = 0\<rparr>]\<rparr>"

definition expired_request :: request where
  "expired_request = \<lparr>rq_method = ''GET'', rq_url = empty_url\<lparr>u_path := ''/x''\<rparr>,
     rq_host = ''0000000000000000000000000000002a.proxy.example.org'', rq_header = hSet ''Cookie'' (proxyCookieName @ ''=s'') (\<lambda>_. None), rq_body = []\<rparr>"

lemma expired_host: "ToLower (hostname (rq_host expired_request)) \<noteq> ''bootstrap.'' @ ToLower (hostname (sv_domain sample_service))"
  "route_label sample_service expired_request = Some ''0000000000000000000000000000002a''"
  by code_simp+

lemma expired_cookie: "rCookie expired_request proxyCookieName = Some ''s''" "Get (rq_header expired_request) ''Proxy-Authorization'' = []"
  by code_simp+

lemma expired_lets_in: "cookie_lets_in sample_env expired_db 4 sample_route expired_request"
  "5 \<le> at \<Longrightarrow> rt_compat rt = False \<Longrightarrow> \<not> let_in sample_env sample_service expired_db at rt expired_request"
  using expired_cookie
  by (auto simp: let_in_def token_lets_in_def cookie_lets_in_def origin_lets_in_def proxyBearerToken_def Fields_def fields_aux.simps
      expired_db_def sample_route_def sample_env_def)

lemma expired_route: "stored_route sample_env expired_db ''0000000000000000000000000000002a''
  \<lparr>rt_id = 42, rt_context = 5, rt_user = 1, rt_scheme = ''http'', rt_host = ''db.example.com'', rt_port = 80,
     rt_url = ''http://db.example.com/'', rt_upstream = None, rt_compat = False\<rparr>"
proof -
  have "hex_digit 0 = CHR ''0''" "hex_digit 2 = CHR ''2''" "hex_digit 10 = CHR ''a''" by code_simp+
  then have "nibbles 32 42 = ''0000000000000000000000000000002a''" by (simp add: nibbles_def upt_conv_Cons)
  then have "routeLabel sample_env 42 = ''0000000000000000000000000000002a''"
    by (simp add: routeLabel_def ReplaceAll_dash sample_env_def sample_uuid_string_def Let_def)
  with parseLabel_routeLabel [OF sample_uuid, of 42]
  show ?thesis by (simp add: stored_route_def expired_db_def ticket_db_def)
qed

lemma sample_routes_strict: "stored_route E expired_db label rt \<Longrightarrow> rt_compat rt = False"
  by (auto simp: stored_route_def expired_db_def ticket_db_def)

theorem proxy_turns_away_witness:
  "cookie_lets_in sample_env expired_db 4 sample_route expired_request
    \<and> (\<forall>P D. wp (ServeHTTP sample_env P D sample_service new_reply expired_request)
         (\<lambda>p w'. turned_away (sample_world expired_db) w' p) (sample_world expired_db))"
proof (intro conjI allI proxy_turns_away)
  show "db_ok (w_db (sample_world expired_db))" by (simp add: sample_world_def expired_db_def ticket_db_def db_ok_eval)
next
  fix label rt assume "stored_route sample_env (w_db (sample_world expired_db)) label rt"
  then have "rt_compat rt = False" using sample_routes_strict by (simp add: sample_world_def)
  then show "\<not> let_in sample_env sample_service (w_db (sample_world expired_db)) (e_now sample_env (Suc (w_tick (sample_world expired_db)))) rt expired_request"
    using expired_lets_in(2) by (simp add: sample_world_def sample_env_def)
qed (rule expired_lets_in(1) expired_host)+

end
