(* ===== verification/Ldap.thy ===== *)
theory Ldap
  imports Auth_Store
begin

text \<open>
  \<open>internal/ldapauth/service.go\<close>: the settings of the directory, the connection to it, and the login of
  a directory user by search and bind or by a DN template. What the directory answers, how \<open>go-ldap\<close>
  escapes a value and parses a DN, and what is in the files are answers of the environment.
\<close>

section \<open>The service\<close>

record ldap_service =
  ld_password_file :: string
  ld_ca_file :: string
  ld_allow_insecure :: bool

definition New :: "string \<Rightarrow> string \<Rightarrow> bool \<Rightarrow> ldap_service" where
  "New bindPasswordFile caFile allowInsecure =
     \<lparr>ld_password_file = bindPasswordFile, ld_ca_file = caFile, ld_allow_insecure = allowInsecure\<rparr>"

definition BindPasswordConfigured :: "ldap_service \<Rightarrow> bool" where
  "BindPasswordConfigured s \<longleftrightarrow> ld_password_file s \<noteq> []"

definition ErrBadCredentials :: string where
  "ErrBadCredentials = ''invalid credentials''"

text \<open>\<open>Entry.GetAttributeValues\<close> of \<open>go-ldap\<close>: the values of the first attribute of that name.\<close>

definition GetAttributeValues :: "ldap_entry \<Rightarrow> string \<Rightarrow> string list" where
  "GetAttributeValues e name = (case map_of (le_attributes e) name of None \<Rightarrow> [] | Some vs \<Rightarrow> vs)"

definition GetAttributeValue :: "ldap_entry \<Rightarrow> string \<Rightarrow> string" where
  "GetAttributeValue e name = (case GetAttributeValues e name of [] \<Rightarrow> [] | v # _ \<Rightarrow> v)"

section \<open>Text\<close>

definition placeholder :: "string \<Rightarrow> string" where
  "placeholder key = ''{{'' @ key @ ''}}''"

definition renderFilter :: "env \<Rightarrow> string \<Rightarrow> string \<Rightarrow> string \<Rightarrow> string" where
  "renderFilter E template key val = ReplaceAll template (placeholder key) (e_ldap_escape_filter E val)"

definition renderDN :: "env \<Rightarrow> string \<Rightarrow> string \<Rightarrow> string" where
  "renderDN E template username = ReplaceAll template (placeholder ''username'') (e_ldap_escape_dn E username)"

definition first_of :: "string \<Rightarrow> string \<Rightarrow> string" where
  "first_of val fallback = (if TrimSpace val \<noteq> [] then val else fallback)"

definition rdnName :: "env \<Rightarrow> string \<Rightarrow> string" where
  "rdnName E val = (case e_ldap_parse_dn E val of Some ((v # _) # _) \<Rightarrow> v | _ \<Rightarrow> val)"

section \<open>Settings\<close>

definition select_settings :: "ldap_values statement" where
  "select_settings = read_rows (\<lambda>_ d. ldap_values.truncate (ldap_settings d))"

definition update_settings :: "ldap_values \<Rightarrow> unit statement" where
  "update_settings v t d = store_db () (d\<lparr>ldap_settings := ldap_values.extend v (ldap_row.fields t)\<rparr>)"

definition Settings :: "env \<Rightarrow> ldap_values result prog" where
  "Settings E = sql E select_settings"

definition check_enabled :: "ldap_values \<Rightarrow> unit result" where
  "check_enabled v = (case url_parse (ls_url v) of
     None \<Rightarrow> Inl ''LDAP URL must contain an ldap or ldaps host''
   | Some parsed \<Rightarrow>
       if u_scheme parsed \<noteq> ''ldap'' \<and> u_scheme parsed \<noteq> ''ldaps'' \<or> Hostname parsed = []
       then Inl ''LDAP URL must contain an ldap or ldaps host''
       else if ls_mode v = ''search_bind'' \<and> (ls_bind_dn v = [] \<or> \<not> Contains (ls_user_filter v) ''{{username}}'')
       then Inl ''search_bind requires bind DN and a user filter containing {{username}}''
       else if ls_mode v = ''dn_template'' \<and> \<not> Contains (ls_user_dn_template v) ''{{username}}''
       then Inl ''DN template must contain {{username}}''
       else if ls_group_mode v = ''search'' \<and> (\<not> Contains (ls_group_filter v) ''{{user_dn}}'' \<or> ls_group_base_dn v = [])
       then Inl ''group search requires a base DN and filter containing {{user_dn}}''
       else Inr ())"

definition check_settings :: "ldap_values \<Rightarrow> unit result" where
  "check_settings v =
    (if ls_mode v \<noteq> ''search_bind'' \<and> ls_mode v \<noteq> ''dn_template'' then Inl ''LDAP mode must be search_bind or dn_template''
     else if ls_group_mode v \<noteq> ''member_of'' \<and> ls_group_mode v \<noteq> ''search'' then Inl ''LDAP group mode must be member_of or search''
     else if ls_enabled v then check_enabled v
     else Inr ())"

definition UpdateSettings :: "env \<Rightarrow> ldap_values \<Rightarrow> unit result prog" where
  "UpdateSettings E given = (let v = given\<lparr>ls_url := TrimSpace (ls_url given)\<rparr> in
     ok_or (State_Monad.return (check_settings v)) (\<lambda>_. sql E (update_settings v)))"

section \<open>The connection\<close>

definition Bind :: "env \<Rightarrow> string \<Rightarrow> string \<Rightarrow> unit result prog" where
  "Bind E dn pw = ok_or (ldap_call E (Ldap_Bind dn pw)) (\<lambda>_. State_Monad.return (Inr ()))"

definition close_conn :: "env \<Rightarrow> unit prog" where
  "close_conn E = ignore (ldap_call E Ldap_Close)"

definition bindPassword :: "env \<Rightarrow> ldap_service \<Rightarrow> string result prog" where
  "bindPassword E s =
    (if ld_password_file s = [] then State_Monad.return (Inr [])
     else ok_or (read_file E (ld_password_file s)) (\<lambda>val. State_Monad.return (Inr (TrimRight val [CHR 0x0D, CHR 0x0A]))))"

text \<open>The TLS configuration: the server name of the URL, and the roots of the CA file if there is one.\<close>

definition tls_config :: "env \<Rightarrow> ldap_service \<Rightarrow> url \<Rightarrow> ldap_tls result prog" where
  "tls_config E s parsed =
    (if ld_ca_file s = [] then State_Monad.return (Inr \<lparr>lt_server_name = Hostname parsed, lt_roots = None\<rparr>)
     else ok_or (read_file E (ld_ca_file s)) (\<lambda>pem.
       State_Monad.return (if \<not> e_pem_certificates E pem then Inl ''LDAP CA file contains no certificates''
         else Inr \<lparr>lt_server_name = Hostname parsed, lt_roots = Some pem\<rparr>)))"

definition dial_ldap :: "env \<Rightarrow> ldap_service \<Rightarrow> ldap_values \<Rightarrow> unit result prog" where
  "dial_ldap E s settings = (case url_parse (ls_url settings) of
     None \<Rightarrow> State_Monad.return (Inl ''LDAP URL must use ldap or ldaps'')
   | Some parsed \<Rightarrow>
       if u_scheme parsed \<noteq> ''ldap'' \<and> u_scheme parsed \<noteq> ''ldaps'' then State_Monad.return (Inl ''LDAP URL must use ldap or ldaps'')
       else if u_scheme parsed = ''ldap'' \<and> \<not> ls_start_tls settings \<and> \<not> ld_allow_insecure s
       then State_Monad.return (Inl ''plain LDAP is disabled'')
       else ok_or (tls_config E s parsed) (\<lambda>tls.
         ok_or (ldap_call E (Ldap_Dial (ls_url settings) tls)) (\<lambda>_.
         if u_scheme parsed = ''ldap'' \<and> ls_start_tls settings then do {
           upgraded \<leftarrow> ldap_call E (Ldap_StartTLS tls);
           (case upgraded of
              Inl err \<Rightarrow> do { close_conn E; State_Monad.return (Inl err) }
            | Inr _ \<Rightarrow> State_Monad.return (Inr ())) }
         else State_Monad.return (Inr ()))))"

text \<open>The body between a successful dial and the deferred \<open>Close\<close>.\<close>

definition with_conn :: "env \<Rightarrow> 'a result prog \<Rightarrow> 'a result prog" where
  "with_conn E body = do { r \<leftarrow> body; close_conn E; State_Monad.return r }"

definition TestLdap :: "env \<Rightarrow> ldap_service \<Rightarrow> unit result prog" where
  "TestLdap E s = ok_or (Settings E) (\<lambda>settings.
     ok_or (dial_ldap E s settings) (\<lambda>_.
     with_conn E
       (if ls_bind_dn settings \<noteq> [] then ok_or (bindPassword E s) (\<lambda>pw. Bind E (ls_bind_dn settings) pw)
        else State_Monad.return (Inr ()))))"

section \<open>The login of a directory user\<close>

definition user_search :: "env \<Rightarrow> ldap_values \<Rightarrow> string \<Rightarrow> ldap_search" where
  "user_search E settings username = \<lparr>lq_base = ls_base_dn settings, lq_size_limit = 2,
     lq_filter = renderFilter E (ls_user_filter settings) ''username'' username,
     lq_attributes = [ls_username_attribute settings, ls_display_name_attribute settings, ls_email_attribute settings, ''memberOf'']\<rparr>"

definition findUser :: "env \<Rightarrow> ldap_values \<Rightarrow> string \<Rightarrow> ldap_entry result prog" where
  "findUser E settings username = do {
     found \<leftarrow> ldap_call E (Ldap_Search (user_search E settings username));
     State_Monad.return (case found of Inr [e] \<Rightarrow> Inr e | _ \<Rightarrow> Inl ErrBadCredentials) }"

definition group_search :: "env \<Rightarrow> ldap_values \<Rightarrow> ldap_entry \<Rightarrow> ldap_search" where
  "group_search E settings e = \<lparr>lq_base = ls_group_base_dn settings, lq_size_limit = 0,
     lq_filter = renderFilter E (ls_group_filter settings) ''user_dn'' (le_dn e),
     lq_attributes = [ls_group_name_attribute settings]\<rparr>"

definition groups_of :: "env \<Rightarrow> ldap_values \<Rightarrow> ldap_entry \<Rightarrow> (string \<times> string) list result prog" where
  "groups_of E settings e =
    (if ls_group_mode settings = ''member_of''
     then State_Monad.return (Inr (map (\<lambda>dn. (dn, rdnName E dn)) (GetAttributeValues e ''memberOf'')))
     else ok_or (ldap_call E (Ldap_Search (group_search E settings e))) (\<lambda>found.
       State_Monad.return (Inr (map (\<lambda>g. (le_dn g, first_of (GetAttributeValue g (ls_group_name_attribute settings)) (rdnName E (le_dn g)))) found))))"

text \<open>
  The two ways to check the password. With a template, the user's DN is bound first and the account of
  the service is restored; then the entry is searched, and a failed search counts as bad credentials.
  With a search, the entry is found as the service and its DN is bound. Each returns the entry.
\<close>

definition by_template :: "env \<Rightarrow> ldap_values \<Rightarrow> string \<Rightarrow> string \<Rightarrow> string \<Rightarrow> ldap_entry result prog" where
  "by_template E settings service_password username password =
    (let userDN = renderDN E (ls_user_dn_template settings) username in
     if userDN = [] then State_Monad.return (Inl ''LDAP user DN template is empty'')
     else ok_or (wrap_err (\<lambda>_. ErrBadCredentials) (Bind E userDN password)) (\<lambda>_.
       ok_or (if ls_bind_dn settings \<noteq> [] then wrap_err (\<lambda>err. ''restore LDAP service bind: '' @ err) (Bind E (ls_bind_dn settings) service_password)
              else State_Monad.return (Inr ())) (\<lambda>_.
       wrap_err (\<lambda>_. ErrBadCredentials) (findUser E settings username))))"

definition by_search :: "env \<Rightarrow> ldap_values \<Rightarrow> string \<Rightarrow> string \<Rightarrow> string \<Rightarrow> ldap_entry result prog" where
  "by_search E settings service_password username password =
    (if ls_bind_dn settings = [] then State_Monad.return (Inl ''LDAP bind DN is required for search_bind'')
     else ok_or (wrap_err (\<lambda>err. ''LDAP service bind: '' @ err) (Bind E (ls_bind_dn settings) service_password)) (\<lambda>_.
       wrap_err (\<lambda>_. ErrBadCredentials) (
         ok_or (findUser E settings username) (\<lambda>entry.
         ok_or (Bind E (le_dn entry) password) (\<lambda>_.
         ok_or (Bind E (ls_bind_dn settings) service_password) (\<lambda>_.
         State_Monad.return (Inr entry)))))))"

definition identity_of :: "ldap_values \<Rightarrow> string \<Rightarrow> ldap_entry \<Rightarrow> (string \<times> string) list \<Rightarrow> ldap_identity" where
  "identity_of settings username e gs = \<lparr>
     li_username = first_of (GetAttributeValue e (ls_username_attribute settings)) username,
     li_display = first_of (GetAttributeValue e (ls_display_name_attribute settings)) username,
     li_email = GetAttributeValue e (ls_email_attribute settings), li_groups = gs\<rparr>"

definition identify :: "env \<Rightarrow> ldap_service \<Rightarrow> ldap_values \<Rightarrow> string \<Rightarrow> string \<Rightarrow> ldap_identity result prog" where
  "identify E s settings username password = ok_or (bindPassword E s) (\<lambda>service_password.
     ok_or (if ls_mode settings = ''dn_template'' then by_template E settings service_password username password
            else by_search E settings service_password username password) (\<lambda>entry.
     ok_or (wrap_err (\<lambda>err. ''read LDAP groups: '' @ err) (groups_of E settings entry)) (\<lambda>gs.
     State_Monad.return (Inr (identity_of settings username entry gs)))))"

definition ldap_authenticate :: "env \<Rightarrow> ldap_service \<Rightarrow> string \<Rightarrow> string \<Rightarrow> ldap_identity result prog" where
  "ldap_authenticate E s username password = ok_or (wrap_err (\<lambda>_. ErrBadCredentials) (Settings E)) (\<lambda>settings.
     if \<not> ls_enabled settings then State_Monad.return (Inl ErrBadCredentials)
     else if TrimSpace username = [] \<or> password = [] then State_Monad.return (Inl ErrBadCredentials)
     else ok_or (wrap_err (\<lambda>err. ''connect to LDAP: '' @ err) (dial_ldap E s settings)) (\<lambda>_.
       with_conn E (identify E s settings username password)))"

section \<open>What goes over the wire\<close>

text \<open>The requests between a connection and its end, and what a part of a run adds of them.\<close>

definition in_session :: "ldap_event \<Rightarrow> bool" where
  "in_session ev = (case ev of Ldap_Bind _ _ \<Rightarrow> True | Ldap_Search _ \<Rightarrow> True | _ \<Rightarrow> False)"

lemma in_session_simps [simp]: "in_session (Ldap_Bind dn pw)" "in_session (Ldap_Search q)"
  by (simp_all add: in_session_def)

definition talked :: "world \<Rightarrow> world \<Rightarrow> bool" where
  "talked w w' \<longleftrightarrow> w_db w' = w_db w \<and> (\<exists>evs. w_trace w' = w_trace w @ map Ldap evs \<and> list_all in_session evs)"

lemma talked_refl: "w_db w' = w_db w \<Longrightarrow> w_trace w' = w_trace w \<Longrightarrow> talked w w'"
  by (auto simp: talked_def intro: exI [of _ "[]"])

lemma talked_call: "talked w v \<Longrightarrow> in_session ev \<Longrightarrow> talked w (v\<lparr>w_tick := t, w_trace := w_trace v @ [Ldap ev]\<rparr>)"
  by (force simp: talked_def intro: exI [of _ "_ @ [ev]"])

lemma keeps_talk [keeps_intro]:
  "in_session ev \<Longrightarrow> keeps (talked w) (ldap_call E ev)" "keeps (talked w) (read_file E f)"
  by (auto simp: keeps_def step_simps intro: talked_call) (auto simp: talked_def)

lemma identify_talks: "keeps (talked w) (identify E s settings username password)"
  unfolding identify_def bindPassword_def by_template_def by_search_def Bind_def findUser_def groups_of_def Let_def
  by (intro keeps_intro; simp)+

text \<open>
  A run makes at most one connection, to the host its TLS configuration names. Without TLS from the
  start it is upgraded before anything is asked, with success, unless the service was configured to
  allow plain connections; and a connection that was opened is closed.
\<close>

definition closed_talk :: "ldap_event list \<Rightarrow> bool" where
  "closed_talk evs \<longleftrightarrow> evs \<noteq> [] \<and> last evs = Ldap_Close \<and> list_all in_session (butlast evs)"

definition upgraded :: "env \<Rightarrow> ldap_tls \<Rightarrow> bool" where
  "upgraded E tls \<longleftrightarrow> (\<exists>t. is_ok (e_ldap E t (Ldap_StartTLS tls)))"

definition protected_talk :: "env \<Rightarrow> ldap_service \<Rightarrow> url \<Rightarrow> ldap_tls \<Rightarrow> ldap_event list \<Rightarrow> bool" where
  "protected_talk E s parsed tls evs \<longleftrightarrow>
     (if u_scheme parsed = ''ldaps'' then closed_talk evs
      else (case evs of
          Ldap_StartTLS tls' # rest \<Rightarrow> tls' = tls \<and> (rest = [Ldap_Close] \<or> closed_talk rest \<and> upgraded E tls)
        | _ \<Rightarrow> ld_allow_insecure s \<and> closed_talk evs))"

fun protected_run :: "env \<Rightarrow> ldap_service \<Rightarrow> ldap_event list \<Rightarrow> bool" where
  "protected_run E s [] = True"
| "protected_run E s (Ldap_Dial u tls # evs) = (case url_parse u of
     None \<Rightarrow> False
   | Some parsed \<Rightarrow> u_scheme parsed \<in> {''ldap'', ''ldaps''} \<and> lt_server_name tls = Hostname parsed
       \<and> (evs = [] \<or> protected_talk E s parsed tls evs))"
| "protected_run E s (_ # evs) = False"

definition added :: "world \<Rightarrow> world \<Rightarrow> ldap_event list \<Rightarrow> bool" where
  "added w w' evs \<longleftrightarrow> w_db w' = w_db w \<and> w_trace w' = w_trace w @ map Ldap evs"

text \<open>A dial leaves no connection and an error, or a connection that is ready.\<close>

definition ready :: "env \<Rightarrow> ldap_service \<Rightarrow> ldap_event list \<Rightarrow> bool" where
  "ready E s evs \<longleftrightarrow> (\<forall>rest. closed_talk rest \<longrightarrow> protected_run E s (evs @ rest))"

lemma tls_config_spec: "wp (tls_config E s parsed) (\<lambda>r w'. added w w' [] \<and>
    (case r of Inl _ \<Rightarrow> True | Inr tls \<Rightarrow> lt_server_name tls = Hostname parsed)) w"
  by (auto simp: tls_config_def step_simps added_def split: sum.split)

lemma closed_talk_simps [simp]: "\<not> closed_talk []" "\<not> closed_talk (Ldap_StartTLS tls # evs)"
  by (auto simp: closed_talk_def in_session_def)

lemma protected_plain: "u_scheme parsed = ''ldap'' \<Longrightarrow> ld_allow_insecure s \<Longrightarrow> closed_talk evs \<Longrightarrow> protected_talk E s parsed tls evs"
  by (auto simp: protected_talk_def split: list.split ldap_event.split)

lemma dial_ldap_spec: "wp (dial_ldap E s settings) (\<lambda>r w'. \<exists>evs. added w w' evs \<and>
    (case r of Inl _ \<Rightarrow> protected_run E s evs | Inr _ \<Rightarrow> ready E s evs)) w"
proof (cases "url_parse (ls_url settings)")
  case None
  then show ?thesis by (auto simp: dial_ldap_def wp_return added_def intro: exI [of _ "[]"])
next
  case (Some parsed)
  show ?thesis
  proof (cases "u_scheme parsed \<noteq> ''ldap'' \<and> u_scheme parsed \<noteq> ''ldaps''
      \<or> u_scheme parsed = ''ldap'' \<and> \<not> ls_start_tls settings \<and> \<not> ld_allow_insecure s")
    case True
    then show ?thesis by (auto simp: dial_ldap_def Some wp_return added_def intro: exI [of _ "[]"])
  next
    case False
    let ?u = "ls_url settings"
    let ?start = "u_scheme parsed = ''ldap'' \<and> ls_start_tls settings"
    let ?Q = "\<lambda>r w'. \<exists>evs. added w w' evs \<and> (case r of Inl _ \<Rightarrow> protected_run E s evs | Inr _ \<Rightarrow> ready E s evs)"
    have upgrade: "wp (do { r \<leftarrow> ldap_call E (Ldap_StartTLS tls);
           (case r of Inl err \<Rightarrow> do { close_conn E; State_Monad.return (Inl err) } | Inr _ \<Rightarrow> State_Monad.return (Inr ())) }) ?Q v"
      if "added w v [Ldap_Dial ?u tls]" "lt_server_name tls = Hostname parsed" ?start for tls v
    proof (cases "e_ldap E (w_tick v) (Ldap_StartTLS tls)")
      case (Inl err)
      with that show ?thesis
        by (auto simp: step_simps close_conn_def added_def Some protected_talk_def
            intro!: exI [of _ "[Ldap_Dial ?u tls, Ldap_StartTLS tls, Ldap_Close]"])
    next
      case (Inr es)
      then have "upgraded E tls" by (auto simp: upgraded_def is_ok_iff)
      with Inr that show ?thesis
        by (auto simp: step_simps added_def ready_def Some protected_talk_def
            intro!: exI [of _ "[Ldap_Dial ?u tls, Ldap_StartTLS tls]"])
    qed
    have plain: "ready E s [Ldap_Dial ?u tls]" if "\<not> ?start" "lt_server_name tls = Hostname parsed" for tls
      using that False protected_plain by (auto simp: ready_def Some protected_talk_def)
    have failed: "protected_run E s [Ldap_Dial ?u tls]" if "lt_server_name tls = Hostname parsed" for tls
      using that False by (auto simp: Some)
    have conn: "wp (ok_or (ldap_call E (Ldap_Dial ?u tls)) (\<lambda>_.
         if ?start then do { r \<leftarrow> ldap_call E (Ldap_StartTLS tls);
           (case r of Inl err \<Rightarrow> do { close_conn E; State_Monad.return (Inl err) } | Inr _ \<Rightarrow> State_Monad.return (Inr ())) }
         else State_Monad.return (Inr ()))) ?Q v" if v: "added w v []" and tls: "lt_server_name tls = Hostname parsed" for tls v
    proof (cases "e_ldap E (w_tick v) (Ldap_Dial ?u tls)")
      case (Inl err)
      with v failed [OF tls] show ?thesis
        unfolding wp_ok_or wp_ldap_call Inl sum.case by (intro exI [of _ "[Ldap_Dial ?u tls]"]) (simp add: added_def)
    next
      case (Inr es)
      let ?v = "v\<lparr>w_tick := Suc (w_tick v), w_trace := w_trace v @ [Ldap (Ldap_Dial ?u tls)]\<rparr>"
      have a: "added w ?v [Ldap_Dial ?u tls]" using v by (simp add: added_def)
      show ?thesis
      proof (cases ?start)
        case True
        show ?thesis unfolding wp_ok_or wp_ldap_call Inr sum.case if_P [OF True] by (rule upgrade [OF a tls True])
      next
        case no_start: False
        show ?thesis
          unfolding wp_ok_or wp_ldap_call Inr sum.case if_not_P [OF no_start] wp_return
          using plain [OF no_start tls] a by blast
      qed
    qed
    have h: "\<not> (u_scheme parsed \<noteq> ''ldap'' \<and> u_scheme parsed \<noteq> ''ldaps'')"
        "\<not> (u_scheme parsed = ''ldap'' \<and> \<not> ls_start_tls settings \<and> \<not> ld_allow_insecure s)" using False by auto
    show ?thesis
      unfolding dial_ldap_def Some option.case if_not_P [OF h(1)] if_not_P [OF h(2)]
    proof (rule wp_seq [OF tls_config_spec], goal_cases)
      case (1 e v)
      then show ?case by (auto intro: exI [of _ "[]"])
    next
      case (2 tls v)
      then show ?case by (intro conn) auto
    qed
  qed
qed

text \<open>The session that follows a dial, closed at its end.\<close>

lemma with_conn_spec:
  assumes "keeps (talked v) body" and "added w v evs" and "ready E s evs"
  shows "wp (with_conn E body) (\<lambda>_ w'. \<exists>evs. added w w' evs \<and> protected_run E s evs) v"
proof -
  have "wp body (\<lambda>_. talked v) v" using assms(1) talked_refl [of v v] by (simp add: keeps_def)
  then show ?thesis
    unfolding with_conn_def wp_bind
  proof (rule wp_mono, goal_cases)
    case (1 r u)
    then obtain talk where t: "w_db u = w_db v" "w_trace u = w_trace v @ map Ldap talk" "list_all in_session talk" by (auto simp: talked_def)
    then have "closed_talk (talk @ [Ldap_Close])" by (simp add: closed_talk_def)
    then have "protected_run E s (evs @ talk @ [Ldap_Close])" using assms(3) by (simp add: ready_def)
    moreover have "added w (u\<lparr>w_tick := Suc (w_tick u), w_trace := w_trace u @ [Ldap Ldap_Close]\<rparr>) (evs @ talk @ [Ldap_Close])"
      using t assms(2) by (simp add: added_def)
    ultimately show ?case unfolding close_conn_def wp_ignore wp_ldap_call wp_return by blast
  qed
qed

lemma dial_then_spec:
  assumes "added w v []" and "\<And>u. keeps (talked u) body"
  shows "wp (ok_or (wrap_err f (dial_ldap E s settings)) (\<lambda>_. with_conn E body)) (\<lambda>_ w'. \<exists>evs. added w w' evs \<and> protected_run E s evs) v"
  unfolding wp_ok_or wp_wrap_err
proof (rule wp_mono [OF dial_ldap_spec], goal_cases)
  case (1 r u)
  then obtain evs where u: "added w u evs" "case r of Inl _ \<Rightarrow> protected_run E s evs | Inr _ \<Rightarrow> ready E s evs"
    using assms(1) by (auto simp: added_def)
  then show ?case using with_conn_spec [OF assms(2) u(1)] by (cases r) auto
qed

lemma wrap_err_id: "wrap_err id p = p"
  by (simp add: wrap_err_def map_sum.id State_Monad.bind_right_identity)

lemma Settings_spec: "wp (Settings E) (\<lambda>r w'. added w w' [] \<and>
    (case r of Inl _ \<Rightarrow> e_fault E (w_tick w) \<noteq> None | Inr v \<Rightarrow> v = ldap_values.truncate (ldap_settings (w_db w)))) w"
  by (auto simp: Settings_def select_settings_def step_simps read_rows_def added_def split: option.split)

lemma bind_talks: "keeps (talked w) (Bind E dn pw)" "keeps (talked w) (bindPassword E s)"
  unfolding Bind_def bindPassword_def by (intro keeps_intro; simp)+

text \<open>
  C22: Passwords for the directory do not go over the wire in the clear. A login or a test of the
  settings makes at most one connection, to the host of the URL, whose name its TLS checks; every bind
  and search comes after TLS from the start or a successful upgrade, unless the deployment allows plain
  connections; a connection that was opened is closed at the end, and nothing is stored.
\<close>

theorem ldap_passwords_protected:
  "wp (ldap_authenticate E s username password) (\<lambda>_ w'. \<exists>evs. added w w' evs \<and> protected_run E s evs) w
 \<and> wp (TestLdap E s) (\<lambda>_ w'. \<exists>evs. added w w' evs \<and> protected_run E s evs) w"
proof
  have none: "\<exists>evs. added w v evs \<and> protected_run E s evs" if "added w v []" for v
    using that by (intro exI [of _ "[]"]) simp
  show "wp (ldap_authenticate E s username password) (\<lambda>_ w'. \<exists>evs. added w w' evs \<and> protected_run E s evs) w"
    unfolding ldap_authenticate_def wp_ok_or wp_wrap_err
  proof (rule wp_mono [OF Settings_spec], goal_cases)
    case (1 r v)
    then have "added w v []" by simp
    then show ?case
      using dial_then_spec [OF _ identify_talks] by (auto simp: wp_return intro: none split: sum.split)
  qed
  show "wp (TestLdap E s) (\<lambda>_ w'. \<exists>evs. added w w' evs \<and> protected_run E s evs) w"
    unfolding TestLdap_def wp_ok_or [where p = "Settings E"]
  proof (rule wp_mono [OF Settings_spec], goal_cases)
    case (1 r v)
    then have v: "added w v []" by simp
    have "keeps (talked u) (if ls_bind_dn settings \<noteq> [] then ok_or (bindPassword E s) (Bind E (ls_bind_dn settings))
        else State_Monad.return (Inr ()))" for settings u
      by (intro keeps_intro bind_talks)
    note session = dial_then_spec [OF v this, where f = id, unfolded wrap_err_id]
    show ?case
    proof (cases r)
      case (Inl e)
      then show ?thesis using none [OF v] by simp
    next
      case (Inr settings)
      show ?thesis unfolding Inr sum.case by (rule session)
    qed
  qed
qed

section \<open>Who is let in\<close>

definition accepted :: "env \<Rightarrow> string \<Rightarrow> string \<Rightarrow> bool" where
  "accepted E dn pw \<longleftrightarrow> (\<exists>t. is_ok (e_ldap E t (Ldap_Bind dn pw)))"

definition only_entry :: "env \<Rightarrow> ldap_search \<Rightarrow> ldap_entry \<Rightarrow> bool" where
  "only_entry E q e \<longleftrightarrow> (\<exists>t. e_ldap E t (Ldap_Search q) = Inr [e])"

lemma acceptedI: "e_ldap E t (Ldap_Bind dn pw) = Inr es \<Longrightarrow> accepted E dn pw"
  by (auto simp: accepted_def is_ok_iff)

lemma only_entryI: "e_ldap E t (Ldap_Search q) = Inr [e] \<Longrightarrow> only_entry E q e"
  by (auto simp: only_entry_def)

lemma Bind_spec: "wp (Bind E dn pw) (\<lambda>r _. case r of Inl _ \<Rightarrow> True | Inr _ \<Rightarrow> accepted E dn pw) w"
  by (auto simp: Bind_def step_simps split: sum.split intro: acceptedI)

lemma findUser_spec: "wp (findUser E v username) (\<lambda>r _. case r of Inl _ \<Rightarrow> True | Inr e \<Rightarrow> only_entry E (user_search E v username) e) w"
  by (auto simp: findUser_def step_simps split: sum.splits list.splits intro: only_entryI)

text \<open>The DN whose password a login checks.\<close>

definition bound_dn :: "env \<Rightarrow> ldap_values \<Rightarrow> string \<Rightarrow> ldap_entry \<Rightarrow> string" where
  "bound_dn E v username e = (if ls_mode v = ''dn_template'' then renderDN E (ls_user_dn_template v) username else le_dn e)"

definition verified :: "env \<Rightarrow> ldap_values \<Rightarrow> string \<Rightarrow> string \<Rightarrow> ldap_entry \<Rightarrow> bool" where
  "verified E v username password e \<longleftrightarrow> only_entry E (user_search E v username) e \<and> accepted E (bound_dn E v username e) password"

lemma by_template_spec: "ls_mode v = ''dn_template'' \<Longrightarrow>
    wp (by_template E v sp username password) (\<lambda>r _. case r of Inl _ \<Rightarrow> True | Inr e \<Rightarrow> verified E v username password e) w"
  unfolding by_template_def Let_def
  by (auto simp: wp_ok_or wp_wrap_err wp_return verified_def bound_dn_def split: sum.split
      intro!: wp_mono [OF Bind_spec] wp_mono [OF findUser_spec])

lemma by_search_spec: "ls_mode v \<noteq> ''dn_template'' \<Longrightarrow>
    wp (by_search E v sp username password) (\<lambda>r _. case r of Inl _ \<Rightarrow> True | Inr e \<Rightarrow> verified E v username password e) w"
  unfolding by_search_def
  by (auto simp: wp_ok_or wp_wrap_err wp_return verified_def bound_dn_def split: sum.split
      intro!: wp_mono [OF Bind_spec] wp_mono [OF findUser_spec])

lemma identify_spec: "wp (identify E s v username password) (\<lambda>r _. case r of Inl _ \<Rightarrow> True
    | Inr x \<Rightarrow> \<exists>e gs. verified E v username password e \<and> x = identity_of v username e gs) w"
  unfolding identify_def
  by (auto simp: wp_ok_or wp_wrap_err wp_return split: sum.split
      intro!: wp_any [where p = "bindPassword E s"] wp_any [where p = "groups_of E v e" for e]
        wp_mono [OF by_template_spec] wp_mono [OF by_search_spec])
    blast+

text \<open>
  C21: What an accepted directory login proves. The directory is enabled, the name is not blank and the
  password not empty (an empty one would be an anonymous bind, which directories accept); searching for
  the name returned exactly one entry, from which the identity is taken; and the directory accepted the
  password for the DN of that entry, or, with a DN template, for the DN the template gives the name.
\<close>

theorem ldap_login_verified:
  "wp (ldap_authenticate E s username password) (\<lambda>r _. case r of Inl _ \<Rightarrow> True
     | Inr identity \<Rightarrow> (let v = ldap_values.truncate (ldap_settings (w_db w)) in
         ls_enabled v \<and> TrimSpace username \<noteq> [] \<and> password \<noteq> []
         \<and> (\<exists>e gs. only_entry E (user_search E v username) e \<and> accepted E (bound_dn E v username e) password
              \<and> identity = identity_of v username e gs))) w"
proof -
  have session: "wp (ok_or (wrap_err f (dial_ldap E s v)) (\<lambda>_. with_conn E (identify E s v username password))) (\<lambda>r _. case r of Inl _ \<Rightarrow> True
      | Inr x \<Rightarrow> \<exists>e gs. verified E v username password e \<and> x = identity_of v username e gs) u" for f v u
    by (auto simp: wp_ok_or wp_wrap_err wp_fun with_conn_def split: sum.split
        intro!: wp_any [where p = "dial_ldap E s v"] wp_mono [OF identify_spec])
      (auto intro!: wp_any)
  show ?thesis
    unfolding ldap_authenticate_def wp_ok_or [where p = "wrap_err _ (Settings E)"] wp_wrap_err [where p = "Settings E"] Let_def
    by (rule wp_mono [OF Settings_spec]) (auto simp: wp_return verified_def intro!: wp_mono [OF session] split: sum.splits)
qed

end
