(* ===== verification/Admin_Store.thy ===== *)
theory Admin_Store
  imports Auth_Http Upstream Ldap
begin

text \<open>
  The statements and transactions of \<open>internal/admin/http.go\<close>: saving a policy with its rules, replacing
  assignments, and the queries behind the lists; and what they leave in the tables.
\<close>

section \<open>Join tables\<close>

text \<open>
  The code builds a statement from the names of a table and a column. A join table has the two columns
  of its name; a statement that names another column fails.
\<close>

definition join_columns :: "string \<Rightarrow> string \<times> string" where
  "join_columns table =
    (if HasPrefix table ''user_'' then ''user_id'' else ''group_id'',
     if HasSuffix table ''_policies'' then ''policy_id'' else ''upstream_proxy_id'')"

definition join_table :: "string \<Rightarrow> db \<Rightarrow> (uuid \<times> uuid) list" where
  "join_table table d =
    (if table = ''user_policies'' then user_policies d
     else if table = ''ldap_group_policies'' then ldap_group_policies d
     else if table = ''user_upstream_proxies'' then user_upstream_proxies d
     else if table = ''ldap_group_upstream_proxies'' then ldap_group_upstream_proxies d
     else [])"

definition set_join_table :: "string \<Rightarrow> (uuid \<times> uuid) list \<Rightarrow> db \<Rightarrow> db" where
  "set_join_table table ps d =
    (if table = ''user_policies'' then d\<lparr>user_policies := ps\<rparr>
     else if table = ''ldap_group_policies'' then d\<lparr>ldap_group_policies := ps\<rparr>
     else if table = ''user_upstream_proxies'' then d\<lparr>user_upstream_proxies := ps\<rparr>
     else if table = ''ldap_group_upstream_proxies'' then d\<lparr>ldap_group_upstream_proxies := ps\<rparr>
     else d)"

definition delete_pairs :: "string \<Rightarrow> string \<Rightarrow> uuid \<Rightarrow> unit statement" where
  "delete_pairs table column i t d =
    (if column = fst (join_columns table) then Inr ((), set_join_table table (delete_rows (\<lambda>p. fst p = i) (join_table table d)) d)
     else if column = snd (join_columns table) then Inr ((), set_join_table table (delete_rows (\<lambda>p. snd p = i) (join_table table d)) d)
     else Inl ''column does not exist'')"

definition insert_pair :: "string \<Rightarrow> string \<Rightarrow> string \<Rightarrow> uuid \<Rightarrow> uuid \<Rightarrow> unit statement" where
  "insert_pair table column other i j t d =
    (if (column, other) = join_columns table then store_db () (set_join_table table (join_table table d @ [(i, j)]) d)
     else Inl ''column does not exist'')"

definition direct_list :: "string \<Rightarrow> db \<Rightarrow> uuid list" where
  "direct_list table d = (if table = ''direct_access_users'' then direct_access_users d else direct_access_ldap_groups d)"

definition set_direct_list :: "string \<Rightarrow> uuid list \<Rightarrow> db \<Rightarrow> db" where
  "set_direct_list table ids d =
    (if table = ''direct_access_users'' then d\<lparr>direct_access_users := ids\<rparr> else d\<lparr>direct_access_ldap_groups := ids\<rparr>)"

definition clear_direct :: "string \<Rightarrow> unit statement" where
  "clear_direct table t d = Inr ((), set_direct_list table [] d)"

definition insert_direct :: "string \<Rightarrow> string \<Rightarrow> uuid \<Rightarrow> unit statement" where
  "insert_direct table column i t d =
    (if column = (if table = ''direct_access_users'' then ''user_id'' else ''group_id'')
     then store_db () (set_direct_list table (direct_list table d @ [i]) d)
     else Inl ''column does not exist'')"

section \<open>Replacing assignments\<close>

text \<open>The transaction of the three functions: everything is deleted and the new rows are inserted one by one.\<close>

primrec add_rows :: "env \<Rightarrow> int \<Rightarrow> (uuid \<Rightarrow> unit statement) \<Rightarrow> uuid list \<Rightarrow> unit result prog" where
  "add_rows E t add [] = State_Monad.return (Inr ())"
| "add_rows E t add (i # ids) = ok_or (sql_at E t (add i)) (\<lambda>_. add_rows E t add ids)"

definition replace_rows :: "env \<Rightarrow> unit statement \<Rightarrow> (uuid \<Rightarrow> unit statement) \<Rightarrow> uuid list \<Rightarrow> unit result prog" where
  "replace_rows E clear add ids = transaction E (\<lambda>t. ok_or (sql_at E t clear) (\<lambda>_. add_rows E t add ids))"

definition invalid_table :: "unit result prog" where
  "invalid_table = State_Monad.return (Inl ''invalid assignment table'')"

definition replaceAssignments :: "env \<Rightarrow> string \<Rightarrow> string \<Rightarrow> uuid \<Rightarrow> uuid list \<Rightarrow> unit result prog" where
  "replaceAssignments E table column i ids =
    (if table \<noteq> ''user_policies'' \<and> table \<noteq> ''ldap_group_policies'' then invalid_table
     else replace_rows E (delete_pairs table column i) (insert_pair table column ''policy_id'' i) ids)"

definition replaceResourceAssignments :: "env \<Rightarrow> string \<Rightarrow> string \<Rightarrow> uuid \<Rightarrow> uuid list \<Rightarrow> unit result prog" where
  "replaceResourceAssignments E table column proxyID ids =
    (if (table \<noteq> ''user_upstream_proxies'' \<or> column \<noteq> ''user_id'') \<and> (table \<noteq> ''ldap_group_upstream_proxies'' \<or> column \<noteq> ''group_id'')
     then invalid_table
     else replace_rows E (delete_pairs table ''upstream_proxy_id'' proxyID)
       (\<lambda>i. insert_pair table column ''upstream_proxy_id'' i proxyID) ids)"

definition replaceDirectAssignments :: "env \<Rightarrow> string \<Rightarrow> string \<Rightarrow> uuid list \<Rightarrow> unit result prog" where
  "replaceDirectAssignments E table column ids =
    (if (table \<noteq> ''direct_access_users'' \<or> column \<noteq> ''user_id'') \<and> (table \<noteq> ''direct_access_ldap_groups'' \<or> column \<noteq> ''group_id'')
     then invalid_table
     else replace_rows E (clear_direct table) (insert_direct table column) ids)"

section \<open>Policies\<close>

record policy_input =
  pi_name :: string
  pi_description :: string
  pi_mode :: string
  pi_enabled :: bool
  pi_rules :: "(string \<times> string) list"

definition insert_policy :: "uuid \<Rightarrow> policy_input \<Rightarrow> unit statement" where
  "insert_policy i x t d = store_db () (d\<lparr>policies := policies d @ [\<lparr>po_id = i, po_name = pi_name x,
     po_description = pi_description x, po_mode = pi_mode x, po_enabled = pi_enabled x, po_created = t, po_updated = t\<rparr>]\<rparr>)"

definition overwrite_policy :: "policy_input \<Rightarrow> int \<Rightarrow> policy_row \<Rightarrow> policy_row" where
  "overwrite_policy x t p = p\<lparr>po_name := pi_name x, po_description := pi_description x, po_mode := pi_mode x,
     po_enabled := pi_enabled x, po_updated := t\<rparr>"

definition update_policy_row :: "uuid \<Rightarrow> policy_input \<Rightarrow> nat statement" where
  "update_policy_row i x t d = store_db (affected (\<lambda>p. po_id p = i) (policies d))
     (d\<lparr>policies := update_rows (\<lambda>p. po_id p = i) (overwrite_policy x t) (policies d)\<rparr>)"

definition delete_rules :: "uuid \<Rightarrow> unit statement" where
  "delete_rules i t d = Inr ((), d\<lparr>policy_rules_t := delete_rows (\<lambda>r. ru_policy r = i) (policy_rules_t d)\<rparr>)"

definition insert_rule :: "uuid \<Rightarrow> uuid \<Rightarrow> string \<Rightarrow> string \<Rightarrow> unit statement" where
  "insert_rule i pid kind val t d = store_db () (d\<lparr>policy_rules_t := policy_rules_t d @
     [\<lparr>ru_id = i, ru_policy = pid, ru_kind = kind, ru_value = val\<rparr>]\<rparr>)"

primrec save_rules :: "env \<Rightarrow> int \<Rightarrow> uuid \<Rightarrow> (string \<times> string) list \<Rightarrow> unit result prog" where
  "save_rules E t pid [] = State_Monad.return (Inr ())"
| "save_rules E t pid (item # rest) = ok_or (State_Monad.return (ValidateRule (fst item) (snd item))) (\<lambda>val. do {
     i \<leftarrow> new_uuid E;
     ok_or (sql_at E t (insert_rule i pid (fst item) val)) (\<lambda>_. save_rules E t pid rest) })"

definition savePolicy :: "env \<Rightarrow> uuid \<Rightarrow> policy_input \<Rightarrow> bool \<Rightarrow> unit result prog" where
  "savePolicy E i given create = (let x = given\<lparr>pi_name := TrimSpace (pi_name given)\<rparr> in
     if pi_name x = [] then State_Monad.return (Inl ''name is required'')
     else if pi_mode x \<noteq> DenyAll \<and> pi_mode x \<noteq> DenyIntranet \<and> pi_mode x \<noteq> Whitelist \<and> pi_mode x \<noteq> Blacklist
     then State_Monad.return (Inl ''invalid mode'')
     else transaction E (\<lambda>t.
       ok_or (if create then sql_at E t (insert_policy i x)
              else ok_or (sql_at E t (update_policy_row i x)) (\<lambda>n.
                State_Monad.return (if n \<noteq> 1 then Inl ''policy not found'' else Inr ()))) (\<lambda>_.
       ok_or (sql_at E t (delete_rules i)) (\<lambda>_.
       save_rules E t i (pi_rules x)))))"

text \<open>Deleting a policy takes its rules and assignments along.\<close>

definition delete_policy :: "uuid \<Rightarrow> unit statement" where
  "delete_policy i t d = Inr ((), d\<lparr>policies := delete_rows (\<lambda>p. po_id p = i) (policies d),
     policy_rules_t := delete_rows (\<lambda>r. ru_policy r = i) (policy_rules_t d),
     user_policies := delete_rows (\<lambda>p. snd p = i) (user_policies d),
     ldap_group_policies := delete_rows (\<lambda>p. snd p = i) (ldap_group_policies d)\<rparr>)"

text \<open>\<open>HTTP.policies\<close>: all policies by name, each with its rules.\<close>

definition select_all_policies :: "policy_row list statement" where
  "select_all_policies = read_rows (\<lambda>_ d. sort_key po_name (policies d))"

definition load_policies :: "env \<Rightarrow> policy list result prog" where
  "load_policies E = ok_or (sql E select_all_policies) (load_rules E)"

section \<open>Users\<close>

record user_change =
  uc_display :: "string option"
  uc_email :: "string option"
  uc_admin :: "bool option"
  uc_disabled :: "bool option"

definition active_admin :: "user_row \<Rightarrow> bool" where
  "active_admin u \<longleftrightarrow> us_admin u \<and> us_disabled u = None"

definition select_active_admin :: "uuid \<Rightarrow> bool statement" where
  "select_active_admin i = read_row (\<lambda>_ d. map_option active_admin (find (\<lambda>u. us_id u = i) (users d)))"

definition count_active_admins :: "nat statement" where
  "count_active_admins = read_rows (\<lambda>_ d. length (filter active_admin (users d)))"

definition coalesce :: "'a option \<Rightarrow> 'a \<Rightarrow> 'a" where
  "coalesce x y = (case x of None \<Rightarrow> y | Some v \<Rightarrow> v)"

definition change_user :: "user_change \<Rightarrow> int \<Rightarrow> user_row \<Rightarrow> user_row" where
  "change_user c t u = u\<lparr>us_display := coalesce (uc_display c) (us_display u), us_email := coalesce (uc_email c) (us_email u),
     us_admin := coalesce (uc_admin c) (us_admin u),
     us_disabled := (case uc_disabled c of None \<Rightarrow> us_disabled u | Some b \<Rightarrow> if b then Some t else None), us_updated := t\<rparr>"

definition update_user :: "uuid \<Rightarrow> user_change \<Rightarrow> unit statement" where
  "update_user i c t d = Inr ((), d\<lparr>users := update_rows (\<lambda>u. us_id u = i) (change_user c t) (users d)\<rparr>)"

definition local_user :: "uuid \<Rightarrow> user_row \<Rightarrow> bool" where
  "local_user i u \<longleftrightarrow> us_id u = i \<and> us_source u = ''local''"

definition set_password_hash :: "uuid \<Rightarrow> string \<Rightarrow> nat statement" where
  "set_password_hash i hash t d = Inr (affected (local_user i) (users d),
     d\<lparr>users := update_rows (local_user i) (\<lambda>u. u\<lparr>us_password := Some hash, us_updated := t\<rparr>) (users d)\<rparr>)"

definition delete_sessions_of :: "uuid \<Rightarrow> unit statement" where
  "delete_sessions_of i t d = Inr ((), d\<lparr>sessions := delete_rows (\<lambda>s. se_user s = i) (sessions d)\<rparr>)"

text \<open>The guard of the last administrator: what \<open>updateUser\<close> finds out before it takes a right away.\<close>

definition demotes :: "user_change \<Rightarrow> bool" where
  "demotes c \<longleftrightarrow> uc_admin c = Some False \<or> uc_disabled c = Some True"

definition last_admin :: "env \<Rightarrow> uuid \<Rightarrow> user_change \<Rightarrow> bool prog" where
  "last_admin E i c =
    (if \<not> demotes c then State_Monad.return False
     else do {
       active \<leftarrow> sql E (select_active_admin i);
       (if active \<noteq> Inr True then State_Monad.return False
        else do {
          count \<leftarrow> sql E count_active_admins;
          State_Monad.return (case count of Inl _ \<Rightarrow> True | Inr n \<Rightarrow> n \<le> 1) }) })"

section \<open>Lists\<close>

text \<open>The users and the groups, each with the policies assigned to it.\<close>

definition select_users :: "(user_row \<times> uuid list) list statement" where
  "select_users = read_rows (\<lambda>_ d. map (\<lambda>u. (u, map snd (filter (\<lambda>p. fst p = us_id u) (user_policies d)))) (sort_key us_username (users d)))"

definition select_groups :: "(group_row \<times> uuid list) list statement" where
  "select_groups = read_rows (\<lambda>_ d. map (\<lambda>g. (g, map snd (filter (\<lambda>p. fst p = gr_id g) (ldap_group_policies d)))) (sort_key gr_name (ldap_groups d)))"

definition select_holders :: "string \<Rightarrow> uuid \<Rightarrow> uuid list statement" where
  "select_holders table i = read_rows (\<lambda>_ d. sort (map fst (filter (\<lambda>p. snd p = i) (join_table table d))))"

definition select_audit :: "audit_row list statement" where
  "select_audit = read_rows (\<lambda>_ d. take 200 (sort_key (\<lambda>e. - au_id e) (audit_events d)))"

section \<open>What an assignment leaves\<close>

text \<open>
  The contract of a table whose rows for one owner are replaced: clearing leaves the owner nothing,
  adding appends one identifier, and neither touches what the owner does not hold.
\<close>

locale replacing =
  fixes clear :: "unit statement" and add :: "uuid \<Rightarrow> unit statement" and held :: "db \<Rightarrow> uuid list" and others :: "db \<Rightarrow> 'k"
  assumes clear_law: "clear t d = Inr (x, d') \<Longrightarrow> held d' = [] \<and> others d' = others d"
    and add_law: "add i t d = Inr (x, d') \<Longrightarrow> held d' = held d @ [i] \<and> others d' = others d"
begin

lemma added_rows: "wp (add_rows E t add ids) (\<lambda>r w'. w_trace w' = w_trace w \<and> (case r of Inl _ \<Rightarrow> True
    | Inr _ \<Rightarrow> held (w_db w') = held (w_db w) @ ids \<and> others (w_db w') = others (w_db w))) w"
proof (induction ids arbitrary: w)
  case (Cons i ids)
  show ?case
    unfolding add_rows.simps
    by (rule wp_sql_at_seq) (auto dest!: add_law intro!: wp_mono [OF Cons.IH] split: sum.splits)
qed (simp add: wp_return)

lemma replaced: "wp (replace_rows E clear add ids) (\<lambda>r w'. w_trace w' = w_trace w \<and> (case r of Inl _ \<Rightarrow> w_db w' = w_db w
    | Inr _ \<Rightarrow> held (w_db w') = ids \<and> others (w_db w') = others (w_db w))) w"
  unfolding replace_rows_def
  by (rule wp_transaction_all_or_nothing, rule wp_sql_at_seq)
    (auto dest!: clear_law intro!: wp_mono [OF added_rows] split: sum.splits)

end

text \<open>The pairs of one owner in a join table, by its first or second column, and the rest of the database.\<close>

definition held_by :: "string \<Rightarrow> uuid \<Rightarrow> db \<Rightarrow> uuid list" where
  "held_by table i d = map snd (filter (\<lambda>p. fst p = i) (join_table table d))"

definition holders_of :: "string \<Rightarrow> uuid \<Rightarrow> db \<Rightarrow> uuid list" where
  "holders_of table j d = map fst (filter (\<lambda>p. snd p = j) (join_table table d))"

definition apart_from :: "(uuid \<times> uuid \<Rightarrow> bool) \<Rightarrow> string \<Rightarrow> db \<Rightarrow> (uuid \<times> uuid) list \<times> db" where
  "apart_from P table d = (filter (\<lambda>p. \<not> P p) (join_table table d), set_join_table table [] d)"

definition join_tables :: "string set" where
  "join_tables = {''user_policies'', ''ldap_group_policies'', ''user_upstream_proxies'', ''ldap_group_upstream_proxies''}"

lemma join_set: "table \<in> join_tables \<Longrightarrow> join_table table (set_join_table table ps d) = ps"
  unfolding join_tables_def by (elim insertE emptyE) (simp_all add: join_table_def set_join_table_def)

lemma set_join_set: "set_join_table table ps (set_join_table table qs d) = set_join_table table ps d"
proof (cases "table \<in> join_tables")
  case True
  then show ?thesis unfolding join_tables_def by (elim insertE emptyE) (simp_all add: set_join_table_def)
qed (simp add: join_tables_def set_join_table_def)

lemmas join_access = join_set set_join_set

lemma join_columns_of: "join_columns ''user_policies'' = (''user_id'', ''policy_id'')" "join_columns ''ldap_group_policies'' = (''group_id'', ''policy_id'')"
  "join_columns ''user_upstream_proxies'' = (''user_id'', ''upstream_proxy_id'')"
  "join_columns ''ldap_group_upstream_proxies'' = (''group_id'', ''upstream_proxy_id'')"
  by (simp_all add: join_columns_def str_eval)

lemma filter_delete_none: "filter P (delete_rows P rs) = []" "filter (\<lambda>p. \<not> P p) (delete_rows P rs) = filter (\<lambda>p. \<not> P p) rs"
  by (auto simp: delete_rows_def filter_empty_conv)

lemma join_replacing_fst:
  assumes "table \<in> join_tables" and "join_columns table = (column, other)"
  shows "replacing (delete_pairs table column i) (insert_pair table column other i) (held_by table i) (apart_from (\<lambda>p. fst p = i) table)"
  by unfold_locales
    (use assms in \<open>auto simp: delete_pairs_def insert_pair_def store_db_ok held_by_def apart_from_def join_access filter_delete_none\<close>)

lemma join_replacing_snd:
  assumes "table \<in> join_tables" and "join_columns table = (column, other)" and "column \<noteq> other"
  shows "replacing (delete_pairs table other j) (\<lambda>i. insert_pair table column other i j) (holders_of table j) (apart_from (\<lambda>p. snd p = j) table)"
  by unfold_locales
    (use assms in \<open>auto simp: delete_pairs_def insert_pair_def store_db_ok holders_of_def apart_from_def join_access filter_delete_none\<close>)

interpretation user_pol: replacing "delete_pairs ''user_policies'' ''user_id'' i" "insert_pair ''user_policies'' ''user_id'' ''policy_id'' i"
    "held_by ''user_policies'' i" "apart_from (\<lambda>p. fst p = i) ''user_policies''" for i
  by (rule join_replacing_fst) (simp_all add: join_tables_def join_columns_of)

interpretation group_pol: replacing "delete_pairs ''ldap_group_policies'' ''group_id'' i" "insert_pair ''ldap_group_policies'' ''group_id'' ''policy_id'' i"
    "held_by ''ldap_group_policies'' i" "apart_from (\<lambda>p. fst p = i) ''ldap_group_policies''" for i
  by (rule join_replacing_fst) (simp_all add: join_tables_def join_columns_of)

interpretation user_proxy: replacing "delete_pairs ''user_upstream_proxies'' ''upstream_proxy_id'' j"
    "\<lambda>i. insert_pair ''user_upstream_proxies'' ''user_id'' ''upstream_proxy_id'' i j"
    "holders_of ''user_upstream_proxies'' j" "apart_from (\<lambda>p. snd p = j) ''user_upstream_proxies''" for j
  by (rule join_replacing_snd) (simp_all add: join_tables_def join_columns_of)

interpretation group_proxy: replacing "delete_pairs ''ldap_group_upstream_proxies'' ''upstream_proxy_id'' j"
    "\<lambda>i. insert_pair ''ldap_group_upstream_proxies'' ''group_id'' ''upstream_proxy_id'' i j"
    "holders_of ''ldap_group_upstream_proxies'' j" "apart_from (\<lambda>p. snd p = j) ''ldap_group_upstream_proxies''" for j
  by (rule join_replacing_snd) (simp_all add: join_tables_def join_columns_of)

interpretation direct: replacing "clear_direct table" "insert_direct table column" "direct_list table" "set_direct_list table []" for table column
  by unfold_locales (auto simp: clear_direct_def insert_direct_def store_db_ok direct_list_def set_direct_list_def split: if_splits)

text \<open>
  The abstract state of a join table is a map from owners to sets, read from either side; replacing is
  updating the map at one owner.
\<close>

definition assigned :: "string \<Rightarrow> db \<Rightarrow> uuid \<Rightarrow> uuid set" where
  "assigned table d i = {j. (i, j) \<in> set (join_table table d)}"

definition assignees :: "string \<Rightarrow> db \<Rightarrow> uuid \<Rightarrow> uuid set" where
  "assignees table d j = {i. (i, j) \<in> set (join_table table d)}"

lemma apart_from_same:
  assumes "apart_from P table d' = apart_from P table d" and "\<not> P p"
  shows "p \<in> set (join_table table d') \<longleftrightarrow> p \<in> set (join_table table d)"
proof -
  have "filter (\<lambda>p. \<not> P p) (join_table table d') = filter (\<lambda>p. \<not> P p) (join_table table d)" using assms(1) by (simp add: apart_from_def)
  then have "p \<in> set (filter (\<lambda>p. \<not> P p) (join_table table d')) \<longleftrightarrow> p \<in> set (filter (\<lambda>p. \<not> P p) (join_table table d))" by (simp only:)
  with assms(2) show ?thesis by simp
qed

lemma held_sets: "set (held_by table i d) = assigned table d i" "set (holders_of table j d) = assignees table d j"
  by (force simp: held_by_def assigned_def) (force simp: holders_of_def assignees_def)

lemma assigned_replaced:
  assumes "apart_from (\<lambda>p. fst p = i) table d' = apart_from (\<lambda>p. fst p = i) table d"
  shows "assigned table d' = (assigned table d)(i := set (held_by table i d'))"
proof
  fix k
  have "k \<noteq> i \<Longrightarrow> (k, j) \<in> set (join_table table d') \<longleftrightarrow> (k, j) \<in> set (join_table table d)" for j
    by (rule apart_from_same [OF assms]) simp
  then show "assigned table d' k = ((assigned table d)(i := set (held_by table i d'))) k"
    by (simp add: held_sets) (simp add: assigned_def)
qed

lemma assignees_replaced:
  assumes "apart_from (\<lambda>p. snd p = j) table d' = apart_from (\<lambda>p. snd p = j) table d"
  shows "assignees table d' = (assignees table d)(j := set (holders_of table j d'))"
proof
  fix k
  have "k \<noteq> j \<Longrightarrow> (i, k) \<in> set (join_table table d') \<longleftrightarrow> (i, k) \<in> set (join_table table d)" for i
    by (rule apart_from_same [OF assms]) simp
  then show "assignees table d' k = ((assignees table d)(j := set (holders_of table j d'))) k"
    by (simp add: held_sets) (simp add: assignees_def)
qed

text \<open>The database without one join table.\<close>

definition besides :: "string \<Rightarrow> db \<Rightarrow> db" where
  "besides table d = set_join_table table [] d"

lemma apart_besides: "apart_from P table d' = apart_from P table d \<Longrightarrow> besides table d' = besides table d"
  by (simp add: apart_from_def besides_def)

lemma replaceAssignments_spec:
  assumes "(table, column) \<in> {(''user_policies'', ''user_id''), (''ldap_group_policies'', ''group_id'')}"
  shows "wp (replaceAssignments E table column i ids) (\<lambda>r w'. w_trace w' = w_trace w \<and> (case r of Inl _ \<Rightarrow> w_db w' = w_db w
    | Inr _ \<Rightarrow> assigned table (w_db w') = (assigned table (w_db w))(i := set ids) \<and> besides table (w_db w') = besides table (w_db w))) w"
  using assms unfolding replaceAssignments_def
  by (auto intro!: wp_mono [OF user_pol.replaced] wp_mono [OF group_pol.replaced] dest: assigned_replaced apart_besides split: sum.splits)

lemma replaceResourceAssignments_spec:
  assumes "(table, column) \<in> {(''user_upstream_proxies'', ''user_id''), (''ldap_group_upstream_proxies'', ''group_id'')}"
  shows "wp (replaceResourceAssignments E table column j ids) (\<lambda>r w'. w_trace w' = w_trace w \<and> (case r of Inl _ \<Rightarrow> w_db w' = w_db w
    | Inr _ \<Rightarrow> assignees table (w_db w') = (assignees table (w_db w))(j := set ids) \<and> besides table (w_db w') = besides table (w_db w))) w"
  using assms unfolding replaceResourceAssignments_def
  by (auto intro!: wp_mono [OF user_proxy.replaced] wp_mono [OF group_proxy.replaced] dest: assignees_replaced apart_besides split: sum.splits)

text \<open>
  C25: Replacing an assignment refines the update of a map. Whatever the list of identifiers, afterwards
  the owner holds exactly the given ones, no other owner's assignments and no other table have changed;
  or the request failed, for an unknown or repeated identifier or in the database, and nothing at all
  has changed.
\<close>

theorem assignments_replaced:
  assumes "(table, column) \<in> {(''user_policies'', ''user_id''), (''ldap_group_policies'', ''group_id'')}"
    and "(rtable, rcolumn) \<in> {(''user_upstream_proxies'', ''user_id''), (''ldap_group_upstream_proxies'', ''group_id'')}"
  shows "(case run_state (replaceAssignments E table column i ids) w of
       (Inl _, w1) \<Rightarrow> w_db w1 = w_db w
     | (Inr _, w1) \<Rightarrow> assigned table (w_db w1) = (assigned table (w_db w))(i := set ids) \<and> besides table (w_db w1) = besides table (w_db w))
    \<and> (case run_state (replaceResourceAssignments E rtable rcolumn i ids) w of
       (Inl _, w1) \<Rightarrow> w_db w1 = w_db w
     | (Inr _, w1) \<Rightarrow> assignees rtable (w_db w1) = (assignees rtable (w_db w))(i := set ids) \<and> besides rtable (w_db w1) = besides rtable (w_db w))"
  using replaceAssignments_spec [OF assms(1), of E i ids w] replaceResourceAssignments_spec [OF assms(2), of E i ids w]
  by (intro conjI) (auto simp: wp_def split: prod.splits sum.splits)

lemma sample_assignment:
  "is_ok (fst (run_state (replaceAssignments sample_env ''user_policies'' ''user_id'' 2 [7]) (sample_world sample_db)))"
  by (rule wp_fst [where P = is_ok]) (simp add: replaceAssignments_def replace_rows_def step_simps Let_def sample_env_def sample_world_def
      delete_pairs_def insert_pair_def join_columns_of set_join_table_def join_table_def delete_rows_def store_db_def db_ok_eval)

theorem assignments_replaced_witness:
  "\<exists>w1. run_state (replaceAssignments sample_env ''user_policies'' ''user_id'' 2 [7]) (sample_world sample_db) = (Inr (), w1)
     \<and> assigned ''user_policies'' (w_db w1) 2 = {7} \<and> assigned ''user_policies'' (w_db w1) 1 = {7}"
proof -
  obtain w1 where r: "run_state (replaceAssignments sample_env ''user_policies'' ''user_id'' 2 [7]) (sample_world sample_db) = (Inr (), w1)"
    using is_ok_run [OF sample_assignment] by auto
  have "assigned ''user_policies'' (w_db (sample_world sample_db)) 1 = {7}"
    by (simp add: assigned_def join_table_def sample_world_def sample_db_def)
  moreover have "assigned ''user_policies'' (w_db w1) = (assigned ''user_policies'' (w_db (sample_world sample_db)))(2 := {7})"
    using assignments_replaced [where table = "''user_policies''" and column = "''user_id''" and rtable = "''user_upstream_proxies''"
        and rcolumn = "''user_id''" and i = 2 and ids = "[7]" and E = sample_env and w = "sample_world sample_db"] r by simp
  ultimately show ?thesis using r by simp
qed

section \<open>What a saved policy holds\<close>

text \<open>A rule the tables hold is one that validation produced.\<close>

definition rules_valid :: "db \<Rightarrow> bool" where
  "rules_valid d \<longleftrightarrow> list_all (\<lambda>r. \<exists>raw. ValidateRule (ru_kind r) raw = Inr (ru_value r)) (policy_rules_t d)"

definition rule_pairs :: "uuid \<Rightarrow> db \<Rightarrow> (string \<times> string) list" where
  "rule_pairs i d = map (\<lambda>r. (ru_kind r, ru_value r)) (filter (\<lambda>r. ru_policy r = i) (policy_rules_t d))"

definition other_rules :: "uuid \<Rightarrow> db \<Rightarrow> rule_row list" where
  "other_rules i d = filter (\<lambda>r. ru_policy r \<noteq> i) (policy_rules_t d)"

definition validated :: "(string \<times> string) \<Rightarrow> (string \<times> string) \<Rightarrow> bool" where
  "validated given stored \<longleftrightarrow> fst stored = fst given \<and> ValidateRule (fst given) (snd given) = Inr (snd stored)"

lemma rules_valid_iff: "rules_valid d \<longleftrightarrow> (\<forall>p \<in> (\<lambda>r. (ru_kind r, ru_value r)) ` set (policy_rules_t d). \<exists>raw. validated (fst p, raw) p)"
  by (auto simp: rules_valid_def list_all_iff validated_def)

lemma save_rules_spec: "wp (save_rules E t i items) (\<lambda>r w'. w_trace w' = w_trace w \<and> (case r of Inl _ \<Rightarrow> True
    | Inr _ \<Rightarrow> other_rules i (w_db w') = other_rules i (w_db w) \<and> policies (w_db w') = policies (w_db w) \<and> users (w_db w') = users (w_db w)
        \<and> (\<exists>new. rule_pairs i (w_db w') = rule_pairs i (w_db w) @ new \<and> list_all2 validated items new))) w"
proof (induction items arbitrary: w)
  case (Cons item items)
  have step: "wp (ok_or (sql_at E t (insert_rule j i (fst item) val)) (\<lambda>_. save_rules E t i items)) (\<lambda>r w'. w_trace w' = w_trace w \<and> (case r of Inl _ \<Rightarrow> True
    | Inr _ \<Rightarrow> other_rules i (w_db w') = other_rules i (w_db w) \<and> policies (w_db w') = policies (w_db w) \<and> users (w_db w') = users (w_db w)
        \<and> (\<exists>new. rule_pairs i (w_db w') = rule_pairs i (w_db w) @ new \<and> list_all2 validated (item # items) new))) v"
    if val: "ValidateRule (fst item) (snd item) = Inr val" and v: "w_db v = w_db w" "w_trace v = w_trace w" for val j v
  proof (rule wp_sql_at_seq, goal_cases)
    case (1 x d u)
    then have d: "other_rules i d = other_rules i (w_db w)" "policies d = policies (w_db w)" "users d = users (w_db w)"
        "rule_pairs i d = rule_pairs i (w_db w) @ [(fst item, val)]"
      using v by (auto simp: insert_rule_def store_db_ok other_rules_def rule_pairs_def)
    have "validated item (fst item, val)" using val by (simp add: validated_def)
    then show ?case using 1 v by (intro wp_mono [OF Cons.IH]) (auto simp: d split: sum.splits)
  qed (simp add: v)
  then show ?case by (auto simp: wp_ok_or [where p = "State_Monad.return _"] wp_return wp_bind wp_uuid split: sum.split)
qed (simp add: wp_return)

text \<open>What saving leaves of a policy: its row as given, its rules as validated, everything else untouched.\<close>

definition policy_row_of :: "uuid \<Rightarrow> policy_input \<Rightarrow> policy_row \<Rightarrow> bool" where
  "policy_row_of i x p \<longleftrightarrow> po_id p = i \<and> po_name p = TrimSpace (pi_name x) \<and> po_description p = pi_description x
     \<and> po_mode p = pi_mode x \<and> po_enabled p = pi_enabled x"

definition other_policies :: "uuid \<Rightarrow> db \<Rightarrow> policy_row list" where
  "other_policies i d = filter (\<lambda>p. po_id p \<noteq> i) (policies d)"

definition row_saved :: "uuid \<Rightarrow> policy_input \<Rightarrow> db \<Rightarrow> db \<Rightarrow> bool" where
  "row_saved i x d d' \<longleftrightarrow> (\<exists>p \<in> set (policies d'). policy_row_of i x p) \<and> other_policies i d' = other_policies i d
     \<and> other_rules i d' = other_rules i d \<and> users d' = users d"

definition policy_saved :: "uuid \<Rightarrow> policy_input \<Rightarrow> db \<Rightarrow> db \<Rightarrow> bool" where
  "policy_saved i x d d' \<longleftrightarrow> row_saved i x d d' \<and> list_all2 validated (pi_rules x) (rule_pairs i d')"

lemma insert_policyD:
  assumes "insert_policy i (x\<lparr>pi_name := TrimSpace (pi_name x)\<rparr>) t d = Inr (u, d')" shows "row_saved i x d d'"
proof -
  have "d' = d\<lparr>policies := policies d @ [\<lparr>po_id = i, po_name = TrimSpace (pi_name x), po_description = pi_description x,
      po_mode = pi_mode x, po_enabled = pi_enabled x, po_created = t, po_updated = t\<rparr>]\<rparr>"
    using assms by (simp add: insert_policy_def store_db_ok)
  then show ?thesis by (auto simp: row_saved_def policy_row_of_def other_policies_def other_rules_def)
qed

lemma update_policyD:
  assumes "update_policy_row i (x\<lparr>pi_name := TrimSpace (pi_name x)\<rparr>) t d = Inr (n, d')" and "n = 1" shows "row_saved i x d d'"
proof -
  let ?f = "overwrite_policy (x\<lparr>pi_name := TrimSpace (pi_name x)\<rparr>) t"
  have d': "d' = d\<lparr>policies := update_rows (\<lambda>p. po_id p = i) ?f (policies d)\<rparr>" "affected (\<lambda>p. po_id p = i) (policies d) = 1"
    using assms by (simp_all add: update_policy_row_def store_db_ok)
  from affected_one [OF d'(2)] obtain p where "filter (\<lambda>p. po_id p = i) (policies d) = [p]" by blast
  then have p: "p \<in> set (policies d)" "po_id p = i" by (auto simp: filter_eq_Cons_iff)
  have "?f p \<in> set (policies d')" unfolding d'(1) using update_rows_hit [where P = "\<lambda>p. po_id p = i" and f = ?f, OF p(1)] p(2) by simp
  moreover have "policy_row_of i x (?f p)" using p(2) by (simp add: policy_row_of_def overwrite_policy_def)
  moreover have "filter (\<lambda>p. po_id p \<noteq> i) (update_rows (\<lambda>p. po_id p = i) ?f ps) = filter (\<lambda>p. po_id p \<noteq> i) ps" for ps
    by (induction ps) (auto simp: update_rows_def overwrite_policy_def)
  ultimately show ?thesis by (auto simp: row_saved_def other_policies_def other_rules_def d'(1))
qed

lemma delete_rulesD: "delete_rules i t d = Inr (x, d') \<Longrightarrow> rule_pairs i d' = [] \<and> other_rules i d' = other_rules i d \<and> policies d' = policies d \<and> users d' = users d"
  by (auto simp: delete_rules_def rule_pairs_def other_rules_def filter_delete_none)

lemma saved_rules_of:
  assumes "row_saved i x d (w_db w)"
  shows "wp (ok_or (sql_at E t (delete_rules i)) (\<lambda>_. save_rules E t i (pi_rules x)))
     (\<lambda>r w'. w_trace w' = w_trace w \<and> (case r of Inl _ \<Rightarrow> True | Inr _ \<Rightarrow> policy_saved i x d (w_db w'))) w"
proof (rule wp_sql_at_seq, goal_cases)
  case (1 y d' v)
  show ?case
    by (rule wp_mono [OF save_rules_spec])
      (use 1 assms delete_rulesD [OF 1(1)] in \<open>auto simp: policy_saved_def row_saved_def other_policies_def split: sum.splits\<close>)
qed simp

lemma savePolicy_spec: "wp (savePolicy E i x create) (\<lambda>r w'. w_trace w' = w_trace w \<and> (case r of
     Inl _ \<Rightarrow> w_db w' = w_db w | Inr _ \<Rightarrow> policy_saved i x (w_db w) (w_db w'))) w"
proof -
  let ?x = "x\<lparr>pi_name := TrimSpace (pi_name x)\<rparr>"
  have "wp (transaction E (\<lambda>t.
       ok_or (if create then sql_at E t (insert_policy i ?x)
              else ok_or (sql_at E t (update_policy_row i ?x)) (\<lambda>n. State_Monad.return (if n \<noteq> 1 then Inl ''policy not found'' else Inr ()))) (\<lambda>_.
       ok_or (sql_at E t (delete_rules i)) (\<lambda>_. save_rules E t i (pi_rules ?x)))))
     (\<lambda>r w'. w_trace w' = w_trace w \<and> (case r of Inl _ \<Rightarrow> w_db w' = w_db w | Inr _ \<Rightarrow> policy_saved i x (w_db w) (w_db w'))) w"
  proof (rule wp_transaction_all_or_nothing)
    fix t and v :: world assume v: "w_db v = w_db w" "w_trace v = w_trace w"
    have row: "wp (if create then sql_at E t (insert_policy i ?x)
              else ok_or (sql_at E t (update_policy_row i ?x)) (\<lambda>n. State_Monad.return (if n \<noteq> 1 then Inl ''policy not found'' else Inr ())))
       (\<lambda>r v'. w_trace v' = w_trace w \<and> (case r of Inl _ \<Rightarrow> True | Inr _ \<Rightarrow> row_saved i x (w_db w) (w_db v'))) v"
      using v by (auto simp: wp_ok_or wp_sql_at wp_return split: option.split sum.split dest: insert_policyD update_policyD)
    show "wp (ok_or (if create then sql_at E t (insert_policy i ?x)
              else ok_or (sql_at E t (update_policy_row i ?x)) (\<lambda>n. State_Monad.return (if n \<noteq> 1 then Inl ''policy not found'' else Inr ()))) (\<lambda>_.
       ok_or (sql_at E t (delete_rules i)) (\<lambda>_. save_rules E t i (pi_rules ?x))))
       (\<lambda>r v'. w_trace v' = w_trace w \<and> (case r of Inl _ \<Rightarrow> True | Inr y \<Rightarrow> policy_saved i x (w_db w) (w_db v'))) v"
    proof (rule wp_seq [OF row], goal_cases)
      case (2 y v')
      then show ?case using saved_rules_of [where w = v' and d = "w_db w" and x = x and i = i and E = E and t = t] by simp
    qed simp
  qed
  then show ?thesis by (simp add: savePolicy_def Let_def wp_return)
qed

lemma rules_valid_saved:
  assumes "policy_saved i x d d'" and "rules_valid d" shows "rules_valid d'"
proof -
  have "\<exists>raw. validated (fst p, raw) p" if p: "p \<in> set (rule_pairs i d')" for p
  proof -
    from assms(1) have "list_all2 validated (pi_rules x) (rule_pairs i d')" by (simp add: policy_saved_def)
    then obtain n where "validated (pi_rules x ! n) p" using p by (metis in_set_conv_nth list_all2_nthD2)
    then show ?thesis by (auto simp: validated_def intro: exI [of _ "snd (pi_rules x ! n)"])
  qed
  moreover have "r \<in> set (policy_rules_t d)" if "r \<in> set (policy_rules_t d')" "ru_policy r \<noteq> i" for r
    using assms(1) that by (auto simp: policy_saved_def row_saved_def other_rules_def set_eq_iff dest!: arg_cong [where f = set])
  ultimately show ?thesis
    using assms(2) unfolding rules_valid_iff rule_pairs_def by (auto simp: image_iff) metis
qed

text \<open>
  C33: Saving a policy. When creating or updating succeeds, the policy has exactly the name (trimmed),
  description, mode and switch that were given and, in order, the validated form of exactly the rules
  that were given; other policies and their rules are as before. When it fails, for a blank name, an
  unknown mode, an invalid or repeated rule, an unknown policy or in the database, nothing has changed.
  In particular the tables hold only rules that validation produced.
\<close>

theorem policy_saved_exactly:
  "case run_state (savePolicy E i x create) w of
     (Inl _, w1) \<Rightarrow> w_db w1 = w_db w
   | (Inr _, w1) \<Rightarrow> (\<exists>p \<in> set (policies (w_db w1)). policy_row_of i x p) \<and> list_all2 validated (pi_rules x) (rule_pairs i (w_db w1))
       \<and> other_policies i (w_db w1) = other_policies i (w_db w) \<and> other_rules i (w_db w1) = other_rules i (w_db w)
       \<and> (\<not> rules_valid (w_db w) \<or> rules_valid (w_db w1))"
  using savePolicy_spec [of E i x create w] rules_valid_saved [of i x "w_db w"]
  by (auto simp: wp_def policy_saved_def row_saved_def split: prod.splits sum.splits)

text \<open>A policy whose rule is stored in lower case.\<close>

definition sample_policy :: policy_input where
  "sample_policy = \<lparr>pi_name = '' web '', pi_description = [], pi_mode = ''whitelist'', pi_enabled = True,
     pi_rules = [(''exact_host'', ''A.test.'')]\<rparr>"

lemma sample_policy_eval: "ValidateRule ''exact_host'' ''A.test.'' = Inr ''a.test''" "TrimSpace '' web '' = ''web''"
  by code_simp+

lemma sample_policy_saved: "is_ok (fst (run_state (savePolicy sample_env 8 sample_policy True) (sample_world sample_db)))"
  by (rule wp_fst [where P = is_ok]) (simp add: savePolicy_def sample_policy_def sample_policy_eval step_simps Let_def sample_env_def sample_world_def
      Whitelist_def DenyAll_def DenyIntranet_def insert_policy_def delete_rules_def insert_rule_def delete_rows_def store_db_def db_ok_eval)

theorem policy_saved_exactly_witness:
  "\<exists>w1. run_state (savePolicy sample_env 8 sample_policy True) (sample_world sample_db) = (Inr (), w1)
     \<and> list_all2 validated (pi_rules sample_policy) (rule_pairs 8 (w_db w1)) \<and> rules_valid (w_db w1)"
proof -
  obtain w1 where r: "run_state (savePolicy sample_env 8 sample_policy True) (sample_world sample_db) = (Inr (), w1)"
    using is_ok_run [OF sample_policy_saved] by auto
  moreover have "rules_valid (w_db (sample_world sample_db))" by (simp add: rules_valid_def sample_world_def sample_db_def)
  ultimately show ?thesis
    using policy_saved_exactly [where E = sample_env and i = 8 and x = sample_policy and create = True and w = "sample_world sample_db"]
    by simp
qed

section \<open>The last administrator\<close>

definition has_admin :: "db \<Rightarrow> bool" where
  "has_admin d \<longleftrightarrow> list_ex active_admin (users d)"

lemma change_user_keeps: "us_id (change_user c t u) = us_id u" "\<not> demotes c \<Longrightarrow> active_admin u \<Longrightarrow> active_admin (change_user c t u)"
  by (auto simp: change_user_def active_admin_def demotes_def coalesce_def split: option.split)

text \<open>Taking a right from a user leaves an administrator when he had none, or when there are two.\<close>

lemma two_admins:
  assumes "distinct (map us_id us)" and "1 < length (filter active_admin us)"
  shows "\<exists>u \<in> set us. us_id u \<noteq> i \<and> active_admin u"
proof (rule ccontr)
  assume "\<not> ?thesis"
  then have "us_id u = i" if "u \<in> set (filter active_admin us)" for u using that by auto
  moreover have "distinct (map us_id (filter active_admin us))" using assms(1) by (rule distinct_map_filter)
  ultimately have "length (filter active_admin us) \<le> 1"
    using distinct_card [of "map us_id (filter active_admin us)"] card_mono [of "{i}" "us_id ` set (filter active_admin us)"]
    by (force simp: image_subset_iff)
  with assms(2) show False by simp
qed

lemma update_user_keeps_admin:
  assumes "u \<in> set (users d)" and "active_admin u" and "us_id u \<noteq> i \<or> \<not> demotes c"
    and "update_user i c t d = Inr (x, d')"
  shows "has_admin d'"
proof -
  let ?u = "if us_id u = i then change_user c t u else u"
  have "?u \<in> set (users d')" using assms(1,4) update_rows_mem [of u "users d" "\<lambda>u. us_id u = i" "change_user c t"] by (auto simp: update_user_def)
  moreover have "active_admin ?u" using assms(2,3) change_user_keeps(2) [of c u t] by auto
  ultimately show ?thesis by (auto simp: has_admin_def list_ex_iff)
qed

lemma last_admin_spec:
  assumes "db_ok (w_db w)" and "has_admin (w_db w)" and "e_fault E (w_tick w) = None"
  shows "wp (last_admin E i c) (\<lambda>b w'. w_db w' = w_db w \<and> w_trace w' = w_trace w
    \<and> (b \<or> (\<exists>u \<in> set (users (w_db w)). active_admin u \<and> (us_id u \<noteq> i \<or> \<not> demotes c)))) w"
proof -
  obtain a where a: "a \<in> set (users (w_db w))" "active_admin a" using assms(2) by (auto simp: has_admin_def list_ex_iff)
  have keys: "distinct (map us_id (users (w_db w)))" by (rule db_ok_user_keys(1) [OF assms(1)])
  have one: "\<exists>u \<in> set (users (w_db w)). active_admin u \<and> us_id u \<noteq> i"
    if "find (\<lambda>u. us_id u = i) (users (w_db w)) = None \<or> (\<exists>v. find (\<lambda>u. us_id u = i) (users (w_db w)) = Some v \<and> \<not> active_admin v)"
  proof -
    have "us_id a \<noteq> i" using that a distinct_mapD [OF keys _ a(1)] by (auto simp: find_None_iff dest!: find_SomeD)
    with a show ?thesis by blast
  qed
  have two: "length (filter active_admin (users (w_db w))) \<le> Suc 0" if "\<forall>u \<in> set (users (w_db w)). active_admin u \<longrightarrow> us_id u = i"
    using two_admins [OF keys, of i] that by (force simp: not_less)
  show ?thesis
    using a one two assms(3)
    by (auto simp: last_admin_def step_simps select_active_admin_def count_active_admins_def read_row_def read_rows_def not_le
        split: option.split) 
qed

end
