(* ===== verification/Admin.thy ===== *)
theory Admin
  imports Admin_Store
begin

text \<open>
  The handlers of \<open>internal/admin/http.go\<close>. As in the other handlers, the JSON decoder of an input struct
  is the argument \<open>dec\<close> and the path parameter \<open>id\<close> an argument; the routes are a table that the router
  of the server looks up.
\<close>

section \<open>The service\<close>

record admin_http =
  ad_cipher :: cipher
  ad_ldap :: ldap_service

definition internal :: "reply \<Rightarrow> request \<Rightarrow> reply prog" where
  "internal w r = refuse w r ErrInternal"

definition parseID :: "env \<Rightarrow> reply \<Rightarrow> request \<Rightarrow> string \<Rightarrow> reply + uuid" where
  "parseID E w r val = (case e_uuid_parse E val of None \<Rightarrow> Inl (Problem w r ErrInvalidID) | Some i \<Rightarrow> Inr i)"

text \<open>The record of an administrator's action; its failure is dropped.\<close>

definition admin_audit :: "env \<Rightarrow> session option \<Rightarrow> string \<Rightarrow> string \<Rightarrow> string \<Rightarrow> (string \<times> json) list \<Rightarrow> unit prog" where
  "admin_audit E sn eventType outcome target detail =
     ignore (sql E (insert_audit (Some (session_user sn)) eventType outcome target (JObj detail)))"

text \<open>Handlers with a path parameter, with a body, and with both.\<close>

definition with_id :: "env \<Rightarrow> string \<Rightarrow> (uuid \<Rightarrow> handler) \<Rightarrow> handler" where
  "with_id E param k sn w r = (case parseID E w r param of Inl p \<Rightarrow> State_Monad.return p | Inr i \<Rightarrow> k i sn w r)"

definition with_body :: "(string \<Rightarrow> 'a option) \<Rightarrow> ('a \<Rightarrow> handler) \<Rightarrow> handler" where
  "with_body dec k sn w r = (case DecodeJSON dec w r of Inl p \<Rightarrow> State_Monad.return p | Inr x \<Rightarrow> k x sn w r)"

text \<open>The end of most handlers: the action is recorded and answered without content.\<close>

definition finish :: "env \<Rightarrow> string \<Rightarrow> string \<Rightarrow> (string \<times> json) list \<Rightarrow> handler" where
  "finish E eventType target detail sn w r = do {
     admin_audit E sn eventType ''success'' target detail;
     State_Monad.return (no_content w) }"

definition json_items :: "json list \<Rightarrow> json" where
  "json_items xs = JObj [(''items'', JList xs)]"

definition json_ids :: "env \<Rightarrow> uuid list \<Rightarrow> json" where
  "json_ids E ids = JList (map (\<lambda>i. JStr (e_uuid_string E i)) ids)"

definition json_time :: "int option \<Rightarrow> json" where
  "json_time t = (case t of None \<Rightarrow> JNull | Some x \<Rightarrow> JTime x)"

section \<open>Users\<close>

definition json_user_item :: "env \<Rightarrow> user_row \<times> uuid list \<Rightarrow> json" where
  "json_user_item E x = (case x of (u, ids) \<Rightarrow> JObj [(''id'', JStr (e_uuid_string E (us_id u))), (''username'', JStr (us_username u)),
     (''display_name'', JStr (us_display u)), (''email'', JStr (us_email u)), (''auth_source'', JStr (us_source u)),
     (''is_admin'', JBool (us_admin u)), (''disabled_at'', json_time (us_disabled u)), (''last_login_at'', json_time (us_last_login u)),
     (''policy_ids'', json_ids E ids)])"

definition listUsers :: "env \<Rightarrow> handler" where
  "listUsers E sn w r = attempt (sql E select_users) (\<lambda>_. internal w r) (\<lambda>xs.
     State_Monad.return (WriteJSON 200 (json_items (map (json_user_item E) xs)) w))"

record user_input =
  in_username :: string
  in_display :: string
  in_email :: string
  in_password :: string
  in_admin :: bool

definition createUser :: "env \<Rightarrow> (string \<Rightarrow> user_input option) \<Rightarrow> handler" where
  "createUser E dec = with_body dec (\<lambda>x sn w r.
     attempt (CreateLocalUser E (in_username x) (in_display x) (in_email x) (in_password x) (in_admin x)) (\<lambda>_. refuse w r ErrInvalidUser) (\<lambda>u. do {
       admin_audit E sn ''user.create'' ''success'' (e_uuid_string E (uu_id u)) [];
       State_Monad.return (WriteJSON 201 (json_user E u) w) }))"

definition updateUser :: "env \<Rightarrow> (string \<Rightarrow> user_change option) \<Rightarrow> string \<Rightarrow> handler" where
  "updateUser E dec param = with_id E param (\<lambda>i. with_body dec (\<lambda>c sn w r. do {
     refused \<leftarrow> last_admin E i c;
     (if refused then refuse w r ErrLastAdmin
      else attempt (sql E (update_user i c)) (\<lambda>_. internal w r) (\<lambda>_.
        finish E ''user.update'' (e_uuid_string E i) [] sn w r)) }))"

definition setPassword :: "env \<Rightarrow> (string \<Rightarrow> string option) \<Rightarrow> string \<Rightarrow> handler" where
  "setPassword E dec param = with_id E param (\<lambda>i. with_body dec (\<lambda>pw sn w r.
     attempt (HashPassword E pw) (\<lambda>_. refuse w r ErrInvalidPassword) (\<lambda>hash.
     attempt (sql E (set_password_hash i hash)) (\<lambda>_. refuse w r ErrInvalidUser) (\<lambda>n.
     if n \<noteq> 1 then refuse w r ErrInvalidUser
     else do {
       ignore (sql E (delete_sessions_of i));
       finish E ''user.password'' (e_uuid_string E i) [] sn w r }))))"

text \<open>The three handlers that replace an assignment differ in the table, the error and the event.\<close>

definition count_detail :: "uuid list \<Rightarrow> (string \<times> json) list" where
  "count_detail ids = [(''count'', JNum (int (length ids)))]"

definition setUserPolicies :: "env \<Rightarrow> (string \<Rightarrow> uuid list option) \<Rightarrow> string \<Rightarrow> handler" where
  "setUserPolicies E dec param = with_id E param (\<lambda>i. with_body dec (\<lambda>ids sn w r.
     attempt (replaceAssignments E ''user_policies'' ''user_id'' i ids) (\<lambda>_. refuse w r ErrInvalidPolicy) (\<lambda>_.
     finish E ''user.policies'' (e_uuid_string E i) (count_detail ids) sn w r)))"

section \<open>Policies\<close>

definition json_rule :: "env \<Rightarrow> rule \<Rightarrow> json" where
  "json_rule E x = JObj [(''id'', JStr (e_uuid_string E (rule_id x))), (''kind'', JStr (rule_kind x)), (''value'', JStr (rule_value x))]"

definition json_policy :: "env \<Rightarrow> policy \<Rightarrow> json" where
  "json_policy E p = JObj [(''id'', JStr (e_uuid_string E (policy_id p))), (''name'', JStr (policy_name p)),
     (''description'', JStr (policy_description p)), (''mode'', JStr (policy_mode p)), (''enabled'', JBool (policy_enabled p)),
     (''rules'', JList (map (json_rule E) (policy_rules p)))]"

definition listPolicies :: "env \<Rightarrow> handler" where
  "listPolicies E sn w r = attempt (load_policies E) (\<lambda>_. internal w r) (\<lambda>ps.
     State_Monad.return (WriteJSON 200 (json_items (map (json_policy E) ps)) w))"

definition createPolicy :: "env \<Rightarrow> (string \<Rightarrow> policy_input option) \<Rightarrow> handler" where
  "createPolicy E dec = with_body dec (\<lambda>x sn w r. do {
     i \<leftarrow> new_uuid E;
     attempt (savePolicy E i x True) (\<lambda>_. refuse w r ErrInvalidPolicy) (\<lambda>_. do {
       admin_audit E sn ''policy.create'' ''success'' (e_uuid_string E i) [];
       State_Monad.return (WriteJSON 201 (JObj [(''id'', JStr (e_uuid_string E i))]) w) }) })"

definition updatePolicy :: "env \<Rightarrow> (string \<Rightarrow> policy_input option) \<Rightarrow> string \<Rightarrow> handler" where
  "updatePolicy E dec param = with_id E param (\<lambda>i. with_body dec (\<lambda>x sn w r.
     attempt (savePolicy E i x False) (\<lambda>_. refuse w r ErrInvalidPolicy) (\<lambda>_.
     finish E ''policy.update'' (e_uuid_string E i) [] sn w r)))"

definition deletePolicy :: "env \<Rightarrow> string \<Rightarrow> handler" where
  "deletePolicy E param = with_id E param (\<lambda>i sn w r.
     attempt (sql E (delete_policy i)) (\<lambda>_. internal w r) (\<lambda>_.
     finish E ''policy.delete'' (e_uuid_string E i) [] sn w r))"

section \<open>The directory\<close>

definition json_settings :: "ldap_values \<Rightarrow> json" where
  "json_settings v = JObj [(''enabled'', JBool (ls_enabled v)), (''mode'', JStr (ls_mode v)), (''url'', JStr (ls_url v)),
     (''start_tls'', JBool (ls_start_tls v)), (''base_dn'', JStr (ls_base_dn v)), (''bind_dn'', JStr (ls_bind_dn v)),
     (''user_filter'', JStr (ls_user_filter v)), (''user_dn_template'', JStr (ls_user_dn_template v)),
     (''username_attribute'', JStr (ls_username_attribute v)), (''display_name_attribute'', JStr (ls_display_name_attribute v)),
     (''email_attribute'', JStr (ls_email_attribute v)), (''group_mode'', JStr (ls_group_mode v)),
     (''group_base_dn'', JStr (ls_group_base_dn v)), (''group_filter'', JStr (ls_group_filter v)),
     (''group_name_attribute'', JStr (ls_group_name_attribute v))]"

definition getLDAP :: "env \<Rightarrow> admin_http \<Rightarrow> handler" where
  "getLDAP E h sn w r = attempt (Settings E) (\<lambda>_. internal w r) (\<lambda>v.
     State_Monad.return (WriteJSON 200 (JObj [(''settings'', json_settings v),
       (''bind_password_configured'', JBool (BindPasswordConfigured (ad_ldap h)))]) w))"

definition updateLDAP :: "env \<Rightarrow> (string \<Rightarrow> ldap_values option) \<Rightarrow> handler" where
  "updateLDAP E dec = with_body dec (\<lambda>v sn w r.
     attempt (UpdateSettings E v) (\<lambda>_. refuse w r ErrInvalidLDAP) (\<lambda>_. finish E ''ldap.update'' ''ldap'' [] sn w r))"

definition testLDAP :: "env \<Rightarrow> admin_http \<Rightarrow> handler" where
  "testLDAP E h sn w r = attempt (TestLdap E (ad_ldap h)) (\<lambda>_. do {
       admin_audit E sn ''ldap.test'' ''failure'' ''ldap'' [(''message_id'', JStr ''error.admin.ldap_unavailable'')];
       refuse w r ErrLDAPUnavailable })
     (\<lambda>_. finish E ''ldap.test'' ''ldap'' [] sn w r)"

definition json_group_item :: "env \<Rightarrow> group_row \<times> uuid list \<Rightarrow> json" where
  "json_group_item E x = (case x of (g, ids) \<Rightarrow> JObj [(''id'', JStr (e_uuid_string E (gr_id g))), (''external_dn'', JStr (gr_dn g)),
     (''name'', JStr (gr_name g)), (''last_seen_at'', JTime (gr_seen g)), (''policy_ids'', json_ids E ids)])"

definition listGroups :: "env \<Rightarrow> handler" where
  "listGroups E sn w r = attempt (sql E select_groups) (\<lambda>_. internal w r) (\<lambda>xs.
     State_Monad.return (WriteJSON 200 (json_items (map (json_group_item E) xs)) w))"

definition setGroupPolicies :: "env \<Rightarrow> (string \<Rightarrow> uuid list option) \<Rightarrow> string \<Rightarrow> handler" where
  "setGroupPolicies E dec param = with_id E param (\<lambda>i. with_body dec (\<lambda>ids sn w r.
     attempt (replaceAssignments E ''ldap_group_policies'' ''group_id'' i ids) (\<lambda>_. refuse w r ErrInvalidPolicy) (\<lambda>_.
     finish E ''group.policies'' (e_uuid_string E i) (count_detail ids) sn w r)))"

section \<open>Upstream proxies\<close>

text \<open>The embedded struct's fields come first.\<close>

definition json_upstream_item :: "env \<Rightarrow> upstream \<Rightarrow> uuid list \<Rightarrow> uuid list \<Rightarrow> json" where
  "json_upstream_item E u us gs = (case json_upstream E u of
     JObj fs \<Rightarrow> JObj (fs @ [(''user_ids'', json_ids E us), (''group_ids'', json_ids E gs)]) | j \<Rightarrow> j)"

primrec upstream_items :: "env \<Rightarrow> upstream list \<Rightarrow> json list result prog" where
  "upstream_items E [] = State_Monad.return (Inr [])"
| "upstream_items E (u # us) =
     ok_or (sql E (select_holders ''user_upstream_proxies'' (ux_id u))) (\<lambda>user_ids.
     ok_or (sql E (select_holders ''ldap_group_upstream_proxies'' (ux_id u))) (\<lambda>group_ids.
     ok_or (upstream_items E us) (\<lambda>items.
     State_Monad.return (Inr (json_upstream_item E u user_ids group_ids # items)))))"

definition listUpstreamProxies :: "env \<Rightarrow> handler" where
  "listUpstreamProxies E sn w r = attempt (ok_or (ListUpstreams E) (upstream_items E)) (\<lambda>_. internal w r) (\<lambda>items.
     State_Monad.return (WriteJSON 200 (json_items items) w))"

definition createUpstreamProxy :: "env \<Rightarrow> admin_http \<Rightarrow> (string \<Rightarrow> upstream_input option) \<Rightarrow> handler" where
  "createUpstreamProxy E h dec = with_body dec (\<lambda>x sn w r.
     attempt (CreateUpstream E (ad_cipher h) x) (\<lambda>_. refuse w r ErrInvalidUpstreamProxy) (\<lambda>i. do {
       admin_audit E sn ''upstream_proxy.create'' ''success'' (e_uuid_string E i) [(''type'', JStr (ui_type x))];
       State_Monad.return (WriteJSON 201 (JObj [(''id'', JStr (e_uuid_string E i))]) w) }))"

definition updateUpstreamProxy :: "env \<Rightarrow> admin_http \<Rightarrow> (string \<Rightarrow> upstream_input option) \<Rightarrow> string \<Rightarrow> handler" where
  "updateUpstreamProxy E h dec param = with_id E param (\<lambda>i. with_body dec (\<lambda>x sn w r.
     attempt (UpdateUpstream E (ad_cipher h) i x) (\<lambda>_. refuse w r ErrInvalidUpstreamProxy) (\<lambda>_.
     finish E ''upstream_proxy.update'' (e_uuid_string E i) [(''type'', JStr (ui_type x))] sn w r)))"

definition deleteUpstreamProxy :: "env \<Rightarrow> string \<Rightarrow> handler" where
  "deleteUpstreamProxy E param = with_id E param (\<lambda>i sn w r.
     attempt (DeleteUpstream E i) (\<lambda>_. refuse w r ErrUpstreamProxyNotFound) (\<lambda>_.
     finish E ''upstream_proxy.delete'' (e_uuid_string E i) [] sn w r))"

definition setUpstreamAssignments :: "env \<Rightarrow> (string \<Rightarrow> uuid list option) \<Rightarrow> string \<Rightarrow> string \<Rightarrow> string \<Rightarrow> string \<Rightarrow> handler" where
  "setUpstreamAssignments E dec table column eventType param = with_id E param (\<lambda>i. with_body dec (\<lambda>ids sn w r.
     attempt (replaceResourceAssignments E table column i ids) (\<lambda>_. refuse w r ErrInvalidAssignment) (\<lambda>_.
     finish E eventType (e_uuid_string E i) (count_detail ids) sn w r)))"

definition setUpstreamProxyUsers :: "env \<Rightarrow> (string \<Rightarrow> uuid list option) \<Rightarrow> string \<Rightarrow> handler" where
  "setUpstreamProxyUsers E dec = setUpstreamAssignments E dec ''user_upstream_proxies'' ''user_id'' ''upstream_proxy.users''"

definition setUpstreamProxyGroups :: "env \<Rightarrow> (string \<Rightarrow> uuid list option) \<Rightarrow> string \<Rightarrow> handler" where
  "setUpstreamProxyGroups E dec = setUpstreamAssignments E dec ''ldap_group_upstream_proxies'' ''group_id'' ''upstream_proxy.groups''"

section \<open>Direct access\<close>

definition json_direct :: "env \<Rightarrow> direct_access \<Rightarrow> json" where
  "json_direct E x = JObj [(''restricted'', JBool (da_restricted x)), (''user_ids'', json_ids E (da_users x)),
     (''group_ids'', json_ids E (da_groups x))]"

definition getDirectAccess :: "env \<Rightarrow> handler" where
  "getDirectAccess E sn w r = attempt (DirectAccess E) (\<lambda>_. internal w r) (\<lambda>x. State_Monad.return (WriteJSON 200 (json_direct E x) w))"

definition updateDirectAccess :: "env \<Rightarrow> (string \<Rightarrow> bool option) \<Rightarrow> handler" where
  "updateDirectAccess E dec = with_body dec (\<lambda>b sn w r.
     attempt (SetDirectRestricted E b) (\<lambda>_. internal w r) (\<lambda>_.
     finish E ''direct_access.update'' ''direct'' [(''restricted'', JBool b)] sn w r))"

definition setDirectAssignments :: "env \<Rightarrow> (string \<Rightarrow> uuid list option) \<Rightarrow> string \<Rightarrow> string \<Rightarrow> string \<Rightarrow> handler" where
  "setDirectAssignments E dec table column eventType = with_body dec (\<lambda>ids sn w r.
     attempt (replaceDirectAssignments E table column ids) (\<lambda>_. refuse w r ErrInvalidAssignment) (\<lambda>_.
     finish E eventType ''direct'' (count_detail ids) sn w r))"

definition setDirectAccessUsers :: "env \<Rightarrow> (string \<Rightarrow> uuid list option) \<Rightarrow> handler" where
  "setDirectAccessUsers E dec = setDirectAssignments E dec ''direct_access_users'' ''user_id'' ''direct_access.users''"

definition setDirectAccessGroups :: "env \<Rightarrow> (string \<Rightarrow> uuid list option) \<Rightarrow> handler" where
  "setDirectAccessGroups E dec = setDirectAssignments E dec ''direct_access_ldap_groups'' ''group_id'' ''direct_access.groups''"

section \<open>The audit log\<close>

definition json_audit :: "env \<Rightarrow> audit_row \<Rightarrow> json" where
  "json_audit E e = JObj [(''id'', JNum (au_id e)), (''actor_user_id'', json_optional_id E (au_actor e)), (''event_type'', JStr (au_type e)),
     (''outcome'', JStr (au_outcome e)), (''target'', JStr (au_target e)), (''detail'', au_detail e), (''created_at'', JTime (au_created e))]"

definition listAudit :: "env \<Rightarrow> handler" where
  "listAudit E sn w r = attempt (sql E select_audit) (\<lambda>_. internal w r) (\<lambda>es.
     State_Monad.return (WriteJSON 200 (json_items (map (json_audit E) es)) w))"

section \<open>The routes\<close>

text \<open>The decoders of the bodies, and the table of \<open>Routes\<close>: method, pattern and the handler of the path parameter.\<close>

record admin_decoders =
  de_user :: "string \<Rightarrow> user_input option"
  de_change :: "string \<Rightarrow> user_change option"
  de_password :: "string \<Rightarrow> string option"
  de_policy_ids :: "string \<Rightarrow> uuid list option"
  de_policy :: "string \<Rightarrow> policy_input option"
  de_settings :: "string \<Rightarrow> ldap_values option"
  de_upstream :: "string \<Rightarrow> upstream_input option"
  de_ids :: "string \<Rightarrow> uuid list option"
  de_restricted :: "string \<Rightarrow> bool option"

type_synonym routes = "(string \<times> string \<times> (string \<Rightarrow> handler)) list"

definition admin_routes :: "env \<Rightarrow> admin_http \<Rightarrow> admin_decoders \<Rightarrow> routes" where
  "admin_routes E h D = [
     (''GET'', ''/users'', \<lambda>_. listUsers E),
     (''POST'', ''/users'', \<lambda>_. createUser E (de_user D)),
     (''PATCH'', ''/users/{id}'', updateUser E (de_change D)),
     (''POST'', ''/users/{id}/password'', setPassword E (de_password D)),
     (''PUT'', ''/users/{id}/policies'', setUserPolicies E (de_policy_ids D)),
     (''GET'', ''/policies'', \<lambda>_. listPolicies E),
     (''POST'', ''/policies'', \<lambda>_. createPolicy E (de_policy D)),
     (''PUT'', ''/policies/{id}'', updatePolicy E (de_policy D)),
     (''DELETE'', ''/policies/{id}'', deletePolicy E),
     (''GET'', ''/ldap'', \<lambda>_. getLDAP E h),
     (''PUT'', ''/ldap'', \<lambda>_. updateLDAP E (de_settings D)),
     (''POST'', ''/ldap/test'', \<lambda>_. testLDAP E h),
     (''GET'', ''/ldap/groups'', \<lambda>_. listGroups E),
     (''PUT'', ''/ldap/groups/{id}/policies'', setGroupPolicies E (de_policy_ids D)),
     (''GET'', ''/upstream-proxies'', \<lambda>_. listUpstreamProxies E),
     (''POST'', ''/upstream-proxies'', \<lambda>_. createUpstreamProxy E h (de_upstream D)),
     (''PUT'', ''/upstream-proxies/{id}'', updateUpstreamProxy E h (de_upstream D)),
     (''DELETE'', ''/upstream-proxies/{id}'', deleteUpstreamProxy E),
     (''PUT'', ''/upstream-proxies/{id}/users'', setUpstreamProxyUsers E (de_ids D)),
     (''PUT'', ''/upstream-proxies/{id}/groups'', setUpstreamProxyGroups E (de_ids D)),
     (''GET'', ''/direct-access'', \<lambda>_. getDirectAccess E),
     (''PUT'', ''/direct-access'', \<lambda>_. updateDirectAccess E (de_restricted D)),
     (''PUT'', ''/direct-access/users'', \<lambda>_. setDirectAccessUsers E (de_ids D)),
     (''PUT'', ''/direct-access/groups'', \<lambda>_. setDirectAccessGroups E (de_ids D)),
     (''GET'', ''/audit'', \<lambda>_. listAudit E)]"

section \<open>What the handlers do\<close>

text \<open>Recording an action changes the log alone.\<close>

definition but_audit :: "db \<Rightarrow> db" where
  "but_audit d = d\<lparr>audit_events := []\<rparr>"

lemma but_audit_fields: "but_audit d' = but_audit d \<Longrightarrow> users d' = users d \<and> sessions d' = sessions d \<and> program_tokens d' = program_tokens d"
  by (cases d; cases d') (simp add: but_audit_def)

lemma admin_audit_spec: "wp (admin_audit E sn k oc ta de) (\<lambda>_ w'. but_audit (w_db w') = but_audit (w_db w) \<and> w_trace w' = w_trace w) w"
  by (auto simp: admin_audit_def step_simps insert_audit_def store_db_ok but_audit_def split: option.split sum.split)

lemma finish_spec: "wp (finish E k ta de sn w r) (\<lambda>p w'. p = no_content w \<and> but_audit (w_db w') = but_audit (w_db v) \<and> w_trace w' = w_trace v) v"
  unfolding finish_def wp_bind wp_return by (rule wp_mono [OF admin_audit_spec]) simp

lemma wp_with_id: "wp (with_id E param k sn w r) Q v = (case e_uuid_parse E param of None \<Rightarrow> Q (Problem w r ErrInvalidID) v
    | Some i \<Rightarrow> wp (k i sn w r) Q v)"
  by (simp add: with_id_def parseID_def wp_return split: option.split)

lemma wp_with_body: "wp (with_body dec k sn w r) Q v = (case DecodeJSON dec w r of Inl p \<Rightarrow> Q p v | Inr x \<Rightarrow> wp (k x sn w r) Q v)"
  by (simp add: with_body_def wp_return split: sum.split)

text \<open>
  C24: The last administrator stays. Changing a user, alone and with the read of his state working, never
  leaves the installation without an enabled administrator when it had one: taking the right from or
  disabling the only one is refused, and nothing else takes the right away.
\<close>

theorem last_admin_stays:
  assumes "db_ok (w_db v)" and "list_ex active_admin (users (w_db v))" and "e_fault E (w_tick v) = None"
  shows "list_ex active_admin (users (w_db (snd (run_state (updateUser E dec param sn w r) v))))"
proof -
  have "wp (updateUser E dec param sn w r) (\<lambda>_ w'. has_admin (w_db w')) v"
  proof (cases "e_uuid_parse E param")
    case None
    then show ?thesis using assms(2) by (simp add: updateUser_def wp_with_id has_admin_def)
  next
    case (Some i)
    show ?thesis
    proof (cases "DecodeJSON dec w r")
      case (Inl p)
      then show ?thesis using assms(2) by (simp add: updateUser_def wp_with_id wp_with_body Some has_admin_def)
    next
      case (Inr c)
      have a: "has_admin (w_db v)" using assms(2) by (simp add: has_admin_def)
      show ?thesis
        unfolding updateUser_def wp_with_id wp_with_body Some Inr option.case sum.case
      proof (rule wp_then [OF last_admin_spec [OF assms(1) a assms(3)]], goal_cases)
        case (1 refused v1)
        show ?case
        proof (cases refused)
          case True
          with 1 a show ?thesis by (simp add: wp_refuse)
        next
          case False
          with 1 obtain u where u: "u \<in> set (users (w_db v1))" "active_admin u" "us_id u \<noteq> i \<or> \<not> demotes c" by auto
          have "has_admin d'" if "update_user i c t (w_db v1) = Inr (x, d')" for t x d'
            by (rule update_user_keeps_admin [OF u that])
          moreover have "has_admin (w_db v1)" using 1 a by simp
          ultimately show ?thesis
            using False by (auto simp: wp_attempt wp_sql wp_sql_at internal_def wp_refuse has_admin_def split: option.split sum.split
                dest!: but_audit_fields intro!: wp_mono [OF finish_spec])
        qed
      qed
    qed
  qed
  then show ?thesis by (simp add: wp_run has_admin_def)
qed

text \<open>When the read fails, the guard does not refuse.\<close>

lemma last_admin_read_failure: "demotes c \<Longrightarrow> e_fault E (w_tick v) = Some err \<Longrightarrow> wp (last_admin E i c) (\<lambda>refused _. \<not> refused) v"
  by (simp add: last_admin_def step_simps)

definition admin_db :: db where
  "admin_db = sample_db\<lparr>users := [(sample_user 1 ''alice'' None)\<lparr>us_admin := True\<rparr>, sample_user 2 ''bob'' (Some 0)]\<rparr>"

lemma admin_db_ok: "db_ok admin_db"
  by (simp add: admin_db_def db_ok_eval)

definition demotion :: user_change where
  "demotion = \<lparr>uc_display = None, uc_email = None, uc_admin = Some False, uc_disabled = None\<rparr>"

definition admin_request :: request where
  "admin_request = \<lparr>rq_method = ''PATCH'', rq_url = empty_url, rq_host = [], rq_header = (\<lambda>_. None), rq_body = []\<rparr>"

theorem last_admin_stays_witness:
  "list_ex active_admin (users (w_db (snd (run_state
     (updateUser sample_env (\<lambda>_. Some demotion) (sample_uuid_string 1) None new_reply admin_request) (sample_world admin_db)))))"
proof (rule last_admin_stays)
  show "db_ok (w_db (sample_world admin_db))" by (simp add: sample_world_def admin_db_ok)
  show "list_ex active_admin (users (w_db (sample_world admin_db)))"
    by (simp add: sample_world_def admin_db_def active_admin_def sample_user_def)
qed (simp add: sample_env_def)

text \<open>A password as an administrator set it, and the sessions of its user.\<close>

definition password_set :: "env \<Rightarrow> uuid \<Rightarrow> string \<Rightarrow> db \<Rightarrow> db \<Rightarrow> bool" where
  "password_set E i pw d d' \<longleftrightarrow>
     (\<exists>u \<in> set (users d'). us_id u = i \<and> us_source u = ''local'' \<and> (\<exists>hash. us_password u = Some hash \<and> VerifyPassword E pw hash))
   \<and> filter (\<lambda>u. us_id u \<noteq> i) (users d') = filter (\<lambda>u. us_id u \<noteq> i) (users d)
   \<and> map (\<lambda>u. (us_id u, us_admin u, us_disabled u)) (users d') = map (\<lambda>u. (us_id u, us_admin u, us_disabled u)) (users d)"

text \<open>The first statement finds exactly one row, or changes nothing.\<close>

lemma other_users: "(\<And>u. P u \<Longrightarrow> us_id u = i \<and> us_id (f u) = i) \<Longrightarrow>
    filter (\<lambda>u. us_id u \<noteq> i) (update_rows P f us) = filter (\<lambda>u. us_id u \<noteq> i) us"
  by (induction us) (auto simp: update_rows_def)

lemma set_password_hashD:
  assumes "set_password_hash i hash t d = Inr (n, d')" and "VerifyPassword E pw hash"
  shows "if n = 0 then users d' = users d else password_set E i pw d d'"
proof -
  let ?f = "\<lambda>u. u\<lparr>us_password := Some hash, us_updated := t\<rparr>"
  have d': "d' = d\<lparr>users := update_rows (local_user i) ?f (users d)\<rparr>" "n = affected (local_user i) (users d)"
    using assms(1) by (simp_all add: set_password_hash_def)
  show ?thesis
  proof (cases "n = 0")
    case True
    then have "\<not> local_user i u" if "u \<in> set (users d)" for u using that d'(2) by (auto simp: affected_def filter_empty_conv)
    then have "update_rows (local_user i) ?f (users d) = users d" by (simp add: update_rows_def map_idI)
    then show ?thesis using True by (simp add: d'(1))
  next
    case False
    then obtain u where u: "u \<in> set (users d)" "local_user i u" using d'(2) by (auto simp: affected_def filter_empty_conv)
    from update_rows_hit [where P = "local_user i" and f = ?f, OF u] have "?f u \<in> set (users d')" by (simp add: d'(1))
    moreover have "map (\<lambda>u. (us_id u, us_admin u, us_disabled u)) (users d') = map (\<lambda>u. (us_id u, us_admin u, us_disabled u)) (users d)"
      unfolding d'(1) by (simp add: map_update_rows)
    moreover have "us_id (?f u) = i \<and> us_source (?f u) = ''local'' \<and> us_password (?f u) = Some hash" using u(2) by (simp add: local_user_def)
    moreover have "filter (\<lambda>u. us_id u \<noteq> i) (users d') = filter (\<lambda>u. us_id u \<noteq> i) (users d)"
      using other_users [of "local_user i" i ?f "users d"] by (simp add: d'(1) local_user_def)
    ultimately show ?thesis using False assms(2) unfolding password_set_def by (simp only: if_False) blast
  qed
qed

lemma local_user_once: "db_ok d \<Longrightarrow> affected (local_user i) (users d) \<le> 1"
proof -
  assume ok: "db_ok d"
  have "distinct (map us_id (filter (local_user i) (users d)))" by (rule distinct_map_filter [OF db_ok_user_keys(1) [OF ok]])
  moreover have "set (map us_id (filter (local_user i) (users d))) \<subseteq> {i}" by (auto simp: local_user_def)
  ultimately show ?thesis
    using distinct_card [of "map us_id (filter (local_user i) (users d))"] card_mono [of "{i}" "set (map us_id (filter (local_user i) (users d)))"]
    by (simp add: affected_def)
qed

text \<open>
  What becomes of the sessions: those of the user are deleted, by a statement whose error the handler
  ignores; \<open>t\<close> is its step in the run.
\<close>

definition sessions_ended :: "env \<Rightarrow> nat \<Rightarrow> uuid \<Rightarrow> db \<Rightarrow> db \<Rightarrow> bool" where
  "sessions_ended E t i d d' \<longleftrightarrow> program_tokens d' = program_tokens d
     \<and> sessions d' = (if e_fault E t = None then filter (\<lambda>s. se_user s \<noteq> i) (sessions d) else sessions d)"

lemma reset_spec:
  assumes "db_ok (w_db v)" and "VerifyPassword E pw hash"
  shows "wp (attempt (sql E (set_password_hash i hash)) (\<lambda>_. refuse w r ErrInvalidUser) (\<lambda>n.
     if n \<noteq> 1 then refuse w r ErrInvalidUser
     else do { ignore (sql E (delete_sessions_of i)); finish E k ta de sn w r }))
     (\<lambda>p v'. users (w_db v') = users (w_db v) \<and> sessions (w_db v') = sessions (w_db v) \<and> 400 \<le> rp_status p
        \<or> rp_status p = 204 \<and> password_set E i pw (w_db v) (w_db v') \<and> sessions_ended E (Suc (w_tick v)) i (w_db v) (w_db v')) v"
proof -
  let ?Q = "\<lambda>p v'. users (w_db v') = users (w_db v) \<and> sessions (w_db v') = sessions (w_db v) \<and> 400 \<le> rp_status p
      \<or> rp_status p = 204 \<and> password_set E i pw (w_db v) (w_db v') \<and> sessions_ended E (Suc (w_tick v)) i (w_db v) (w_db v')"
  let ?t = "e_now E (w_tick v)"
  obtain n d where set: "set_password_hash i hash ?t (w_db v) = Inr (n, d)" by (auto simp: set_password_hash_def)
  then have d: "sessions d = sessions (w_db v)" "program_tokens d = program_tokens (w_db v)" "n \<le> 1"
    using local_user_once [OF assms(1), of i] by (auto simp: set_password_hash_def)
  have fin: "wp (finish E k ta de sn w r) (\<lambda>p v'. rp_status p = 204 \<and> users (w_db v') = users (w_db u) \<and> sessions (w_db v') = sessions (w_db u)
     \<and> program_tokens (w_db v') = program_tokens (w_db u)) u" for u
    by (rule wp_mono [OF finish_spec]) (auto simp: no_content_def dest: but_audit_fields)
  note row = set_password_hashD [OF set assms(2)]
  show ?thesis
  proof (cases "e_fault E (w_tick v)")
    case (Some err)
    then show ?thesis by (simp add: wp_attempt wp_sql wp_sql_at wp_refuse Problem_error)
  next
    case ok: None
    show ?thesis
    proof (cases "n = 0")
      case True
      with row d ok show ?thesis by (simp add: wp_attempt wp_sql wp_sql_at set wp_refuse Problem_error)
    next
      case False
      with d(3) row have n: "n = 1" "password_set E i pw (w_db v) d" by auto
      have "wp (finish E k ta de sn w r) ?Q u"
        if "users (w_db u) = users d" "program_tokens (w_db u) = program_tokens d"
          "sessions (w_db u) = (if e_fault E (Suc (w_tick v)) = None then delete_rows (\<lambda>s. se_user s = i) (sessions d) else sessions d)" for u
        by (rule wp_mono [OF fin]) (use n(2) d that in \<open>auto simp: password_set_def sessions_ended_def delete_rows_def\<close>)
      then show ?thesis
        by (auto simp: wp_attempt wp_sql wp_sql_at ok set n(1) wp_bind wp_ignore delete_sessions_of_def split: option.split)
    qed
  qed
qed

text \<open>
  C34: Setting a password ends the user's sessions. When the request is answered with 204, the local
  account of the identifier accepts the new password, no other account and no right has changed (his
  program tokens stay), and every session of that user is deleted, except when exactly the statement that
  deletes them fails: the handler ignores that error, and then the sessions are as before though the answer
  is 204. Otherwise the answer is an error, and accounts and sessions are as before.
\<close>

theorem password_reset_ends_sessions:
  assumes "db_ok (w_db v)" and "random_lengths E" and "argon_lengths E"
  shows "case run_state (setPassword E dec param sn w r) v of (p, v1) \<Rightarrow>
     users (w_db v1) = users (w_db v) \<and> sessions (w_db v1) = sessions (w_db v) \<and> 400 \<le> rp_status p
   \<or> (\<exists>i pw. e_uuid_parse E param = Some i \<and> DecodeJSON dec w r = Inr pw \<and> rp_status p = 204
       \<and> password_set E i pw (w_db v) (w_db v1) \<and> sessions_ended E (w_tick v + 2) i (w_db v) (w_db v1))"
proof -
  have hash: "wp (HashPassword E pw) (\<lambda>h v'. w_db v' = w_db v \<and> (case h of Inl _ \<Rightarrow> True | Inr hash \<Rightarrow> VerifyPassword E pw hash \<and> w_tick v' = Suc (w_tick v))) v" for pw
  proof -
    have "wp (HashPassword E pw) (\<lambda>h v'. w_db v' = w_db v \<and> (is_ok h \<longrightarrow> w_tick v' = Suc (w_tick v))) v" by (auto simp: HashPassword_def step_simps split: sum.split)
    then show ?thesis using HashPassword_hash [OF _ assms(2,3), of pw v] by (auto simp: wp_run split: sum.split)
  qed
  have "wp (setPassword E dec param sn w r) (\<lambda>p v1.
     users (w_db v1) = users (w_db v) \<and> sessions (w_db v1) = sessions (w_db v) \<and> 400 \<le> rp_status p
   \<or> (\<exists>i pw. e_uuid_parse E param = Some i \<and> DecodeJSON dec w r = Inr pw \<and> rp_status p = 204
       \<and> password_set E i pw (w_db v) (w_db v1) \<and> sessions_ended E (w_tick v + 2) i (w_db v) (w_db v1))) v"
  proof (cases "e_uuid_parse E param")
    case None
    then show ?thesis by (simp add: setPassword_def wp_with_id Problem_error)
  next
    case (Some i)
    show ?thesis
    proof (cases "DecodeJSON dec w r")
      case (Inl p)
      then have "400 \<le> rp_status p" by (auto simp: DecodeJSON_def Problem_error split: option.splits)
      with Inl show ?thesis by (simp add: setPassword_def wp_with_id wp_with_body Some)
    next
      case (Inr pw)
      show ?thesis
        unfolding setPassword_def wp_with_id wp_with_body Some Inr option.case sum.case wp_attempt [where p = "HashPassword _ _"]
      proof (rule wp_mono [OF hash], goal_cases)
        case (1 h v1)
        show ?case
        proof (cases h)
          case (Inl e) with 1 show ?thesis by (simp add: wp_refuse Problem_error)
        next
          case (Inr enc)
          with 1 have v1: "w_db v1 = w_db v" "VerifyPassword E pw enc" "w_tick v1 = Suc (w_tick v)" by simp_all
          have ok: "db_ok (w_db v1)" using v1 assms(1) by simp
          show ?thesis
            unfolding Inr sum.case by (rule wp_mono [OF reset_spec [OF ok v1(2)]]) (auto simp: v1)
        qed
      qed
    qed
  qed
  then show ?thesis by (simp add: wp_def)
qed

definition reset_db :: db where
  "reset_db = admin_db\<lparr>sessions := [\<lparr>se_hash = ''sha256:a'', se_user = 1, se_csrf = ''c'', se_expires = 9, se_seen = 0, se_created = 0\<rparr>,
     \<lparr>se_hash = ''sha256:b'', se_user = 2, se_csrf = ''c'', se_expires = 9, se_seen = 0, se_created = 0\<rparr>]\<rparr>"

lemma reset_db_ok: "db_ok reset_db"
  by (simp add: reset_db_def admin_db_def db_ok_eval)

lemma sample_uuid_back: "e_uuid_parse sample_env (sample_uuid_string i) = Some i"
  using sample_uuid by (simp add: uuid_package_def sample_env_def)

lemma sample_reset:
  "wp (setPassword sample_env (\<lambda>_. Some ''correct horse battery'') (sample_uuid_string 1) None new_reply admin_request) (\<lambda>p _. rp_status p = 204)
     (sample_world reset_db)"
proof -
  have "wp (finish sample_env k ta de None new_reply admin_request) (\<lambda>p _. rp_status p = 204) v" for k ta de v
    by (rule wp_mono [OF finish_spec]) (simp add: no_content_def)
  then show ?thesis
    unfolding setPassword_def wp_with_id wp_with_body sample_uuid_back DecodeJSON_def option.case sum.case
    by (simp add: wp_attempt HashPassword_def step_simps set_password_hash_def affected_def local_user_def delete_sessions_of_def reset_db_def
        admin_db_def sample_db_def sample_user_def sample_world_def sample_env_def)
qed

theorem password_reset_ends_sessions_witness:
  "case run_state (setPassword sample_env (\<lambda>_. Some ''correct horse battery'') (sample_uuid_string 1) None new_reply admin_request) (sample_world reset_db) of
     (p, v1) \<Rightarrow> rp_status p = 204 \<and> password_set sample_env 1 ''correct horse battery'' reset_db (w_db v1) \<and> map se_user (sessions (w_db v1)) = [2]"
proof -
  have "db_ok (w_db (sample_world reset_db))" by (simp add: sample_world_def reset_db_ok)
  from password_reset_ends_sessions [OF this sample_random sample_argon, where dec = "\<lambda>_. Some ''correct horse battery''" and param = "sample_uuid_string 1"
      and sn = None and w = new_reply and r = admin_request]
  show ?thesis using sample_reset sample_uuid_back [of 1]
    by (auto simp: wp_def sessions_ended_def DecodeJSON_def sample_env_def sample_world_def reset_db_def split: prod.splits)
qed

end
