(* ===== verification/Config.thy ===== *)
theory Config
  imports Effects
begin

text \<open>
  \<open>internal/config/config.go\<close>: the configuration read from the process environment and its files, and
  what every configuration that is accepted satisfies.
\<close>

record config =
  cf_listen :: string
  cf_database :: string
  cf_app_origin :: string
  cf_proxy_domain :: string
  cf_ttl :: int
  cf_development :: bool
  cf_admin_username :: string
  cf_admin_password_file :: string
  cf_ldap_password_file :: string
  cf_ldap_ca_file :: string
  cf_ldap_allow_insecure :: bool
  cf_master_key :: string

text \<open>A variable that is blank counts as absent.\<close>

definition env_or :: "env \<Rightarrow> string \<Rightarrow> string \<Rightarrow> string" where
  "env_or E name fallback = (if TrimSpace (e_getenv E name) \<noteq> [] then TrimSpace (e_getenv E name) else fallback)"

definition twelve_hours :: int where
  "twelve_hours = 12 * 3600 * 1000000000"

definition read_config :: "env \<Rightarrow> config" where
  "read_config E = \<lparr>
     cf_listen = env_or E ''TVPN_LISTEN_ADDRESS'' '':8080'',
     cf_database = TrimSpace (e_getenv E ''TVPN_DATABASE_URL''),
     cf_app_origin = env_or E ''TVPN_APP_ORIGIN'' ''http://app.localhost:8080'',
     cf_proxy_domain = env_or E ''TVPN_PROXY_BASE_DOMAIN'' ''proxy.localhost:8080'',
     cf_ttl = twelve_hours,
     cf_development = (e_getenv E ''TVPN_ENV'' \<noteq> ''production''),
     cf_admin_username = TrimSpace (e_getenv E ''TVPN_BOOTSTRAP_ADMIN_USERNAME''),
     cf_admin_password_file = TrimSpace (e_getenv E ''TVPN_BOOTSTRAP_ADMIN_PASSWORD_FILE''),
     cf_ldap_password_file = TrimSpace (e_getenv E ''TVPN_LDAP_BIND_PASSWORD_FILE''),
     cf_ldap_ca_file = TrimSpace (e_getenv E ''TVPN_LDAP_CA_FILE''),
     cf_ldap_allow_insecure = (e_getenv E ''TVPN_LDAP_ALLOW_INSECURE'' = ''true''),
     cf_master_key = []\<rparr>"

definition load_key :: "env \<Rightarrow> config \<Rightarrow> string result prog" where
  "load_key E cfg = (let keyFile = TrimSpace (e_getenv E ''TVPN_MASTER_KEY_FILE'') in
     if keyFile = [] then
       (if \<not> cf_development cfg then State_Monad.return (Inl ''TVPN_MASTER_KEY_FILE is required in production'')
        else wrap_err (\<lambda>_. ''cannot generate development master key'') (random_bytes E 32))
     else ok_or (read_file E keyFile) (\<lambda>val. let key = TrimRight val [CHR 0x0D, CHR 0x0A] in
       State_Monad.return (if length key \<noteq> 32 then Inl ''TVPN_MASTER_KEY_FILE must contain exactly 32 bytes'' else Inr key)))"

definition Load :: "env \<Rightarrow> config result prog" where
  "Load E = (let cfg = read_config E in
     if cf_database cfg = [] then State_Monad.return (Inl ''TVPN_DATABASE_URL is required'')
     else if cf_admin_username cfg \<noteq> [] \<and> cf_admin_password_file cfg = []
     then State_Monad.return (Inl ''TVPN_BOOTSTRAP_ADMIN_PASSWORD_FILE is required when bootstrap admin is configured'')
     else if \<not> cf_development cfg \<and> cf_ldap_allow_insecure cfg
     then State_Monad.return (Inl ''TVPN_LDAP_ALLOW_INSECURE cannot be enabled in production'')
     else ok_or (load_key E cfg) (\<lambda>key. State_Monad.return (Inr (cfg\<lparr>cf_master_key := key\<rparr>))))"

section \<open>What is accepted\<close>

definition config_ok :: "config \<Rightarrow> bool" where
  "config_ok cfg \<longleftrightarrow> cf_database cfg \<noteq> [] \<and> length (cf_master_key cfg) = 32
     \<and> (cf_admin_username cfg = [] \<or> cf_admin_password_file cfg \<noteq> [])
     \<and> (cf_development cfg \<or> \<not> cf_ldap_allow_insecure cfg)"

lemma Load_spec:
  assumes "\<And>t n r. e_random E t n = Inr r \<Longrightarrow> length r = n"
  shows "wp (Load E) (\<lambda>r w'. w_db w' = w_db w \<and> w_trace w' = w_trace w \<and> (case r of Inl _ \<Rightarrow> True
     | Inr cfg \<Rightarrow> config_ok cfg \<and> (\<exists>key. cfg = read_config E\<lparr>cf_master_key := key\<rparr>))) w"
  using assms by (auto simp: Load_def load_key_def Let_def step_simps config_ok_def split: sum.split)

end
