(* ===== verification/Directory.thy ===== *)
theory Directory
  imports Auth_Store
begin

text \<open>
  What the login of a directory user and the bootstrap of the first administrator do to the tables:
  lemmas on \<open>UpsertLDAPUser\<close> and \<open>EnsureBootstrapAdmin\<close> of \<open>internal/auth/store.go\<close>.
\<close>

section \<open>Directory users\<close>

definition group_names :: "db \<Rightarrow> (uuid \<times> string) set" where
  "group_names d = set (map (\<lambda>g. (gr_id g, gr_dn g)) (ldap_groups d))"

definition member_dns :: "db \<Rightarrow> uuid \<Rightarrow> string set" where
  "member_dns d user = {dn. \<exists>i. (i, dn) \<in> group_names d \<and> (user, i) \<in> set (user_ldap_groups d)}"

definition others :: "uuid \<Rightarrow> db \<Rightarrow> (uuid \<times> uuid) list" where
  "others user d = filter (\<lambda>(u, _). u \<noteq> user) (user_ldap_groups d)"

lemma db_ok_groups:
  assumes "db_ok d"
  shows "distinct (map gr_id (ldap_groups d))" "(u, i) \<in> set (user_ldap_groups d) \<Longrightarrow> i \<in> gr_id ` set (ldap_groups d)"
  using assms by (auto simp: db_ok_def groups_ok_def refers_def list_all_iff)

lemma upsert_groupD:
  assumes "upsert_group i dn name t d = Inr (g, d')" and "db_ok d"
  shows "db_ok d' \<and> users d' = users d \<and> user_ldap_groups d' = user_ldap_groups d \<and> member_dns d' user = member_dns d user
    \<and> (g, dn) \<in> group_names d'"
proof (cases "find (\<lambda>g. gr_dn g = dn) (ldap_groups d)")
  case (Some row)
  then have row: "row \<in> set (ldap_groups d)" "gr_dn row = dn" using find_SomeD by fast+
  have d': "db_ok d'" "g = gr_id row" "users d' = users d" "user_ldap_groups d' = user_ldap_groups d"
      "ldap_groups d' = update_rows (\<lambda>g. gr_dn g = dn) (\<lambda>g. g\<lparr>gr_name := name, gr_seen := t\<rparr>) (ldap_groups d)"
    using assms(1) Some by (auto simp: upsert_group_def store_db_ok)
  have "group_names d' = group_names d" unfolding group_names_def d' by (subst map_update_rows) simp_all
  moreover have "(gr_id row, dn) \<in> group_names d" using row by (auto simp: group_names_def)
  ultimately show ?thesis using d' by (simp add: member_dns_def)
next
  case None
  then have d': "db_ok d'" "g = i" "users d' = users d" "user_ldap_groups d' = user_ldap_groups d"
      "ldap_groups d' = ldap_groups d @ [\<lparr>gr_id = i, gr_dn = dn, gr_name = name, gr_seen = t, gr_created = t\<rparr>]"
    using assms(1) by (auto simp: upsert_group_def store_db_ok)
  have "(user, i) \<notin> set (user_ldap_groups d)"
    using db_ok_groups(1) [OF d'(1)] db_ok_groups(2) [OF assms(2), of user i] by (auto simp: d')
  moreover have "group_names d' = insert (i, dn) (group_names d)" by (simp add: group_names_def d')
  ultimately show ?thesis using d' by (auto simp: member_dns_def)
qed

lemma insert_membershipD:
  assumes "insert_membership user g t d = Inr (x, d')" and "(g, dn) \<in> group_names d"
  shows "db_ok d' \<and> users d' = users d \<and> others user d' = others user d \<and> member_dns d' user = insert dn (member_dns d user)"
proof -
  have d': "db_ok d'" "users d' = users d" "ldap_groups d' = ldap_groups d" "user_ldap_groups d' = user_ldap_groups d @ [(user, g)]"
    using assms(1) by (auto simp: insert_membership_def store_db_ok)
  then have same: "group_names d' = group_names d" by (simp add: group_names_def)
  have "inj_on gr_id (set (ldap_groups d))" using db_ok_groups(1) [OF d'(1)] d' by (simp add: distinct_map)
  then have "(g, dn') \<in> group_names d \<longleftrightarrow> dn' = dn" for dn'
    using assms(2) by (auto simp: group_names_def dest: inj_onD)
  then have "member_dns d' user = insert dn (member_dns d user)"
    unfolding member_dns_def same d' by auto
  then show ?thesis using d' by (simp add: others_def)
qed

lemma save_groups_spec:
  "db_ok (w_db w) \<Longrightarrow> wp (save_groups E t user gs) (\<lambda>r w'. w_trace w' = w_trace w \<and> (case r of Inl _ \<Rightarrow> True
     | Inr _ \<Rightarrow> db_ok (w_db w') \<and> users (w_db w') = users (w_db w) \<and> others user (w_db w') = others user (w_db w)
         \<and> member_dns (w_db w') user = member_dns (w_db w) user \<union> fst ` set gs)) w"
proof (induction gs arbitrary: w)
  case Nil then show ?case by (simp add: step_simps)
next
  case (Cons g gs)
  have step: "wp (save_groups E t user gs) (\<lambda>r w'. w_trace w' = w_trace w \<and> (case r of Inl _ \<Rightarrow> True
     | Inr _ \<Rightarrow> db_ok (w_db w') \<and> users (w_db w') = users (w_db w) \<and> others user (w_db w') = others user (w_db w)
         \<and> member_dns (w_db w') user = member_dns (w_db w) user \<union> fst ` set (g # gs))) v"
    if up: "upsert_group i (fst g) (snd g) t (w_db w) = Inr (grp, d1)" and mem: "insert_membership user grp t d1 = Inr (x, d2)"
      and v: "w_db v = d2" "w_trace v = w_trace w" for i grp d1 x d2 v
  proof -
    note d1 = upsert_groupD [OF up Cons.prems, of user]
    note d2 = insert_membershipD [OF mem d1 [THEN conjunct2, THEN conjunct2, THEN conjunct2, THEN conjunct2]]
    show ?thesis
      by (rule wp_mono [OF Cons.IH]) (use d1 d2 v in \<open>auto simp: others_def split: sum.splits\<close>)
  qed
  show ?case using step by (auto simp: step_simps split: option.split sum.split)
qed

text \<open>The rights of the users: who is local, an administrator, disabled.\<close>

definition rights :: "db \<Rightarrow> user_row list \<times> uuid list \<times> uuid list" where
  "rights d = (filter (\<lambda>u. us_source u = ''local'') (users d), map us_id (filter us_admin (users d)),
     map us_id (filter (\<lambda>u. us_disabled u \<noteq> None) (users d)))"

definition directory_row :: "db \<Rightarrow> string \<Rightarrow> uuid \<Rightarrow> bool \<Rightarrow> bool" where
  "directory_row d name i admin \<longleftrightarrow>
     (i, name, ''ldap'', admin) \<in> set (map (\<lambda>u. (us_id u, us_normalized u, us_source u, us_admin u)) (users d))"

lemma rights_update:
  assumes "users d' = update_rows P f (users d)" and "\<And>u. u \<in> set (users d) \<Longrightarrow> P u \<Longrightarrow> us_source u \<noteq> ''local''"
    and "\<And>u. us_id (f u) = us_id u \<and> us_normalized (f u) = us_normalized u \<and> us_source (f u) = us_source u
          \<and> us_admin (f u) = us_admin u \<and> us_disabled (f u) = us_disabled u"
  shows "rights d' = rights d \<and> (directory_row d' name i admin \<longleftrightarrow> directory_row d name i admin)"
proof -
  have key: "map us_id (filter (\<lambda>u. Q (us_admin u) (us_disabled u)) (update_rows P f us)) = map us_id (filter (\<lambda>u. Q (us_admin u) (us_disabled u)) us)" for Q us
    by (induction us) (use assms(3) in \<open>auto simp: update_rows_def\<close>)
  have "filter (\<lambda>u. us_source u = ''local'') (update_rows P f us) = filter (\<lambda>u. us_source u = ''local'') us"
    if "set us \<subseteq> set (users d)" for us
    using that by (induction us) (use assms(2,3) in \<open>auto simp: update_rows_def\<close>)
  moreover have "directory_row d' name i admin \<longleftrightarrow> directory_row d name i admin"
    unfolding directory_row_def assms(1) by (subst map_update_rows) (simp_all add: assms(3))
  ultimately show ?thesis
    using key [of "\<lambda>a _. a" "users d"] key [of "\<lambda>_ b. b \<noteq> None" "users d"] by (simp add: rights_def assms(1))
qed

lemma upsert_ldap_userD:
  assumes "upsert_ldap_user i x t d = Inr ((user, admin), d')" and "db_ok d"
  shows "db_ok d' \<and> rights d' = rights d \<and> ldap_groups d' = ldap_groups d \<and> user_ldap_groups d' = user_ldap_groups d
    \<and> directory_row d' (normalizeUsername (uu_username x)) user admin"
proof (cases "find (\<lambda>u. us_normalized u = normalizeUsername (uu_username x)) (users d)")
  case None
  with assms(1) show ?thesis by (auto simp: upsert_ldap_user_def Let_def store_db_ok rights_def directory_row_def)
next
  case (Some u)
  let ?P = "\<lambda>u. us_normalized u = normalizeUsername (uu_username x)"
  have u: "u \<in> set (users d)" "?P u" using find_SomeD [OF Some] by auto
  have d': "db_ok d'" "us_source u = ''ldap''" "user = us_id u" "admin = us_admin u" "ldap_groups d' = ldap_groups d"
      "user_ldap_groups d' = user_ldap_groups d" "users d' = update_rows ?P (overwrite_user x t) (users d)"
    using assms(1) Some by (auto simp: upsert_ldap_user_def Let_def store_db_ok split: if_splits)
  have "v = u" if "v \<in> set (users d)" "?P v" for v
    using distinct_mapD [OF db_ok_user_keys(2) [OF assms(2)] that(1) u(1)] that(2) u(2) by simp
  then have "rights d' = rights d \<and> (directory_row d' (normalizeUsername (uu_username x)) user admin
      \<longleftrightarrow> directory_row d (normalizeUsername (uu_username x)) user admin)"
    by (intro rights_update [OF d'(7)]) (use d' in \<open>auto simp: overwrite_user_def\<close>)
  then show ?thesis using d' u by (auto simp: directory_row_def)
qed

lemma refers_filter: "refers (map f xs) ids \<Longrightarrow> refers (map f (filter P xs)) ids"
  by (auto simp: refers_def list_all_iff)

lemma clear_groupsD:
  assumes "clear_groups user t d = Inr (x, d')" and "db_ok d"
  shows "db_ok d' \<and> users d' = users d \<and> others user d' = others user d \<and> member_dns d' user = {}"
proof -
  have d': "d' = d\<lparr>user_ldap_groups := filter (\<lambda>(u, _). u \<noteq> user) (user_ldap_groups d)\<rparr>"
    using assms(1) by (auto simp: clear_groups_def delete_rows_def split_def)
  have "groups_ok d'" using assms(2) by (simp add: d' db_ok_def groups_ok_def refers_filter)
  then have "db_ok d'" using assms(2) by (simp add: d' db_ok_def users_ok_def policies_ok_def proxy_ok_def upstreams_ok_def)
  then show ?thesis by (auto simp: d' others_def member_dns_def)
qed

lemma touch_loginD:
  assumes "touch_login user t d = Inr (x, d')" and "db_ok d" and "directory_row d name user admin"
  shows "rights d' = rights d \<and> others user d' = others user d \<and> member_dns d' user = member_dns d user
    \<and> directory_row d' name user admin"
proof -
  have d': "d' = d\<lparr>users := update_rows (\<lambda>u. us_id u = user) (\<lambda>u. u\<lparr>us_last_login := Some t\<rparr>) (users d)\<rparr>"
    using assms(1) by (simp add: touch_login_def)
  obtain u where u: "u \<in> set (users d)" "us_id u = user" "us_source u = ''ldap''" using assms(3) by (auto simp: directory_row_def)
  have "v = u" if "v \<in> set (users d)" "us_id v = user" for v
    using distinct_mapD [OF db_ok_user_keys(1) [OF assms(2)] that(1) u(1)] that(2) u(2) by simp
  then have "rights d' = rights d \<and> (directory_row d' name user admin \<longleftrightarrow> directory_row d name user admin)"
    by (intro rights_update [where P = "\<lambda>u. us_id u = user" and f = "\<lambda>u. u\<lparr>us_last_login := Some t\<rparr>"])
      (use u(3) in \<open>auto simp: d'\<close>)
  then show ?thesis using assms(3) by (simp add: d' others_def member_dns_def group_names_def)
qed

definition directory_login :: "ldap_identity \<Rightarrow> db \<Rightarrow> user \<Rightarrow> db \<Rightarrow> bool" where
  "directory_login identity d x d' \<longleftrightarrow> rights d' = rights d \<and> others (uu_id x) d' = others (uu_id x) d
     \<and> member_dns d' (uu_id x) = fst ` set (li_groups identity)
     \<and> directory_row d' (normalizeUsername (TrimSpace (li_username identity))) (uu_id x) (uu_admin x)"

lemma others_same: "user_ldap_groups d' = user_ldap_groups d \<Longrightarrow> others u d' = others u d"
  by (simp add: others_def)

lemma UpsertLDAPUser_spec:
  assumes "db_ok (w_db w)"
  shows "wp (UpsertLDAPUser E identity) (\<lambda>r w'. w_trace w' = w_trace w \<and> (case r of
     Inl _ \<Rightarrow> w_db w' = w_db w | Inr x \<Rightarrow> directory_login identity (w_db w) x (w_db w'))) w"
proof -
  let ?x = "ldap_user identity"
  let ?Q = "\<lambda>r v'. w_trace v' = w_trace w \<and> (case r of Inl _ \<Rightarrow> True | Inr x \<Rightarrow> directory_login identity (w_db w) x (w_db v'))"
  have rest: "wp (ok_or (save_groups E t user (li_groups identity)) (\<lambda>_.
       ok_or (sql_at E t (touch_login user)) (\<lambda>_. State_Monad.return (Inr (?x\<lparr>uu_id := user, uu_admin := admin\<rparr>))))) ?Q v"
    if up: "upsert_ldap_user i ?x t (w_db w) = Inr ((user, admin), d1)" and cl: "clear_groups user t d1 = Inr (y, d2)"
      and v: "w_db v = d2" "w_trace v = w_trace w"
    for t i user admin d1 y d2 v
  proof -
    note d1 = upsert_ldap_userD [OF up assms]
    note d2 = clear_groupsD [OF cl conjunct1 [OF d1]]
    have rows: "directory_row d (normalizeUsername (uu_username ?x)) user admin \<and> rights d = rights (w_db w)" if "users d = users d2" for d
      using d1 d2 that by (simp add: directory_row_def rights_def)
    have ok: "db_ok (w_db v)" using d2 v by simp
    show ?thesis
    proof (rule wp_seq [OF save_groups_spec [OF ok, of E t user "li_groups identity"]], goal_cases)
      case (2 z v')
      then have f: "db_ok (w_db v')" "users (w_db v') = users d2" "others user (w_db v') = others user d2"
          "member_dns (w_db v') user = member_dns d2 user \<union> fst ` set (li_groups identity)" "w_trace v' = w_trace w"
        by (simp_all add: v)
      have r: "directory_row (w_db v') (normalizeUsername (uu_username ?x)) user admin" "rights (w_db v') = rights (w_db w)"
        using rows [OF f(2)] by blast+
      have o: "others user (w_db v') = others user (w_db w)" using f(3) d2 others_same [of d1 "w_db w" user] d1 by (simp only:)
      have m: "member_dns (w_db v') user = fst ` set (li_groups identity)" using f(4) d2 by simp
      have "directory_login identity (w_db w) (?x\<lparr>uu_id := user, uu_admin := admin\<rparr>) d'"
        if "touch_login user t (w_db v') = Inr (a, d')" for a d'
        using touch_loginD [OF that f(1) r(1)] r(2) o m by (simp add: directory_login_def) (simp add: ldap_user_def)
      then show ?case by (intro wp_sql_at_seq) (auto simp: step_simps f(5))
    qed (simp add: v)
  qed
  show ?thesis
    unfolding UpsertLDAPUser_def
  proof (rule wp_transaction_all_or_nothing)
    fix t and v :: world assume v: "w_db v = w_db w" "w_trace v = w_trace w"
    show "wp (do { i \<leftarrow> new_uuid E;
       ok_or (sql_at E t (upsert_ldap_user i ?x)) (\<lambda>(user, admin).
       ok_or (sql_at E t (clear_groups user)) (\<lambda>_.
       ok_or (save_groups E t user (li_groups identity)) (\<lambda>_.
       ok_or (sql_at E t (touch_login user)) (\<lambda>_.
       State_Monad.return (Inr (?x\<lparr>uu_id := user, uu_admin := admin\<rparr>))))))}) ?Q v"
      unfolding wp_bind wp_uuid
    proof (rule wp_sql_at_seq, goal_cases)
      case (1 p d1 v1)
      obtain user admin where p: "p = (user, admin)" by (cases p)
      show ?case unfolding p prod.case
        by (rule wp_sql_at_seq, rule rest) (use 1 v p in simp_all)
    qed (simp add: v)
  qed
qed

text \<open>
  C23: What a directory login can change. A user the directory accepted gets the row of that name only
  if it is a directory user's: no local account is touched, nobody becomes or ceases to be an
  administrator or disabled, nobody else's groups change, and his own groups are afterwards exactly
  those the directory reported. When anything fails, nothing has changed.
\<close>

theorem directory_login_contained:
  assumes "db_ok (w_db w)"
  shows "case run_state (UpsertLDAPUser E identity) w of
      (Inl _, w1) \<Rightarrow> w_db w1 = w_db w
    | (Inr x, w1) \<Rightarrow> rights (w_db w1) = rights (w_db w) \<and> others (uu_id x) (w_db w1) = others (uu_id x) (w_db w)
        \<and> member_dns (w_db w1) (uu_id x) = fst ` set (li_groups identity)
        \<and> directory_row (w_db w1) (normalizeUsername (TrimSpace (li_username identity))) (uu_id x) (uu_admin x)"
  using UpsertLDAPUser_spec [OF assms, of E identity] by (auto simp: wp_def directory_login_def split: prod.splits sum.splits)

definition carol :: ldap_identity where
  "carol = \<lparr>li_username = ''carol'', li_display = ''Carol'', li_email = [], li_groups = [(''cn=staff'', ''staff'')]\<rparr>"

lemma sample_directory_login: "is_ok (fst (run_state (UpsertLDAPUser sample_env carol) (sample_world sample_db)))"
  by (rule wp_fst [where P = is_ok]) (simp add: UpsertLDAPUser_def step_simps Let_def sample_env_def sample_world_def carol_def ldap_user_def
      upsert_ldap_user_def normalizeUsername_def str_eval clear_groups_def delete_rows_def upsert_group_def insert_membership_def touch_login_def
      store_db_def db_ok_eval)

theorem directory_login_contained_witness:
  "\<exists>x w1. run_state (UpsertLDAPUser sample_env carol) (sample_world sample_db) = (Inr x, w1)
     \<and> member_dns (w_db w1) (uu_id x) = {''cn=staff''}"
proof -
  have ok: "db_ok (w_db (sample_world sample_db))" by (simp add: sample_world_def sample_db_ok)
  obtain x w1 where r: "run_state (UpsertLDAPUser sample_env carol) (sample_world sample_db) = (Inr x, w1)"
    using is_ok_run [OF sample_directory_login] by blast
  from directory_login_contained [OF ok, where E = sample_env and identity = carol, unfolded r prod.case sum.case]
  have "member_dns (w_db w1) (uu_id x) = {''cn=staff''}" by (simp add: carol_def)
  with r show ?thesis by blast
qed

section \<open>The first administrator\<close>

text \<open>
  The administrator of the configuration is created once. When there is any user, the bootstrap
  changes nothing; when it creates one, it is a local administrator, and the only user.
\<close>

theorem bootstrap_only_when_empty:
  "case run_state (EnsureBootstrapAdmin E username password) w of
     (Inl _, w1) \<Rightarrow> w_db w1 = w_db w
   | (Inr _, w1) \<Rightarrow> w_db w1 = w_db w
       \<or> (users (w_db w) = [] \<and> (case users (w_db w1) of
            [u] \<Rightarrow> us_source u = ''local'' \<and> us_admin u \<and> us_disabled u = None \<and> us_normalized u = normalizeUsername (TrimSpace username)
          | _ \<Rightarrow> False))"
proof -
  have "wp (EnsureBootstrapAdmin E username password) (\<lambda>r w1. case r of Inl _ \<Rightarrow> w_db w1 = w_db w
   | Inr _ \<Rightarrow> w_db w1 = w_db w \<or> (users (w_db w) = [] \<and> (case users (w_db w1) of
            [u] \<Rightarrow> us_source u = ''local'' \<and> us_admin u \<and> us_disabled u = None \<and> us_normalized u = normalizeUsername (TrimSpace username)
          | _ \<Rightarrow> False))) w"
    by (auto simp: EnsureBootstrapAdmin_def CreateLocalUser_def HashPassword_def step_simps count_users_def read_rows_def Let_def
        insert_local_user_def store_db_ok split: option.split sum.split)
  then show ?thesis by (simp add: wp_def split: prod.splits sum.splits)
qed

end
