(* ===== verification/Server.thy ===== *)
theory Server
  imports Gateway Admin Config Directory
begin

text \<open>
  \<open>internal/server/server.go\<close>: how the parts are put together, which host a request is for, and which
  gates stand before each group of handlers. The router (\<open>go-chi/chi\<close>) decides which entry of a table of
  methods and patterns a request matches and the value of the path parameter; it is a parameter, and so
  are the embedded application, the MIME table and the JSON decoders.
\<close>

section \<open>Starting\<close>

record server =
  sr_auth :: auth_http
  sr_admin :: admin_http
  sr_proxy :: service
  sr_ldap :: ldap_service

text \<open>\<open>database.Open\<close> connects and migrates; it is the argument \<open>open\<close>.\<close>

definition start_admin :: "env \<Rightarrow> config \<Rightarrow> unit result prog" where
  "start_admin E cfg =
    (if cf_admin_username cfg = [] then State_Monad.return (Inr ())
     else ok_or (read_file E (cf_admin_password_file cfg)) (\<lambda>password.
       EnsureBootstrapAdmin E (cf_admin_username cfg) (TrimRight password [CHR 0x0D, CHR 0x0A])))"

definition ldap_of :: "config \<Rightarrow> ldap_service" where
  "ldap_of cfg = New (cf_ldap_password_file cfg) (cf_ldap_ca_file cfg) (cf_development cfg \<and> cf_ldap_allow_insecure cfg)"

definition assemble :: "env \<Rightarrow> config \<Rightarrow> service \<Rightarrow> server" where
  "assemble E cfg s = \<lparr>
     sr_auth = \<lparr>ah_ttl = cf_ttl cfg, ah_secure = (\<not> cf_development cfg), ah_ldap = Some (ldap_authenticate E (ldap_of cfg))\<rparr>,
     sr_admin = \<lparr>ad_cipher = sv_cipher s, ad_ldap = ldap_of cfg\<rparr>,
     sr_proxy = s,
     sr_ldap = ldap_of cfg\<rparr>"

definition NewServer :: "env \<Rightarrow> (string \<Rightarrow> unit result prog) \<Rightarrow> config \<Rightarrow> server result prog" where
  "NewServer E open_db cfg = ok_or (open_db (cf_database cfg)) (\<lambda>_.
     ok_or (start_admin E cfg) (\<lambda>_.
     State_Monad.return (case NewService (cf_app_origin cfg) (cf_proxy_domain cfg) (cf_master_key cfg) (\<not> cf_development cfg) (cf_ttl cfg) of
        Inl err \<Rightarrow> Inl err
      | Inr s \<Rightarrow> Inr (assemble E cfg s))))"

section \<open>Routing\<close>

datatype chosen = Chosen nat string | No_Route | Wrong_Method

record packages =
  pk_chi :: "string \<Rightarrow> (string \<times> string) list \<Rightarrow> request \<Rightarrow> chosen"
  pk_dist :: "string \<Rightarrow> string option"
  pk_mime :: "string \<Rightarrow> string"
  pk_html :: html_package
  pk_login :: "string \<Rightarrow> (string \<times> string) option"
  pk_token :: "string \<Rightarrow> (string \<times> string list \<times> int option) option"
  pk_context :: "string \<Rightarrow> (string \<times> uuid option \<times> bool) option"
  pk_url :: "string \<Rightarrow> string option"
  pk_admin :: admin_decoders
  pk_proxy :: proxy_decoders

text \<open>A router serves the entry it chose, or the not-found handler it shares with the router above it.\<close>

definition dispatch :: "packages \<Rightarrow> string \<Rightarrow> routes \<Rightarrow> handler \<Rightarrow> handler" where
  "dispatch K mount table not_found sn w r = (case pk_chi K mount (map (\<lambda>(m, p, _). (m, p)) table) r of
     Chosen i param \<Rightarrow> if i < length table then snd (snd (table ! i)) param sn w r else not_found sn w r
   | No_Route \<Rightarrow> not_found sn w r
   | Wrong_Method \<Rightarrow> State_Monad.return (write_header 405 w))"

definition TokenRoutes :: "env \<Rightarrow> packages \<Rightarrow> routes" where
  "TokenRoutes E K = [(''GET'', ''/'', \<lambda>_. listTokens E), (''POST'', ''/'', \<lambda>_. createToken E (pk_token K)),
     (''DELETE'', ''/{id}'', revokeToken E)]"

definition AppRoutes :: "env \<Rightarrow> packages \<Rightarrow> service \<Rightarrow> routes" where
  "AppRoutes E K s = [(''POST'', ''/'', \<lambda>_. createContext E s (pk_context K)), (''GET'', ''/{id}'', getContext E),
     (''POST'', ''/{id}/navigate'', navigate E s (pk_url K)), (''DELETE'', ''/{id}'', closeContext E)]"

section \<open>The application\<close>

text \<open>\<open>path.Clean\<close> and \<open>path.Ext\<close>.\<close>

fun clean_parts :: "bool \<Rightarrow> string list \<Rightarrow> string list \<Rightarrow> string list" where
  "clean_parts rooted out [] = rev out"
| "clean_parts rooted out (p # ps) =
    (if p = [] \<or> p = ''.'' then clean_parts rooted out ps
     else if p = ''..'' then
       (case out of
          [] \<Rightarrow> clean_parts rooted (if rooted then [] else [p]) ps
        | q # qs \<Rightarrow> clean_parts rooted (if q = ''..'' then p # out else qs) ps)
     else clean_parts rooted (p # out) ps)"

definition path_clean :: "string \<Rightarrow> string" where
  "path_clean p = (let rooted = HasPrefix p ''/'';
      out = (if rooted then ''/'' else []) @ Join (clean_parts rooted [] (Split p CHR ''/'')) ''/''
    in if out = [] then ''.'' else out)"

definition path_ext :: "string \<Rightarrow> string" where
  "path_ext p = (let name = rev (takeWhile (\<lambda>c. c \<noteq> CHR ''/'') (rev p)) in
     if CHR ''.'' \<in> set name then CHR ''.'' # rev (takeWhile (\<lambda>c. c \<noteq> CHR ''.'') (rev name)) else [])"

definition web_name :: "request \<Rightarrow> string" where
  "web_name r = (let name = TrimPrefix (path_clean (u_path (rq_url r))) ''/'' in if name = ''.'' \<or> name = [] then ''index.html'' else name)"

definition web_file :: "packages \<Rightarrow> string \<Rightarrow> (string \<times> string) option" where
  "web_file K name = (case pk_dist K (''dist/'' @ name) of
     Some content \<Rightarrow> Some (name, content)
   | None \<Rightarrow> map_option (\<lambda>content. (''index.html'', content)) (pk_dist K ''dist/index.html''))"

definition serveWeb :: "packages \<Rightarrow> reply \<Rightarrow> request \<Rightarrow> reply" where
  "serveWeb K w r = (case web_file K (web_name r) of
     None \<Rightarrow> Problem w r ErrWebUnavailable
   | Some (name, content) \<Rightarrow>
       (let contentType = pk_mime K (path_ext name);
            h = (if contentType \<noteq> [] then hSet ''Content-Type'' contentType (rp_header w) else rp_header w)
        in w\<lparr>rp_header := hSet ''Cache-Control''
               (if HasPrefix name ''assets/'' then ''public, max-age=31536000, immutable'' else ''no-store'') h,
             rp_body := Bytes content\<rparr>))"

definition writeJSON :: "reply \<Rightarrow> nat \<Rightarrow> json \<Rightarrow> reply" where
  "writeJSON w status val = w\<lparr>rp_header := hSet ''Content-Type'' ''application/json'' (rp_header w), rp_status := status, rp_body := Json val\<rparr>"

definition health_live :: handler where
  "health_live sn w r = State_Monad.return (writeJSON w 200 (JObj [(''status'', JStr ''ok'')]))"

definition health_ready :: "env \<Rightarrow> handler" where
  "health_ready E sn w r = attempt (sql E (read_rows (\<lambda>_ _. ())))
     (\<lambda>_. State_Monad.return (writeJSON w 503 (JObj [(''status'', JStr ''unavailable'')])))
     (\<lambda>_. State_Monad.return (writeJSON w 200 (JObj [(''status'', JStr ''ready'')])))"

definition not_found :: "packages \<Rightarrow> handler" where
  "not_found K sn w r = State_Monad.return
     (if HasPrefix (u_path (rq_url r)) ''/api/'' then Problem w r ErrNotFound else serveWeb K w r)"

section \<open>The gates\<close>

definition admin_gates :: "handler \<Rightarrow> handler" where
  "admin_gates k = RequireAdmin (RequireScope ScopeAdmin (RequireCSRF k))"

definition context_gates :: "handler \<Rightarrow> handler" where
  "context_gates k = RequireScope ScopeProxy (RequireCSRF k)"

definition browser_gates :: "handler \<Rightarrow> handler" where
  "browser_gates k = RequireBrowserSession (RequireCSRF k)"

definition auth_api :: "env \<Rightarrow> packages \<Rightarrow> server \<Rightarrow> handler" where
  "auth_api E K sr = dispatch K ''/api/v1/auth'' [
     (''POST'', ''/login'', \<lambda>_. Login E (sr_auth sr) (pk_login K)),
     (''GET'', ''/session'', \<lambda>_. Authenticate E (sr_auth sr) (Session E)),
     (''POST'', ''/logout'', \<lambda>_. Authenticate E (sr_auth sr) (browser_gates (Logout E (sr_auth sr)))),
     (''*'', ''/tokens'', \<lambda>_. Authenticate E (sr_auth sr) (browser_gates
        (dispatch K ''/api/v1/auth/tokens'' (TokenRoutes E K) (not_found K))))] (not_found K)"

definition admin_api :: "env \<Rightarrow> packages \<Rightarrow> server \<Rightarrow> handler" where
  "admin_api E K sr = Authenticate E (sr_auth sr) (admin_gates
     (dispatch K ''/api/v1/admin'' (admin_routes E (sr_admin sr) (pk_admin K)) (not_found K)))"

definition contexts_api :: "env \<Rightarrow> packages \<Rightarrow> server \<Rightarrow> handler" where
  "contexts_api E K sr = Authenticate E (sr_auth sr) (context_gates
     (dispatch K ''/api/v1/proxy/contexts'' (AppRoutes E K (sr_proxy sr)) (not_found K)))"

definition upstreams_api :: "env \<Rightarrow> packages \<Rightarrow> server \<Rightarrow> handler" where
  "upstreams_api E K sr = Authenticate E (sr_auth sr) (RequireScope ScopeProxy
     (dispatch K ''/api/v1/proxy/upstreams'' [(''GET'', ''/'', \<lambda>_. AvailableUpstreams E)] (not_found K)))"

definition server_routes :: "env \<Rightarrow> packages \<Rightarrow> server \<Rightarrow> handler" where
  "server_routes E K sr = dispatch K [] [
     (''*'', ''/api/v1/auth'', \<lambda>_. auth_api E K sr),
     (''*'', ''/api/v1/admin'', \<lambda>_. admin_api E K sr),
     (''*'', ''/api/v1/proxy/contexts'', \<lambda>_. contexts_api E K sr),
     (''*'', ''/api/v1/proxy/upstreams'', \<lambda>_. upstreams_api E K sr),
     (''GET'', ''/health/live'', \<lambda>_. health_live),
     (''GET'', ''/health/ready'', \<lambda>_. health_ready E)] (not_found K)"

section \<open>Hosts\<close>

datatype requestHostKind = unknownHost | appHostKind | proxyHostKind

definition serverHostname :: "string \<Rightarrow> string" where
  "serverHostname val = (case SplitHostPort val of Some (host, _) \<Rightarrow> host | None \<Rightarrow> TrimSuffix val ''.'')"

definition isProxyHost :: "string \<Rightarrow> string \<Rightarrow> bool" where
  "isProxyHost host proxyHost \<longleftrightarrow> host = proxyHost \<or> HasSuffix host (''.'' @ proxyHost)"

definition classifyRequestHost :: "string \<Rightarrow> string \<Rightarrow> string \<Rightarrow> requestHostKind" where
  "classifyRequestHost host configuredAppHost configuredProxyHost =
    (if host = configuredAppHost then appHostKind
     else if isProxyHost host configuredProxyHost then proxyHostKind
     else unknownHost)"

text \<open>The server of a configuration whose origin does not parse would not have started; its handler panics.\<close>

definition Handler :: "env \<Rightarrow> packages \<Rightarrow> config \<Rightarrow> server \<Rightarrow> (reply \<Rightarrow> request \<Rightarrow> reply prog) option" where
  "Handler E K cfg sr = map_option (\<lambda>app w r.
     if HasPrefix (u_path (rq_url r)) ''/health/'' then server_routes E K sr None w r
     else (case classifyRequestHost (ToLower (serverHostname (rq_host r))) (ToLower (Hostname app)) (ToLower (serverHostname (cf_proxy_domain cfg))) of
         appHostKind \<Rightarrow> server_routes E K sr None w r
       | proxyHostKind \<Rightarrow> ServeHTTP E (pk_html K) (pk_proxy K) (sr_proxy sr) w r
       | unknownHost \<Rightarrow> refuse w r ErrMisdirectedRequest)) (url_parse (cf_app_origin cfg))"

section \<open>What a started server is\<close>

lemma NewServer_result:
  assumes "fst (run_state (NewServer E open_db cfg) w) = Inr sr"
  shows "\<exists>s. NewService (cf_app_origin cfg) (cf_proxy_domain cfg) (cf_master_key cfg) (\<not> cf_development cfg) (cf_ttl cfg) = Inr s
     \<and> sr = assemble E cfg s"
proof -
  have "wp (NewServer E open_db cfg) (\<lambda>r _. case r of Inl _ \<Rightarrow> True | Inr sr \<Rightarrow>
      \<exists>s. NewService (cf_app_origin cfg) (cf_proxy_domain cfg) (cf_master_key cfg) (\<not> cf_development cfg) (cf_ttl cfg) = Inr s \<and> sr = assemble E cfg s) w"
    unfolding NewServer_def wp_ok_or
    by (auto simp: wp_return intro!: wp_any [where p = "open_db x" for x] wp_any [where p = "start_admin E c" for c] split: sum.split)
  then show ?thesis using assms by (simp add: wp_run)
qed

lemma NewServiceD:
  assumes "NewService origin domain key secure ttl = Inr s"
  shows "\<exists>app. url_parse origin = Some app \<and> sv_guard s = \<lparr>g_appHost = ToLower (Hostname app), g_proxyDomain = ToLower (stripPort domain)\<rparr>
     \<and> sv_secure s = secure \<and> sv_domain s = domain \<and> length key = 32"
  using assms by (auto simp: NewService_def NewGuard_def NewCipher_def Let_def split: option.splits sum.splits if_splits)

lemma serverHostname_stripPort: "serverHostname = stripPort"
  by (simp add: fun_eq_iff serverHostname_def stripPort_def)

text \<open>
  C9: A server that started is safe to run. From a configuration that \<open>Load\<close> accepted: its handler does
  not panic on the application's origin; outside development its cookies are secure and the directory is
  never asked without TLS; and the hosts it answers itself are exactly the hosts its guard refuses as
  targets, so that no user reaches the control plane through the proxy.
\<close>

theorem started_server:
  assumes "run_state (Load E) w = (Inr cfg, w1)" and "fst (run_state (NewServer E open_db cfg) w1) = Inr sr"
    and "random_lengths E"
  shows "Handler E K cfg sr \<noteq> None
    \<and> (cf_development cfg \<or> ah_secure (sr_auth sr) \<and> sv_secure (sr_proxy sr) \<and> \<not> ld_allow_insecure (sr_ldap sr) \<and> \<not> ld_allow_insecure (ad_ldap (sr_admin sr)))
    \<and> (\<exists>app. url_parse (cf_app_origin cfg) = Some app \<and> (\<forall>host. is_control_plane (sv_guard (sr_proxy sr)) host
         \<longleftrightarrow> classifyRequestHost host (ToLower (Hostname app)) (ToLower (serverHostname (cf_proxy_domain cfg))) \<noteq> unknownHost))"
proof -
  have "config_ok cfg" using Load_spec [of E w] assms(1,3) by (simp add: wp_def random_lengths_def)
  obtain s where s: "NewService (cf_app_origin cfg) (cf_proxy_domain cfg) (cf_master_key cfg) (\<not> cf_development cfg) (cf_ttl cfg) = Inr s"
      "sr = assemble E cfg s" using NewServer_result [OF assms(2)] by blast
  from NewServiceD [OF s(1)] show ?thesis
    using \<open>config_ok cfg\<close>
    by (auto simp: Handler_def s(2) assemble_def ldap_of_def New_def config_ok_def is_control_plane_def classifyRequestHost_def
        isProxyHost_def serverHostname_stripPort)
qed

definition boot_env :: env where
  "boot_env = sample_env\<lparr>e_getenv := \<lambda>name. if name = ''TVPN_DATABASE_URL'' then ''postgres://db'' else []\<rparr>"

lemma boot_load: "\<exists>cfg w1. run_state (Load boot_env) (sample_world sample_db) = (Inr cfg, w1)"
proof -
  have "wp (Load boot_env) (\<lambda>r _. is_ok r) (sample_world sample_db)"
    by (simp add: Load_def load_key_def Let_def step_simps read_config_def env_or_def boot_env_def sample_env_def str_eval)
  then show ?thesis by (auto simp: wp_def is_ok_iff split: prod.splits)
qed

lemma boot_config: "cf_app_origin (read_config boot_env) = ''http://app.localhost:8080'' \<and> cf_proxy_domain (read_config boot_env) = ''proxy.localhost:8080''
   \<and> cf_admin_username (read_config boot_env) = []"
  by (simp add: read_config_def env_or_def boot_env_def str_eval)

lemma boot_server:
  "\<exists>cfg w1 sr w2. run_state (Load boot_env) (sample_world sample_db) = (Inr cfg, w1)
    \<and> run_state (NewServer boot_env (\<lambda>_. State_Monad.return (Inr ())) cfg) w = (Inr sr, w2) \<and> w_db w2 = w_db w
    \<and> (\<forall>K. Handler boot_env K cfg sr \<noteq> None)"
proof -
  obtain cfg w1 where l: "run_state (Load boot_env) (sample_world sample_db) = (Inr cfg, w1)" using boot_load by blast
  have "random_lengths boot_env" using sample_random by (simp add: random_lengths_def boot_env_def)
  with Load_spec [of boot_env "sample_world sample_db"] l have cfg: "config_ok cfg" "\<exists>key. cfg = read_config boot_env\<lparr>cf_master_key := key\<rparr>"
    by (simp_all add: wp_def random_lengths_def)
  then have o: "cf_app_origin cfg = ''http://app.localhost:8080''" "cf_proxy_domain cfg = ''proxy.localhost:8080''" "cf_admin_username cfg = []"
      "length (cf_master_key cfg) = 32"
    using boot_config by (auto simp: config_ok_def)
  have u: "url_parse ''http://app.localhost:8080'' \<noteq> None" by code_simp
  have "\<exists>s. NewService (cf_app_origin cfg) (cf_proxy_domain cfg) (cf_master_key cfg) secure ttl = Inr s" for secure ttl
  proof -
    have "is_ok (NewGuard ''http://app.localhost:8080'' ''proxy.localhost:8080'')" by code_simp
    with u show ?thesis by (auto simp: NewService_def o NewCipher_def is_ok_iff)
  qed
  then obtain s where s: "NewService (cf_app_origin cfg) (cf_proxy_domain cfg) (cf_master_key cfg) (\<not> cf_development cfg) (cf_ttl cfg) = Inr s" by blast
  have "wp (NewServer boot_env (\<lambda>_. State_Monad.return (Inr ())) cfg) (\<lambda>r w'. r = Inr (assemble boot_env cfg s) \<and> w_db w' = w_db w) w"
    by (simp add: NewServer_def start_admin_def o(3) step_simps s)
  then obtain w2 where n: "run_state (NewServer boot_env (\<lambda>_. State_Monad.return (Inr ())) cfg) w = (Inr (assemble boot_env cfg s), w2)"
      "w_db w2 = w_db w" by (auto simp: wp_def split: prod.splits)
  have "Handler boot_env K cfg (assemble boot_env cfg s) \<noteq> None" for K using u by (simp add: Handler_def o(1))
  with l n show ?thesis by blast
qed

theorem started_server_witness:
  "\<exists>cfg w1 sr. run_state (Load boot_env) (sample_world sample_db) = (Inr cfg, w1)
    \<and> fst (run_state (NewServer boot_env (\<lambda>_. State_Monad.return (Inr ())) cfg) w1) = Inr sr \<and> (\<forall>K. Handler boot_env K cfg sr \<noteq> None)"
proof -
  obtain cfg w1 where l: "run_state (Load boot_env) (sample_world sample_db) = (Inr cfg, w1)" using boot_load by blast
  with boot_server [of w1] obtain sr w2 where n: "run_state (NewServer boot_env (\<lambda>_. State_Monad.return (Inr ())) cfg) w1 = (Inr sr, w2)" by auto
  have "random_lengths boot_env" using sample_random by (simp add: random_lengths_def boot_env_def)
  from started_server [OF l _ this] l n show ?thesis by (metis fst_conv)
qed

section \<open>Who gets to the handlers\<close>

definition admin_pass :: "session option \<Rightarrow> request \<Rightarrow> bool" where
  "admin_pass sn r \<longleftrightarrow> is_admin sn r \<and> has_scope ScopeAdmin sn r \<and> csrf_ok sn r"

definition context_pass :: "session option \<Rightarrow> request \<Rightarrow> bool" where
  "context_pass sn r \<longleftrightarrow> has_scope ScopeProxy sn r \<and> csrf_ok sn r"

definition browser_pass :: "session option \<Rightarrow> request \<Rightarrow> bool" where
  "browser_pass sn r \<longleftrightarrow> from_browser sn r \<and> csrf_ok sn r"

interpretation admin_gate: two_gates RequireAdmin is_admin "\<lambda>_ w r. Problem w r ErrAdminRequired"
    "\<lambda>k. RequireScope ScopeAdmin (RequireCSRF k)" "\<lambda>s r. has_scope ScopeAdmin s r \<and> csrf_ok s r"
    "\<lambda>s w r. if has_scope ScopeAdmin s r then Problem w r ErrCSRFFailed else Problem w r (if s = None then ErrUnauthorized else ErrScopeRequired)"
  by (intro two_gates.intro admin.gate_axioms scope_csrf.both)

lemma gates_open: "pass = admin_pass \<and> g = admin_gates \<or> pass = context_pass \<and> g = context_gates \<or> pass = browser_pass \<and> g = browser_gates \<Longrightarrow>
    \<exists>reject. gate g pass reject"
  using admin_gate.both scope_csrf.both [of ScopeProxy] browser_csrf.both
  unfolding admin_gates_def [abs_def] context_gates_def [abs_def] browser_gates_def [abs_def]
    admin_pass_def [abs_def] context_pass_def [abs_def] browser_pass_def [abs_def]
  by (elim disjE conjE; simp; blast)

lemma guarded_refuses:
  assumes "gate g pass reject" and "db_ok (w_db v)" and "\<And>x. credentials E h v r x \<Longrightarrow> \<not> pass (Some x) r"
  shows "wp (Authenticate E h (g k) sn w r) (\<lambda>p v'. turned_away v v' p) v"
proof (rule wp_Authenticate [OF assms(2)], goal_cases)
  case (1 x u)
  then have "\<not> pass (Some x) r" using assms(3) by blast
  then have "rp_status (reject (Some x) w r) \<in> {401, 403}" by (rule gate.refusal [OF assms(1)])
  then show ?case using 1 \<open>\<not> pass (Some x) r\<close> by (auto simp: gate.wp_gate [OF assms(1)] turned_away_def outgoing_def)
next
  case (2 c u)
  then show ?case by (intro Problem_turns_away) (auto simp: outgoing_def)
qed

text \<open>
  C8: Nobody gets past the gates of the API. A request whose credentials do not name an administrator
  with the right scope and a valid CSRF token reaches no administrative handler, whatever the router
  decides; without the proxy scope (and CSRF token) it opens, navigates or closes no context; and
  program tokens cannot manage program tokens. It is answered with an error, nothing is stored except
  the time the credentials were last used, and nothing leaves the process.
\<close>

theorem api_guarded:
  assumes "db_ok (w_db v)"
  shows "((\<forall>x. credentials E (sr_auth sr) v r x \<longrightarrow> \<not> admin_pass (Some x) r) \<longrightarrow> wp (admin_api E K sr sn w r) (\<lambda>p v'. turned_away v v' p) v)
    \<and> ((\<forall>x. credentials E (sr_auth sr) v r x \<longrightarrow> \<not> context_pass (Some x) r) \<longrightarrow> wp (contexts_api E K sr sn w r) (\<lambda>p v'. turned_away v v' p) v)
    \<and> ((\<forall>x. credentials E (sr_auth sr) v r x \<longrightarrow> \<not> browser_pass (Some x) r) \<longrightarrow>
         wp (Authenticate E (sr_auth sr) (browser_gates (dispatch K ''/api/v1/auth/tokens'' (TokenRoutes E K) (not_found K))) sn w r)
           (\<lambda>p v'. turned_away v v' p) v)"
proof -
  obtain r1 r2 r3 where g: "gate admin_gates admin_pass r1" "gate context_gates context_pass r2" "gate browser_gates browser_pass r3"
    using gates_open by metis
  show ?thesis
    unfolding admin_api_def contexts_api_def
    using guarded_refuses [OF g(1) assms] guarded_refuses [OF g(2) assms] guarded_refuses [OF g(3) assms] by blast
qed

definition bare_request :: request where
  "bare_request = \<lparr>rq_method = ''GET'', rq_url = empty_url, rq_host = ''app.example.org'', rq_header = (\<lambda>_. None), rq_body = []\<rparr>"

lemma bare_credentials: "\<not> credentials E h v bare_request x"
  by (simp add: credentials_def bare_request_def Get_def Values_def bearerToken_def Fields_def fields_aux.simps rCookie_def
      read_cookies_def List.map_filter_def)

theorem api_guarded_witness:
  "\<forall>K sr. wp (admin_api sample_env K sr None new_reply bare_request) (\<lambda>p v'. turned_away (sample_world sample_db) v' p) (sample_world sample_db)"
proof (intro allI)
  fix K sr
  have "db_ok (w_db (sample_world sample_db))" by (simp add: sample_world_def sample_db_ok)
  from api_guarded [OF this, of sample_env sr bare_request K None new_reply]
  show "wp (admin_api sample_env K sr None new_reply bare_request) (\<lambda>p v'. turned_away (sample_world sample_db) v' p) (sample_world sample_db)"
    using bare_credentials by blast
qed

text \<open>A path below \<open>/health/\<close> is the server's on every host: the target's own such paths are never forwarded.\<close>

lemma health_shadows_targets:
  "Handler E K cfg sr = Some serve \<Longrightarrow> HasPrefix (u_path (rq_url r)) ''/health/'' \<Longrightarrow> serve w r = server_routes E K sr None w r"
  by (auto simp: Handler_def)

end
