(* ===== verification/Writes.thy ===== *)
theory Writes
  imports Server
begin

text \<open>
  Everything the program writes, as one step relation on the database: a rule for each statement that
  changes a table, with what the program has checked of its values before. Every handler, up to the
  handler of the whole server, and the start of the server only take such steps, whatever the environment
  answers and wherever an error cuts it short. What holds after every step thus holds whatever requests
  run, in any order and interleaving.
\<close>

section \<open>The steps\<close>

text \<open>What is stored of a secret: a sealed value, a digest, the hash of a password.\<close>

definition sealed_value :: "env \<Rightarrow> cipher \<Rightarrow> string \<Rightarrow> string \<Rightarrow> bool" where
  "sealed_value E c aad v \<longleftrightarrow> (\<exists>nonce plain. v = nonce @ e_seal E c nonce plain aad)"

definition digest :: "env \<Rightarrow> string \<Rightarrow> bool" where
  "digest E v \<longleftrightarrow> (\<exists>token. v = e_sha256 E (RawURL_Encode token) \<or> v = e_sha256 E (token_prefix @ RawURL_Encode token))"

definition password_hash :: "env \<Rightarrow> string \<Rightarrow> bool" where
  "password_hash E v \<longleftrightarrow> (\<exists>password salt. 12 \<le> length password
     \<and> v = phc_string salt (e_argon2 E password salt argonIterations argonMemory argonParallelism argonKeyLength))"

definition known_scopes :: "string list \<Rightarrow> bool" where
  "known_scopes scopes \<longleftrightarrow> scopes \<noteq> [] \<and> distinct scopes \<and> set scopes \<subseteq> {ScopeProxy, ScopeAdmin}"

definition short_name :: "string \<Rightarrow> bool" where
  "short_name name \<longleftrightarrow> name \<noteq> [] \<and> length name \<le> 100"

inductive db_write :: "env \<Rightarrow> cipher \<Rightarrow> db \<Rightarrow> db \<Rightarrow> bool" for E c where
  Insert_Context: "insert_context i u url up m t d = Inr (x, d') \<Longrightarrow> db_write E c d d'"
| Insert_Ticket: "digest E h \<Longrightarrow> insert_ticket h u i t d = Inr (x, d') \<Longrightarrow> db_write E c d d'"
| Insert_Route: "insert_route i j sc ho po t d = Inr (y, d') \<Longrightarrow> db_write E c d d'"
| Use_Ticket: "use_ticket h t d = Inr (z, d') \<Longrightarrow> db_write E c d d'"
| Insert_Proxy_Session: "digest E h \<Longrightarrow> insert_proxy_session h u ex t d = Inr (x, d') \<Longrightarrow> db_write E c d d'"
| Close_Context: "close_context i u t d = Inr (n, d') \<Longrightarrow> db_write E c d d'"
| Update_Current_URL: "update_current_url i url t d = Inr (x, d') \<Longrightarrow> db_write E c d d'"
| Upsert_LDAP_User: "upsert_ldap_user i usr t d = Inr (r, d') \<Longrightarrow> db_write E c d d'"
| Clear_Groups: "clear_groups u t d = Inr (x, d') \<Longrightarrow> db_write E c d d'"
| Upsert_Group: "upsert_group i dn nm t d = Inr (y, d') \<Longrightarrow> db_write E c d d'"
| Insert_Membership: "insert_membership u g t d = Inr (x, d') \<Longrightarrow> db_write E c d d'"
| Touch_Login: "touch_login u t d = Inr (x, d') \<Longrightarrow> db_write E c d d'"
| Insert_Local_User: "password_hash E (uu_hash usr) \<Longrightarrow> uu_username usr \<noteq> [] \<Longrightarrow>
    insert_local_user usr t d = Inr (x, d') \<Longrightarrow> db_write E c d d'"
| Insert_Session: "digest E h \<Longrightarrow> insert_session h u csrf ex t d = Inr (x, d') \<Longrightarrow> db_write E c d d'"
| Touch_Session: "touch_session h t d = Inr (x, d') \<Longrightarrow> db_write E c d d'"
| Delete_Session: "delete_session h t d = Inr (x, d') \<Longrightarrow> db_write E c d d'"
| Insert_Audit: "insert_audit a k oc ta de t d = Inr (x, d') \<Longrightarrow> db_write E c d d'"
| Insert_Token: "digest E h \<Longrightarrow> known_scopes (pg_scopes tok) \<Longrightarrow> short_name (pg_name tok) \<Longrightarrow>
    insert_token h u tok t d = Inr (x, d') \<Longrightarrow> db_write E c d d'"
| Revoke_Token: "revoke_token u i t d = Inr (n, d') \<Longrightarrow> db_write E c d d'"
| Touch_Token: "touch_token h t d = Inr (x, d') \<Longrightarrow> db_write E c d d'"
| Insert_Upstream: "normalizeUpstreamInput given = Inr inp \<Longrightarrow> (\<And>s. pw = Some s \<Longrightarrow> sealed_value E c (upstreamAAD E i) s) \<Longrightarrow>
    insert_upstream i inp pw t d = Inr (x, d') \<Longrightarrow> db_write E c d d'"
| Update_Upstream: "normalizeUpstreamInput given = Inr inp \<Longrightarrow> (\<And>s. pw = Some s \<Longrightarrow> sealed_value E c (upstreamAAD E i) s) \<Longrightarrow>
    update_upstream i inp pw t d = Inr (n, d') \<Longrightarrow> db_write E c d d'"
| Delete_Contexts_Of: "delete_contexts_of i t d = Inr (x, d') \<Longrightarrow> db_write E c d d'"
| Delete_Upstream: "delete_upstream i t d = Inr (n, d') \<Longrightarrow> db_write E c d d'"
| Set_Restricted: "set_restricted b t d = Inr (x, d') \<Longrightarrow> db_write E c d d'"
| Delete_Cookie: "delete_cookie i nm dmn pa t d = Inr (x, d') \<Longrightarrow> db_write E c d d'"
| Upsert_Cookie: "sealed_value E c (cookieAAD E (co_context row) (co_name row) (co_domain row) (co_path row)) (co_value row) \<Longrightarrow>
    upsert_cookie row t d = Inr (x, d') \<Longrightarrow> db_write E c d d'"
| Update_Settings: "check_settings v = Inr x \<Longrightarrow> update_settings v t d = Inr (x, d') \<Longrightarrow> db_write E c d d'"
| Delete_Pairs: "delete_pairs tab col i t d = Inr (x, d') \<Longrightarrow> db_write E c d d'"
| Insert_Pair: "insert_pair tab col oth i j t d = Inr (x, d') \<Longrightarrow> db_write E c d d'"
| Clear_Direct: "clear_direct tab t d = Inr (x, d') \<Longrightarrow> db_write E c d d'"
| Insert_Direct: "insert_direct tab col i t d = Inr (x, d') \<Longrightarrow> db_write E c d d'"
| Insert_Policy: "pi_name pol \<noteq> [] \<Longrightarrow> insert_policy i pol t d = Inr (x, d') \<Longrightarrow> db_write E c d d'"
| Update_Policy_Row: "pi_name pol \<noteq> [] \<Longrightarrow> update_policy_row i pol t d = Inr (n, d') \<Longrightarrow> db_write E c d d'"
| Delete_Rules: "delete_rules i t d = Inr (x, d') \<Longrightarrow> db_write E c d d'"
| Insert_Rule: "ValidateRule kd raw = Inr val \<Longrightarrow> insert_rule i j kd val t d = Inr (x, d') \<Longrightarrow> db_write E c d d'"
| Delete_Policy: "delete_policy i t d = Inr (x, d') \<Longrightarrow> db_write E c d d'"
| Update_User: "update_user i ch t d = Inr (x, d') \<Longrightarrow> db_write E c d d'"
| Set_Password_Hash: "password_hash E h \<Longrightarrow> set_password_hash i h t d = Inr (n, d') \<Longrightarrow> db_write E c d d'"
| Delete_Sessions_Of: "delete_sessions_of i t d = Inr (x, d') \<Longrightarrow> db_write E c d d'"

inductive_cases db_writeE: "db_write E c d d'"

text \<open>The world's database is one that the given one has become by such steps.\<close>

abbreviation written :: "env \<Rightarrow> cipher \<Rightarrow> db \<Rightarrow> world \<Rightarrow> bool" where
  "written E c d0 \<equiv> on_db ((db_write E c)\<^sup>*\<^sup>* d0)"

section \<open>Statements\<close>

lemma statement_written: "(\<And>t d x d'. st t d = Inr (x, d') \<Longrightarrow> db_write E c d d') \<Longrightarrow> statement_keeps ((db_write E c)\<^sup>*\<^sup>* d0) st"
  unfolding statement_keeps_def by (meson rtranclp.rtrancl_into_rtrancl)

lemma writes_proxy [keeps_intro]:
  fixes d0 E c defines "K \<equiv> (db_write E c)\<^sup>*\<^sup>* d0"
  shows "statement_keeps K (insert_context i u url up m)" "digest E h \<Longrightarrow> statement_keeps K (insert_ticket h u i)"
    "statement_keeps K (insert_route i j sc ho po)" "statement_keeps K (use_ticket h)"
    "digest E h \<Longrightarrow> statement_keeps K (insert_proxy_session h u ex)" "statement_keeps K (close_context i u)"
    "statement_keeps K (update_current_url i url)" "statement_keeps K (delete_cookie i nm dmn pa)"
    "sealed_value E c (cookieAAD E (co_context row) (co_name row) (co_domain row) (co_path row)) (co_value row) \<Longrightarrow>
       statement_keeps K (upsert_cookie row)"
  unfolding K_def by (rule statement_written, rule db_write.intros; assumption)+

lemma writes_auth [keeps_intro]:
  fixes d0 E c defines "K \<equiv> (db_write E c)\<^sup>*\<^sup>* d0"
  shows "statement_keeps K (upsert_ldap_user i usr)" "statement_keeps K (clear_groups u)" "statement_keeps K (upsert_group i dn nm)"
    "statement_keeps K (insert_membership u g)" "statement_keeps K (touch_login u)"
    "password_hash E (uu_hash usr) \<Longrightarrow> uu_username usr \<noteq> [] \<Longrightarrow> statement_keeps K (insert_local_user usr)"
    "digest E h \<Longrightarrow> statement_keeps K (insert_session h u csrf ex)" "statement_keeps K (touch_session h)"
    "statement_keeps K (delete_session h)" "statement_keeps K (insert_audit a k oc ta de)"
    "digest E h \<Longrightarrow> known_scopes (pg_scopes tok) \<Longrightarrow> short_name (pg_name tok) \<Longrightarrow> statement_keeps K (insert_token h u tok)"
    "statement_keeps K (revoke_token u i)" "statement_keeps K (touch_token h)"
  unfolding K_def by (rule statement_written, rule db_write.intros; assumption)+

lemma writes_admin [keeps_intro]:
  fixes d0 E c defines "K \<equiv> (db_write E c)\<^sup>*\<^sup>* d0"
  shows "normalizeUpstreamInput given = Inr inp \<Longrightarrow> (\<And>s. pw = Some s \<Longrightarrow> sealed_value E c (upstreamAAD E i) s) \<Longrightarrow>
      statement_keeps K (insert_upstream i inp pw)"
    "normalizeUpstreamInput given = Inr inp \<Longrightarrow> (\<And>s. pw = Some s \<Longrightarrow> sealed_value E c (upstreamAAD E i) s) \<Longrightarrow>
      statement_keeps K (update_upstream i inp pw)"
    "statement_keeps K (delete_contexts_of i)" "statement_keeps K (delete_upstream i)" "statement_keeps K (set_restricted b)"
    "check_settings v = Inr () \<Longrightarrow> statement_keeps K (update_settings v)"
    "statement_keeps K (delete_pairs tab col i)" "statement_keeps K (insert_pair tab col oth i j)"
    "statement_keeps K (clear_direct tab)" "statement_keeps K (insert_direct tab col i)"
    "pi_name pol \<noteq> [] \<Longrightarrow> statement_keeps K (insert_policy i pol)" "pi_name pol \<noteq> [] \<Longrightarrow> statement_keeps K (update_policy_row i pol)"
    "statement_keeps K (delete_rules i)" "ValidateRule kd raw = Inr val \<Longrightarrow> statement_keeps K (insert_rule i j kd val)"
    "statement_keeps K (delete_policy i)" "statement_keeps K (update_user i ch)"
    "password_hash E h \<Longrightarrow> statement_keeps K (set_password_hash i h)" "statement_keeps K (delete_sessions_of i)"
  unfolding K_def by (rule statement_written, rule db_write.intros; simp; fail)+

lemma statement_keeps_selects [keeps_intro]:
  "statement_keeps J (select_user n)" "statement_keeps J count_users" "statement_keeps J (select_session h)"
  "statement_keeps J (select_token_session h)" "statement_keeps J (select_tokens u)" "statement_keeps J select_settings"
  "statement_keeps J (select_policies u)" "statement_keeps J (select_rules i)" "statement_keeps J select_upstreams"
  "statement_keeps J (select_effective u)" "statement_keeps J (select_authorized u i)" "statement_keeps J (select_direct_allowed u)"
  "statement_keeps J (select_cookies i)" "statement_keeps J select_all_policies" "statement_keeps J (select_active_admin i)"
  "statement_keeps J count_active_admins" "statement_keeps J select_users" "statement_keeps J select_groups"
  "statement_keeps J (select_holders tab i)" "statement_keeps J select_audit"
  unfolding select_user_def count_users_def select_session_def select_token_session_def select_tokens_def select_settings_def
    select_policies_def select_rules_def select_upstreams_def select_effective_def select_authorized_def select_direct_allowed_def
    select_cookies_def select_all_policies_def select_active_admin_def count_active_admins_def select_users_def select_groups_def
    select_holders_def select_audit_def
  by (rule statement_keeps_read)+

section \<open>Programs\<close>

text \<open>What is known of a result can be used of the statements that follow.\<close>

lemma keeps_result:
  assumes "keeps I p" and "\<And>w. wp p (\<lambda>r _. case r of Inl _ \<Rightarrow> True | Inr x \<Rightarrow> R x) w" and "\<And>x. R x \<Longrightarrow> keeps I (f x)"
  shows "keeps I (ok_or p f)"
proof (rule keepsI)
  fix w assume "I w"
  then have "wp p (\<lambda>r w'. I w' \<and> (case r of Inl _ \<Rightarrow> True | Inr x \<Rightarrow> R x)) w"
    using assms(1,2) by (simp add: keeps_def wp_conj)
  then show "wp (ok_or p f) (\<lambda>_. I) w"
    by (rule wp_seq) (use assms(3) in \<open>auto simp: keeps_def\<close>)
qed

lemma keeps_checked [keeps_intro]: "(\<And>x. v = Inr x \<Longrightarrow> keeps I (f x)) \<Longrightarrow> keeps I (ok_or (State_Monad.return v) f)"
  by (rule keeps_result [where R = "\<lambda>x. v = Inr x"]) (auto simp: wp_return keeps_return split: sum.split)

lemma keeps_attempt_result:
  assumes "keeps I p" and "\<And>w. wp p (\<lambda>r _. case r of Inl _ \<Rightarrow> True | Inr x \<Rightarrow> R x) w" and "\<And>x. R x \<Longrightarrow> keeps I (f x)"
    and "\<And>e. keeps I (err e)"
  shows "keeps I (attempt p err f)"
proof (rule keepsI)
  fix w assume "I w"
  then have "wp p (\<lambda>r w'. I w' \<and> (case r of Inl _ \<Rightarrow> True | Inr x \<Rightarrow> R x)) w"
    using assms(1,2) by (simp add: keeps_def wp_conj)
  then show "wp (attempt p err f) (\<lambda>_. I) w"
    unfolding wp_attempt by (rule wp_mono) (use assms(3,4) in \<open>auto simp: keeps_def split: sum.splits\<close>)
qed

lemma tokens_digested:
  "wp (randomToken E) (\<lambda>r _. case r of Inl _ \<Rightarrow> True | Inr x \<Rightarrow> digest E (snd x)) w"
  "wp (authRandomToken E) (\<lambda>r _. case r of Inl _ \<Rightarrow> True | Inr x \<Rightarrow> digest E (snd x)) w"
  by (auto simp: randomToken_def authRandomToken_def step_simps Let_def digest_def split: sum.split)

lemma password_hashed: "wp (HashPassword E pw) (\<lambda>r _. case r of Inl _ \<Rightarrow> True | Inr x \<Rightarrow> password_hash E x) w"
proof -
  have "password_hash E (phc_string salt (e_argon2 E pw salt argonIterations argonMemory argonParallelism argonKeyLength))"
    if "12 \<le> length pw" for salt using that unfolding password_hash_def by blast
  then show ?thesis unfolding HashPassword_def wp_if wp_return by (auto simp: step_simps split: sum.split)
qed

lemma value_sealed: "wp (Encrypt E c v aad) (\<lambda>r _. case r of Inl _ \<Rightarrow> True | Inr x \<Rightarrow> sealed_value E c aad x) w"
  by (auto simp: Encrypt_def step_simps sealed_value_def split: sum.split)

lemma password_sealed:
  "wp (seal_password E c i pw) (\<lambda>r _. case r of Inl _ \<Rightarrow> True | Inr x \<Rightarrow> (\<forall>s. x = Some s \<longrightarrow> sealed_value E c (upstreamAAD E i) s)) w"
proof (cases "pw = []")
  case False
  then show ?thesis unfolding seal_password_def if_P [OF False]
    by (intro wp_seq [OF value_sealed]) (auto simp: wp_return)
qed (simp add: seal_password_def wp_return)

lemma scopes_known: "ValidateScopes scopes admin = Inr known \<Longrightarrow> known_scopes known"
proof -
  have "validate_scopes adm acc scs = Inr known \<Longrightarrow> distinct acc \<Longrightarrow> set acc \<subseteq> {ScopeProxy, ScopeAdmin} \<Longrightarrow> known_scopes known"
    for adm acc scs
    by (induction adm acc scs rule: validate_scopes.induct) (auto simp: known_scopes_def Let_def split: if_splits)
  then show "ValidateScopes scopes admin = Inr known \<Longrightarrow> known_scopes known" by (simp add: ValidateScopes_def)
qed

lemma keeps_now_tick [keeps_intro]: "keeps (on_db J) (HashPassword E pw)" "keeps (on_db J) (authRandomToken E)"
  "keeps (on_db J) (seal_password E c i pw)" "keeps (on_db J) (token_metadata_ok E nm ex)"
  unfolding HashPassword_def authRandomToken_def seal_password_def token_metadata_ok_def by (intro keeps_intro)+

lemma name_short: "wp (token_metadata_ok E nm ex) (\<lambda>ok _. ok \<longrightarrow> short_name nm) w"
  unfolding token_metadata_ok_def by (auto simp: step_simps short_name_def)

lemma keeps_bind_result:
  assumes "keeps I p" and "\<And>w. wp p (\<lambda>x _. R x) w" and "\<And>x. R x \<Longrightarrow> keeps I (f x)"
  shows "keeps I (State_Monad.bind p f)"
proof (rule keepsI)
  fix w assume "I w"
  then have "wp p (\<lambda>x w'. I w' \<and> R x) w" using assms(1,2) by (simp add: keeps_def wp_conj)
  then show "wp (State_Monad.bind p f) (\<lambda>_. I) w"
    by (rule wp_then) (use assms(3) in \<open>auto simp: keeps_def\<close>)
qed

text \<open>The results above, as rules that come before the general ones.\<close>

lemma keeps_tokens:
  "(\<And>tok h. digest E h \<Longrightarrow> keeps (on_db J) (f tok h)) \<Longrightarrow> keeps (on_db J) (ok_or (randomToken E) (\<lambda>(tok, h). f tok h))"
  "(\<And>tok h. digest E h \<Longrightarrow> keeps (on_db J) (f tok h)) \<Longrightarrow> keeps (on_db J) (ok_or (authRandomToken E) (\<lambda>(tok, h). f tok h))"
  by (rule keeps_result [OF keeps_randomToken tokens_digested(1)] keeps_result [OF keeps_now_tick(2) tokens_digested(2)]; auto)+

lemmas keeps_hashed = keeps_result [OF keeps_now_tick(1) password_hashed] keeps_attempt_result [OF keeps_now_tick(1) password_hashed]
lemmas keeps_sealed = keeps_result [OF keeps_Encrypt value_sealed] keeps_result [OF keeps_now_tick(3) password_sealed]
lemmas keeps_first = keeps_tokens keeps_hashed keeps_sealed keeps_checked keeps_bind_result [OF keeps_now_tick(4) name_short]

text \<open>The stores.\<close>

lemma proxy_store_writes [keeps_intro]:
  "keeps (written E c d0) (CreateContext E u tgt up m)" "keeps (written E c d0) (CreateTicket E u i)"
  "keeps (written E c d0) (ResolveRoute E i u tgt)" "keeps (written E c d0) (RouteByLabel E lb)"
  "keeps (written E c d0) (ConsumeTicket E tok ttl)" "keeps (written E c d0) (AuthenticateProxy E tok)"
  "keeps (written E c d0) (GetContext E i u)" "keeps (written E c d0) (CloseContext E i u)"
  "keeps (written E c d0) (UpdateCurrentURL E i url)"
  unfolding CreateContext_def CreateTicket_def ResolveRoute_def RouteByLabel_def ConsumeTicket_def AuthenticateProxy_def GetContext_def
    CloseContext_def UpdateCurrentURL_def createRoute_def
  by (assumption | rule keeps_first | rule keeps_intro)+

lemma save_groups_writes [keeps_intro]: "keeps (written E c d0) (save_groups E t u gs)"
  by (induction gs) (auto intro!: keeps_intro)

lemma auth_store_writes [keeps_intro]:
  "keeps (written E c d0) (FindUserByUsername E nm)" "keeps (written E c d0) (UpsertLDAPUser E li)"
  "keeps (written E c d0) (CreateSession E usr ttl)" "keeps (written E c d0) (SessionByToken E tok)"
  "keeps (written E c d0) (DeleteSession E tok)" "keeps (written E c d0) (Audit E a k oc ta)"
  "keeps (written E c d0) (ProgramTokens E u)" "keeps (written E c d0) (RevokeProgramToken E u i)"
  "keeps (written E c d0) (SessionByProgramToken E tok)"
  unfolding FindUserByUsername_def UpsertLDAPUser_def CreateSession_def SessionByToken_def DeleteSession_def Audit_def ProgramTokens_def
    RevokeProgramToken_def SessionByProgramToken_def
  by (assumption | rule keeps_first | rule keeps_intro)+

lemma CreateLocalUser_writes [keeps_intro]: "keeps (written E c d0) (CreateLocalUser E nm dn em pw adm)"
  unfolding CreateLocalUser_def Let_def by (rule keeps_first | rule keeps_intro | simp)+

lemma CreateProgramToken_writes [keeps_intro]: "keeps (written E c d0) (CreateProgramToken E usr nm scs ex)"
  unfolding CreateProgramToken_def Let_def
  by (rule keeps_first | rule keeps_intro | simp add: digest_def scopes_known; blast?)+

lemma upstream_writes [keeps_intro]:
  "keeps (written E c d0) (ListUpstreams E)" "keeps (written E c d0) (CreateUpstream E c inp)"
  "keeps (written E c d0) (UpdateUpstream E c i inp)" "keeps (written E c d0) (DeleteUpstream E i)"
  "keeps (written E c d0) (EffectiveUpstreams E u)" "keeps (written E c d0) (DirectAllowed E u)"
  "keeps (written E c d0) (DirectAccess E)" "keeps (written E c d0) (SetDirectRestricted E b)"
  "keeps (written E c d0) (Authorized E u i)"
  unfolding ListUpstreams_def CreateUpstream_def UpdateUpstream_def DeleteUpstream_def EffectiveUpstreams_def DirectAllowed_def
    DirectAccess_def SetDirectRestricted_def Authorized_def
  by (assumption | rule keeps_first | rule keeps_intro | simp)+

lemma SaveCookies_writes [keeps_intro]: "keeps (written E c d0) (SaveCookies E c ctx origin cks)"
proof -
  have "keeps (written E c d0) (save_cookie E c ctx origin ck)" for ck
    unfolding save_cookie_def by (rule keeps_first | rule keeps_intro | simp add: cookie_to_row_def)+
  then show ?thesis by (induction cks) (auto intro!: keeps_intro)
qed

end
