(* ===== verification/Requests.thy ===== *)
theory Requests
  imports Writes
begin

text \<open>
  Every handler takes steps of \<open>db_write\<close> only: from the pages and frames of the proxy over the
  directory and the administration to the handler of the server.
\<close>

section \<open>The proxy\<close>

lemma policies_keep [keeps_intro]: "keeps (on_db J) (GuardResolve E g raw)" "keeps (on_db J) (Effective E u)"
  "keeps (on_db J) (authorize E s u raw)" "keeps (on_db J) (authorizeWebSocket E s u raw)" "keeps (on_db J) (load_policies E)"
proof -
  have rules: "keeps (on_db J) (load_rules E ps)" for ps by (induction ps) (auto intro!: keeps_intro)
  show "keeps (on_db J) (GuardResolve E g raw)" "keeps (on_db J) (Effective E u)" "keeps (on_db J) (authorize E s u raw)"
    "keeps (on_db J) (authorizeWebSocket E s u raw)" "keeps (on_db J) (load_policies E)"
    unfolding authorizeWebSocket_def authorize_def GuardResolve_def addresses_of_def Effective_def load_policies_def
    by (intro keeps_intro rules)+
qed

lemma jar_keeps [keeps_intro]: "keeps (on_db J) (Cookies E c i u)" "keeps (on_db J) (VisibleCookies E c i u)"
  unfolding Cookies_def VisibleCookies_def jar_cookies_def by (intro keeps_intro)+

lemma audit_writes [keeps_intro]: "keeps (written E c d0) (audit E u ty ta oc)"
  unfolding audit_def by (intro keeps_intro)

lemma transport_writes [keeps_intro]: "keeps (written E c d0) (make_transport E s t rt)"
  unfolding make_transport_def by (intro keeps_intro)

lemma rewriteURL_writes [keeps_intro]: "keeps (written E c d0) (rewriteURL E s rt base v)"
  unfolding rewriteURL_def by (intro keeps_intro)

lemma rewriteCSS_writes [keeps_intro]: "keeps (written E c d0) (rewriteCSS E s rt base v)"
proof -
  have "keeps (written E c d0) (rewrite_parts E s rt base ps)" for ps
    by (induction ps) (auto intro!: keeps_intro split: css_part.split)
  then show ?thesis by (simp add: rewriteCSS_def)
qed

lemma rewriteElement_writes [keeps_intro]: "keeps (written E c d0) (rewriteElement E s rt base dat as)"
proof -
  have srcset: "keeps (written E c d0) (rewrite_srcset E s rt base ps)" for ps
    by (induction ps) (auto intro!: keeps_intro)
  have "keeps (written E c d0) (rewrite_value E s rt base k v)" for k v
    unfolding rewrite_value_def by (intro keeps_intro srcset)
  then have "keeps (written E c d0) (rewrite_attrs E s rt base as)" for as
    by (induction as) (auto intro!: keeps_intro)
  then show ?thesis unfolding rewriteElement_def rewrite_refresh_def by (intro keeps_intro)
qed

lemma rewriteResponse_writes [keeps_intro]: "keeps (written E c d0) (rewriteResponse E P s rt t ct response)"
  unfolding rewriteResponse_def rewriteHTML_def Let_def by (intro keeps_intro keeps_walk)

lemma forward_writes [keeps_intro]: "keeps (written E (sv_cipher s) d0) (forward E P s rt w r)"
  unfolding forward_def exchange_def relocate_def deliver_def visited_def by (intro keeps_intro)

lemma permitted_writes [keeps_intro]: "keeps (written E c d0) (permitted_target E s u raw)" "keeps (written E c d0) (egress_allowed E u up)"
  unfolding permitted_target_def egress_allowed_def by (intro keeps_intro)+

lemma runtime_writes [keeps_intro]: "keeps (written E (sv_cipher s) d0) (setDocumentCookie E s dec rt w r)"
  "keeps (written E c d0) (resolveURL E s dec rt w r)" "keeps (written E c d0) (bootstrap E s w r)"
  unfolding setDocumentCookie_def resolveURL_def bootstrap_def by (intro keeps_intro)+

lemma context_writes [keeps_intro]: "keeps (written E c d0) (createContext E s cdec sn w r)" "keeps (written E c d0) (getContext E p sn w r)"
  "keeps (written E c d0) (navigate E s dec p sn w r)" "keeps (written E c d0) (closeContext E p sn w r)"
  "keeps (written E c d0) (AvailableUpstreams E sn w r)"
  unfolding createContext_def getContext_def navigate_def closeContext_def AvailableUpstreams_def by (intro keeps_intro)+

lemma send_keeps [keeps_intro]: "keeps (on_db J) (mux_send E k i b)" "keeps (on_db J) (muxError E i m)"
  "keeps (on_db J) (send_pieces E i whole ps)"
proof -
  show send: "keeps (on_db J) (mux_send E k i b)" for k i b
    by (simp add: keeps_def wp_def mux_send_def on_db_def split: option.split)
  show "keeps (on_db J) (muxError E i m)" unfolding muxError_def by (intro keeps_intro send)
  show "keeps (on_db J) (send_pieces E i whole ps)" by (induction ps) (auto intro!: keeps_intro send)
qed

lemma mux_hops_writes [keeps_intro]: "keeps (written E (sv_cipher s) d0) (mux_hops E s rt hs n m b t)"
  by (induction n arbitrary: m b t) (auto intro!: keeps_intro)

lemma executeMux_writes [keeps_intro]: "keeps (written E (sv_cipher s) d0) (executeMux E s rt i st)"
  unfolding executeMux_def muxRoundTrip_def by (intro keeps_intro)

lemma serveMux_writes [keeps_intro]: "keeps (written E (sv_cipher s) d0) (serveMux E s dec rt w r)"
proof -
  have perform: "keeps (written E (sv_cipher s) d0) (perform E (executeMux E s rt) i a)" for i a
    unfolding perform_def by (cases a) (auto intro!: keeps_intro)
  have "keeps (written E (sv_cipher s) d0) (mux_loop E dec (executeMux E s rt) ms states)" for ms states
    by (induction ms arbitrary: states) (auto intro!: keeps_intro perform)
  then show ?thesis unfolding serveMux_def by (intro keeps_intro)
qed

lemma serveWebSocket_writes [keeps_intro]: "keeps (written E (sv_cipher s) d0) (serveWebSocket E s rt w r)"
  unfolding serveWebSocket_def by (intro keeps_intro)

lemma route_access_writes [keeps_intro]: "keeps (written E c d0) (route_access E s rt w r)"
  unfolding route_access_def token_access_def cookie_access_def compatibilityRequestAllowed_def by (intro keeps_intro)

lemma ServeHTTP_writes [keeps_intro]: "keeps (written E (sv_cipher s) d0) (ServeHTTP E P D s w r)"
  unfolding ServeHTTP_def serve_route_def by (intro keeps_intro)

section \<open>The directory and the logins\<close>

lemma ldap_keeps [keeps_intro]: "keeps (on_db J) (ldap_authenticate E s nm pw)" "keeps (on_db J) (TestLdap E s)" "keeps (on_db J) (Settings E)"
  unfolding ldap_authenticate_def TestLdap_def Settings_def identify_def dial_ldap_def with_conn_def bindPassword_def tls_config_def
    close_conn_def by_template_def by_search_def findUser_def groups_of_def Bind_def
  by (intro keeps_intro)+

lemma UpdateSettings_writes [keeps_intro]: "keeps (written E c d0) (UpdateSettings E v)"
  unfolding UpdateSettings_def Let_def by (rule keeps_first | rule keeps_intro | simp)+

definition directory_of :: "env \<Rightarrow> auth_http \<Rightarrow> bool" where
  "directory_of E h \<longleftrightarrow> (\<exists>s. ah_ldap h = Some (ldap_authenticate E s))"

lemma directory_of_reads: "directory_of E h \<Longrightarrow> directory_reads h"
  by (auto simp: directory_of_def directory_reads_def intro: ldap_keeps)

lemma login_writes [keeps_intro]:
  "directory_of E h \<Longrightarrow> keeps (written E c d0) (Login E h dec sn w r)" "keeps (written E c d0) (Session E sn w r)"
  "keeps (written E c d0) (Logout E h sn w r)" "keeps (written E c d0) (listTokens E sn w r)"
  "keeps (written E c d0) (createToken E tdec sn w r)" "keeps (written E c d0) (revokeToken E p sn w r)"
  unfolding directory_of_def
  by (auto simp: Login_def authenticate_def setCookie_def Session_def Logout_def listTokens_def createToken_def revokeToken_def
      Let_def intro!: keeps_intro)

lemma Authenticate_writes [keeps_intro]:
  "(\<And>x. keeps (written E c d0) (k x w r)) \<Longrightarrow> keeps (written E c d0) (Authenticate E h k sn w r)"
  unfolding Authenticate_def by (intro keeps_intro)

text \<open>A gate only decides whether the next handler runs.\<close>

lemma gates_keep [keeps_intro]:
  "(\<And>x. keeps I (k x w r)) \<Longrightarrow> keeps I (RequireCSRF k sn w r)" "(\<And>x. keeps I (k x w r)) \<Longrightarrow> keeps I (RequireAdmin k sn w r)"
  "(\<And>x. keeps I (k x w r)) \<Longrightarrow> keeps I (RequireScope sc k sn w r)" "(\<And>x. keeps I (k x w r)) \<Longrightarrow> keeps I (RequireBrowserSession k sn w r)"
  unfolding RequireCSRF_def RequireAdmin_def RequireScope_def RequireBrowserSession_def by (auto intro!: keeps_intro simp: Let_def)

section \<open>The administration\<close>

lemma save_rules_writes [keeps_intro]: "keeps (written E c d0) (save_rules E t i items)"
  by (induction items) (auto intro!: keeps_first keeps_intro)

lemma savePolicy_writes [keeps_intro]: "keeps (written E c d0) (savePolicy E i x create)"
  unfolding savePolicy_def Let_def by (rule keeps_first | rule keeps_intro | simp)+

lemma add_rows_writes: "(\<And>i. statement_keeps J (add i)) \<Longrightarrow> keeps (on_db J) (add_rows E t add ids)"
  by (induction ids) (auto intro!: keeps_intro)

lemma replace_writes [keeps_intro]: "keeps (written E c d0) (replaceAssignments E tab col i ids)"
  "keeps (written E c d0) (replaceResourceAssignments E tab col i ids)" "keeps (written E c d0) (replaceDirectAssignments E tab col ids)"
  unfolding replaceAssignments_def replaceResourceAssignments_def replaceDirectAssignments_def replace_rows_def invalid_table_def
  by (intro keeps_intro add_rows_writes)+

lemma with_keeps [keeps_intro]:
  "(\<And>i. keeps I (k i sn w r)) \<Longrightarrow> keeps I (with_id E p k sn w r)" "(\<And>x. keeps I (l x sn w r)) \<Longrightarrow> keeps I (with_body dec l sn w r)"
  by (auto simp: with_id_def with_body_def intro!: keeps_intro)

lemma finish_writes [keeps_intro]: "keeps (written E c d0) (admin_audit E sn k oc ta de)" "keeps (written E c d0) (finish E k ta de sn w r)"
  unfolding finish_def admin_audit_def by (intro keeps_intro)+

lemma internal_keeps [keeps_intro]: "keeps I (internal w r)"
  unfolding internal_def by (intro keeps_intro)

lemma users_write [keeps_intro]:
  "keeps (written E c d0) (listUsers E sn w r)" "keeps (written E c d0) (createUser E udec sn w r)"
  "keeps (written E c d0) (updateUser E cdec p sn w r)" "keeps (written E c d0) (setPassword E pdec p sn w r)"
  "keeps (written E c d0) (setUserPolicies E idec p sn w r)"
  unfolding listUsers_def createUser_def updateUser_def last_admin_def setPassword_def setUserPolicies_def
  by (assumption | rule keeps_first | rule keeps_intro)+

lemma policies_write [keeps_intro]:
  "keeps (written E c d0) (listPolicies E sn w r)" "keeps (written E c d0) (createPolicy E pdec sn w r)"
  "keeps (written E c d0) (updatePolicy E pdec p sn w r)" "keeps (written E c d0) (deletePolicy E p sn w r)"
  "keeps (written E c d0) (getLDAP E h sn w r)" "keeps (written E c d0) (updateLDAP E vdec sn w r)"
  "keeps (written E c d0) (testLDAP E h sn w r)" "keeps (written E c d0) (listGroups E sn w r)"
  "keeps (written E c d0) (setGroupPolicies E idec p sn w r)" "keeps (written E c d0) (listAudit E sn w r)"
  unfolding listPolicies_def createPolicy_def updatePolicy_def deletePolicy_def getLDAP_def updateLDAP_def testLDAP_def listGroups_def
    setGroupPolicies_def listAudit_def
  by (intro keeps_intro)+

lemma upstreams_write [keeps_intro]:
  "keeps (written E c d0) (listUpstreamProxies E sn w r)"
  "keeps (written E (ad_cipher h) d0) (createUpstreamProxy E h udec sn w r)"
  "keeps (written E (ad_cipher h) d0) (updateUpstreamProxy E h udec p sn w r)"
  "keeps (written E c d0) (deleteUpstreamProxy E p sn w r)" "keeps (written E c d0) (setUpstreamAssignments E idec tab col ev p sn w r)"
  "keeps (written E c d0) (getDirectAccess E sn w r)" "keeps (written E c d0) (updateDirectAccess E bdec sn w r)"
  "keeps (written E c d0) (setDirectAssignments E idec tab col ev sn w r)"
proof -
  have "keeps (written E c d0) (upstream_items E us)" for us by (induction us) (auto intro!: keeps_intro)
  then show "keeps (written E c d0) (listUpstreamProxies E sn w r)"
    unfolding listUpstreamProxies_def by (intro keeps_intro)
qed (unfold createUpstreamProxy_def updateUpstreamProxy_def deleteUpstreamProxy_def setUpstreamAssignments_def getDirectAccess_def
    updateDirectAccess_def setDirectAssignments_def, (intro keeps_intro)+)

lemma admin_routes_write:
  "list_all (\<lambda>(m, p, h). \<forall>param sn w r. keeps (written E (ad_cipher ah) d0) (h param sn w r)) (admin_routes E ah D)"
  unfolding admin_routes_def setUpstreamProxyUsers_def setUpstreamProxyGroups_def setDirectAccessUsers_def setDirectAccessGroups_def
  by (simp, intro conjI allI; rule keeps_intro)

section \<open>The server\<close>

lemma dispatch_keeps:
  assumes "list_all (\<lambda>(m, p, h). \<forall>param sn w r. keeps I (h param sn w r)) table" and "\<And>sn w r. keeps I (nf sn w r)"
  shows "keeps I (dispatch K mount table nf sn w r)"
proof -
  have "keeps I (snd (snd (table ! i)) param sn w r)" if "i < length table" for i param
    using assms(1) that by (auto simp: list_all_length split_beta)
  with assms(2) show ?thesis by (auto simp: dispatch_def keeps_return split: chosen.split)
qed

lemma not_found_keeps [keeps_intro]: "keeps I (not_found K sn w r)"
  by (simp add: not_found_def keeps_return)

lemma apis_write:
  assumes "directory_of E (sr_auth sr)" and "sv_cipher (sr_proxy sr) = ad_cipher (sr_admin sr)"
  shows "keeps (written E (sv_cipher (sr_proxy sr)) d0) (server_routes E K sr sn w r)"
proof -
  let ?c = "sv_cipher (sr_proxy sr)"
  note assms(1) [intro]
  have auth: "keeps (written E ?c d0) (auth_api E K sr sn w r)" for sn w r
    unfolding auth_api_def browser_gates_def
    by (intro dispatch_keeps not_found_keeps)
      (auto simp: TokenRoutes_def intro!: keeps_intro dispatch_keeps assms(1))
  have admin: "keeps (written E ?c d0) (admin_api E K sr sn w r)" for sn w r
    unfolding admin_api_def admin_gates_def assms(2) by (intro keeps_intro dispatch_keeps admin_routes_write)
  have ctx: "keeps (written E ?c d0) (contexts_api E K sr sn w r)" for sn w r
    unfolding contexts_api_def context_gates_def by (intro keeps_intro dispatch_keeps) (auto simp: AppRoutes_def intro!: keeps_intro)
  have ups: "keeps (written E ?c d0) (upstreams_api E K sr sn w r)" for sn w r
    unfolding upstreams_api_def by (intro keeps_intro dispatch_keeps) (auto intro!: keeps_intro)
  show ?thesis
    unfolding server_routes_def
    by (rule dispatch_keeps) (auto simp: auth admin ctx ups health_live_def health_ready_def intro!: keeps_intro)
qed

lemma Handler_writes:
  assumes "Handler E K cfg (assemble E cfg' s) = Some handle"
  shows "keeps (written E (sv_cipher s) d0) (handle w r)"
proof -
  have api: "keeps (written E (sv_cipher s) d0) (server_routes E K (assemble E cfg' s) sn w r)" for sn w r
    using apis_write [of E "assemble E cfg' s"] by (simp add: assemble_def directory_of_def) blast
  have "keeps (written E (sv_cipher s) d0) (ServeHTTP E P D s w r)" for P D w r by (rule keeps_intro)
  with api assms show ?thesis
    by (auto simp: Handler_def assemble_def keeps_refuse split: requestHostKind.split)
qed

end
