(* ===== verification/Integrity.thy ===== *)
theory Integrity
  imports Requests
begin

text \<open>
  What holds of the stored data after every step of the program: the constraints of the schema, which
  deletions and updates have to respect too, and what only the program's own checks ensure.
\<close>

section \<open>Well-formed data\<close>

text \<open>A user name and its normal form agree; a local account has a password hash, a directory account has none.\<close>

definition account_sound :: "env \<Rightarrow> user_row \<Rightarrow> bool" where
  "account_sound E u \<longleftrightarrow> us_normalized u = normalizeUsername (us_username u)
     \<and> (us_source u = ''local'' \<and> (\<exists>h. us_password u = Some h \<and> password_hash E h) \<or> us_source u = ''ldap'' \<and> us_password u = None)"

definition token_sound :: "env \<Rightarrow> token_row \<Rightarrow> bool" where
  "token_sound E k \<longleftrightarrow> digest E (tk_hash k) \<and> known_scopes (tk_scopes k) \<and> short_name (tk_name k)"

definition upstream_sound :: "env \<Rightarrow> cipher \<Rightarrow> upstream_row \<Rightarrow> bool" where
  "upstream_sound E c u \<longleftrightarrow> (\<exists>given x. normalizeUpstreamInput given = Inr x \<and> up_name u = ui_name x \<and> up_type u = ui_type x
       \<and> up_host u = ui_host x \<and> up_port u = ui_port x \<and> up_username u = ui_username x)
     \<and> (\<forall>s. up_password u = Some s \<longrightarrow> sealed_value E c (upstreamAAD E (up_id u)) s)"

definition cookie_sound :: "env \<Rightarrow> cipher \<Rightarrow> cookie_row \<Rightarrow> bool" where
  "cookie_sound E c k \<longleftrightarrow> sealed_value E c (cookieAAD E (co_context k) (co_name k) (co_domain k) (co_path k)) (co_value k)"

definition accounts_sound :: "env \<Rightarrow> db \<Rightarrow> bool" where
  "accounts_sound E d \<longleftrightarrow> list_all (account_sound E) (users d) \<and> list_all (digest E \<circ> se_hash) (sessions d)
     \<and> list_all (token_sound E) (program_tokens d)"

definition proxy_sound :: "env \<Rightarrow> cipher \<Rightarrow> db \<Rightarrow> bool" where
  "proxy_sound E c d \<longleftrightarrow> list_all (digest E \<circ> pt_hash) (proxy_tickets d) \<and> list_all (digest E \<circ> ps_hash) (proxy_sessions d)
     \<and> list_all (cookie_sound E c) (proxy_cookies d) \<and> list_all (upstream_sound E c) (upstream_proxies d)"

definition rules_sound :: "db \<Rightarrow> bool" where
  "rules_sound d \<longleftrightarrow> list_all (\<lambda>p. po_name p \<noteq> []) (policies d) \<and> rules_valid d
     \<and> check_settings (ldap_values.truncate (ldap_settings d)) = Inr ()"

definition sound :: "env \<Rightarrow> cipher \<Rightarrow> db \<Rightarrow> bool" where
  "sound E c d \<longleftrightarrow> db_ok d \<and> accounts_sound E d \<and> proxy_sound E c d \<and> rules_sound d"

section \<open>Rows that stay\<close>

lemma list_all_update: "list_all Q rs \<Longrightarrow> (\<And>r. P r \<Longrightarrow> Q r \<Longrightarrow> Q (f r)) \<Longrightarrow> list_all Q (update_rows P f rs)"
  by (auto simp: list_all_iff set_update_rows)

lemma list_all_delete: "list_all Q rs \<Longrightarrow> list_all Q (delete_rows P rs)"
  by (auto simp: list_all_iff)

lemma distinct_delete: "distinct (map k rs) \<Longrightarrow> distinct (map k (delete_rows P rs))"
  by (simp add: delete_rows_def distinct_map_filter)

lemma distinct_delete_rows: "distinct rs \<Longrightarrow> distinct (delete_rows P rs)"
  by (simp add: delete_rows_def)

lemmas proxy_writes = insert_context_def insert_ticket_def insert_route_def use_ticket_def insert_proxy_session_def close_context_def
  update_current_url_def delete_cookie_def upsert_cookie_def

lemmas auth_writes = upsert_ldap_user_def clear_groups_def upsert_group_def insert_membership_def touch_login_def insert_local_user_def
  insert_session_def touch_session_def delete_session_def insert_audit_def insert_token_def revoke_token_def touch_token_def

lemmas admin_writes = insert_upstream_def update_upstream_def delete_contexts_of_def drop_contexts_def delete_upstream_def set_restricted_def
  update_settings_def delete_pairs_def insert_pair_def set_join_table_def clear_direct_def insert_direct_def set_direct_list_def
  insert_policy_def update_policy_row_def delete_rules_def insert_rule_def delete_policy_def update_user_def set_password_hash_def
  delete_sessions_of_def

lemma accounts_kept: "db_write E c d d' \<Longrightarrow> accounts_sound E d \<Longrightarrow> accounts_sound E d'"
  by (cases rule: db_write.cases, assumption)
    (auto simp: proxy_writes auth_writes admin_writes store_db_ok Let_def accounts_sound_def account_sound_def token_sound_def
      overwrite_user_def change_user_def local_user_def
      intro!: list_all_update list_all_delete split: option.splits if_splits)

lemma upstream_updated:
  assumes "normalizeUpstreamInput given = Inr inp" and "\<And>s. pw = Some s \<Longrightarrow> sealed_value E c (upstreamAAD E i) s"
    and "up_id u = i" and "upstream_sound E c u"
  shows "upstream_sound E c (apply_update inp pw t u)"
  using assms by (cases pw) (auto simp: upstream_sound_def apply_update_def updated_password_def split: if_splits)

lemma upstream_inserted:
  assumes "normalizeUpstreamInput given = Inr inp" and "\<And>s. pw = Some s \<Longrightarrow> sealed_value E c (upstreamAAD E i) s"
  shows "upstream_sound E c \<lparr>up_id = i, up_name = ui_name inp, up_type = ui_type inp, up_host = ui_host inp, up_port = ui_port inp,
     up_username = ui_username inp, up_password = pw, up_enabled = b, up_created = t, up_updated = t\<rparr>"
  using assms by (auto simp: upstream_sound_def)

lemma proxy_kept: "db_write E c d d' \<Longrightarrow> proxy_sound E c d \<Longrightarrow> proxy_sound E c d'"
  by (cases rule: db_write.cases, assumption)
    (auto simp: proxy_writes auth_writes admin_writes store_db_ok Let_def proxy_sound_def same_cookie_def overwrite_cookie_def cookie_sound_def
      intro!: list_all_update list_all_delete upstream_updated upstream_inserted split: option.splits if_splits)

lemma settings_stored: "ldap_values.truncate (ldap_values.extend v (ldap_row.fields t)) = v"
  by (cases v) (simp add: ldap_values.defs ldap_row.defs)

lemma rules_kept: "db_write E c d d' \<Longrightarrow> rules_sound d \<Longrightarrow> rules_sound d'"
  by (cases rule: db_write.cases, assumption)
    (auto simp: proxy_writes auth_writes admin_writes store_db_ok Let_def rules_sound_def rules_valid_def overwrite_policy_def
      settings_stored
      intro!: list_all_update list_all_delete split: option.splits if_splits)

section \<open>The constraints of the schema\<close>

text \<open>
  An insertion or an update of a key is checked by the database. The other statements are not, since
  they cannot violate a constraint: they only change columns without one, or delete with all that refers.
\<close>

lemma refers_delete: "refers (map f rs) (map k ps) \<Longrightarrow> refers (map f (delete_rows (\<lambda>r. f r = i) rs)) (map k (delete_rows (\<lambda>p. k p = i) ps))"
  unfolding refers_def list_all_iff by fastforce

lemma refers_Nil: "refers [] ids"
  by (simp add: refers_def)

lemma refers_fewer: "refers ks ids \<Longrightarrow> set js \<subseteq> set ks \<Longrightarrow> refers js ids"
  by (auto simp: refers_def list_all_iff)

lemma refers_map_delete: "refers (map k rs) ids \<Longrightarrow> refers (map k (delete_rows P rs)) ids"
  by (rule refers_fewer) auto

lemmas db_ok_parts = db_ok_def users_ok_def groups_ok_def policies_ok_def proxy_ok_def upstreams_ok_def

lemmas fewer_rows = list_all_delete list_all_update distinct_delete distinct_delete_rows refers_map_delete refers_delete

lemma shrink_pairs:
  assumes "db_ok d"
  shows "db_ok (d\<lparr>user_policies := delete_rows P (user_policies d)\<rparr>)" "db_ok (d\<lparr>ldap_group_policies := delete_rows P (ldap_group_policies d)\<rparr>)"
    "db_ok (d\<lparr>user_upstream_proxies := delete_rows P (user_upstream_proxies d)\<rparr>)"
    "db_ok (d\<lparr>ldap_group_upstream_proxies := delete_rows P (ldap_group_upstream_proxies d)\<rparr>)"
  using assms by (simp_all add: db_ok_parts fewer_rows)

lemma shrink_join: "db_ok d \<Longrightarrow> db_ok (set_join_table tab (delete_rows P (join_table tab d)) d)"
  by (simp add: set_join_table_def join_table_def shrink_pairs)

lemma delete_pairs_ok: "delete_pairs tab col i t d = Inr (x, d') \<Longrightarrow> db_ok d \<Longrightarrow> db_ok d'"
  by (auto simp: delete_pairs_def shrink_join split: if_splits)

lemma clear_direct_ok: "db_ok d \<Longrightarrow> db_ok (set_direct_list tab [] d)"
  by (simp add: set_direct_list_def db_ok_parts refers_Nil)

lemma delete_policy_ok:
  "db_ok d \<Longrightarrow> db_ok (d\<lparr>policies := delete_rows (\<lambda>p. po_id p = i) (policies d),
     policy_rules_t := delete_rows (\<lambda>r. ru_policy r = i) (policy_rules_t d),
     user_policies := delete_rows (\<lambda>p. snd p = i) (user_policies d),
     ldap_group_policies := delete_rows (\<lambda>p. snd p = i) (ldap_group_policies d)\<rparr>)"
  by (simp add: db_ok_parts fewer_rows)

text \<open>Updates that leave the keys and the references.\<close>

lemma update_proxy_ok:
  assumes "db_ok d"
  shows "(\<And>k. pt_hash (f k) = pt_hash k \<and> pt_user (f k) = pt_user k \<and> pt_context (f k) = pt_context k) \<Longrightarrow>
      db_ok (d\<lparr>proxy_tickets := update_rows P f (proxy_tickets d)\<rparr>)"
    "(\<And>x. pc_id (g x) = pc_id x \<and> pc_user (g x) = pc_user x \<and> pc_upstream (g x) = pc_upstream x) \<Longrightarrow>
      db_ok (d\<lparr>proxy_contexts := update_rows Q g (proxy_contexts d)\<rparr>)"
    "db_ok (d\<lparr>proxy_cookies := delete_rows R (proxy_cookies d)\<rparr>)"
    "db_ok (d\<lparr>direct_restricted := b\<rparr>)" "db_ok (d\<lparr>policy_rules_t := delete_rows S (policy_rules_t d)\<rparr>)"
  using assms by (simp_all add: db_ok_parts fewer_rows map_update_rows map_filter_update)

lemma update_accounts_ok:
  assumes "db_ok d"
  shows "(\<And>u. us_id (f u) = us_id u \<and> us_normalized (f u) = us_normalized u \<and> us_source (f u) = us_source u) \<Longrightarrow>
      (\<And>u. us_password u \<noteq> None \<Longrightarrow> us_password (f u) \<noteq> None) \<Longrightarrow> db_ok (d\<lparr>users := update_rows P f (users d)\<rparr>)"
    "(\<And>x. se_hash (g x) = se_hash x \<and> se_user (g x) = se_user x) \<Longrightarrow> db_ok (d\<lparr>sessions := update_rows Q g (sessions d)\<rparr>)"
    "(\<And>k. tk_id (h k) = tk_id k \<and> tk_hash (h k) = tk_hash k \<and> tk_user (h k) = tk_user k \<and> tk_scopes (h k) = tk_scopes k \<and> tk_name (h k) = tk_name k) \<Longrightarrow>
      db_ok (d\<lparr>program_tokens := update_rows R h (program_tokens d)\<rparr>)"
    "db_ok (d\<lparr>sessions := delete_rows S (sessions d)\<rparr>)"
    "db_ok (d\<lparr>user_ldap_groups := delete_rows T (user_ldap_groups d)\<rparr>)"
  using assms by (simp_all add: db_ok_parts fewer_rows map_update_rows) (auto intro!: list_all_update)

lemmas unchecked_ok = shrink_join clear_direct_ok delete_policy_ok update_proxy_ok update_accounts_ok

lemma db_ok_kept:
  assumes "db_write E c d d'" and "db_ok d" shows "db_ok d'"
  using assms(1)
proof cases
  case (Delete_Pairs tab col i t)
  then show ?thesis using assms(2) by (auto simp: delete_pairs_def unchecked_ok split: if_splits)
next
  case (Clear_Direct tab t)
  then show ?thesis using assms(2) by (auto simp: clear_direct_def unchecked_ok)
next
  case (Insert_Route i j sc ho po t)
  then show ?thesis using assms(2) by (auto simp: insert_route_def store_db_ok split: option.splits)
qed (use assms(2) in \<open>auto simp: proxy_writes auth_writes insert_upstream_def update_upstream_def delete_contexts_of_def delete_upstream_def
    set_restricted_def update_settings_def insert_pair_def insert_direct_def insert_policy_def update_policy_row_def delete_rules_def
    insert_rule_def delete_policy_def update_user_def set_password_hash_def delete_sessions_of_def store_db_ok Let_def
    unchecked_ok change_user_def split: option.splits if_splits\<close>)

section \<open>Every reachable state\<close>

lemma sound_kept: "db_write E c d d' \<Longrightarrow> sound E c d \<Longrightarrow> sound E c d'"
  unfolding sound_def using db_ok_kept accounts_kept proxy_kept rules_kept by blast

lemma sound_written: "(db_write E c)\<^sup>*\<^sup>* d d' \<Longrightarrow> sound E c d \<Longrightarrow> sound E c d'"
  by (induction rule: rtranclp_induct) (auto intro: sound_kept)

text \<open>
  A run of a server: it handles one request after the other, and between two of them any other writer of
  the database, another request that runs beside or another instance, takes a step.
\<close>

inductive served :: "env \<Rightarrow> cipher \<Rightarrow> (reply \<Rightarrow> request \<Rightarrow> reply prog) \<Rightarrow> world \<Rightarrow> world \<Rightarrow> bool" for E c handle where
  Start: "served E c handle w w"
| Request: "served E c handle w0 w \<Longrightarrow> served E c handle w0 (snd (run_state (handle reply r) w))"
| Beside: "served E c handle w0 w \<Longrightarrow> db_write E c (w_db w) d \<Longrightarrow> served E c handle w0 (w\<lparr>w_db := d\<rparr>)"

inductive_cases servedE: "served E c handle w w'"

lemma served_written:
  assumes "\<And>d0 reply r. keeps (written E c d0) (handle reply r)" and "served E c handle w w'"
  shows "(db_write E c)\<^sup>*\<^sup>* (w_db w) (w_db w')"
  using assms(2)
proof induction
  case (Request w0 w reply r)
  then show ?case using keepsD [OF assms(1), of "w_db w0" w reply r] by (simp add: on_db_def)
next
  case (Beside w0 w d)
  then show ?case by (simp add: rtranclp.rtrancl_into_rtrancl)
qed simp

text \<open>The database after the migrations: no rows but the settings with their defaults.\<close>

definition migrated_db :: "int \<Rightarrow> db" where
  "migrated_db t = \<lparr>users = [], sessions = [],
     ldap_settings = \<lparr>ls_enabled = False, ls_mode = ''search_bind'', ls_url = [], ls_start_tls = True, ls_base_dn = [], ls_bind_dn = [],
       ls_user_filter = ''(&(objectClass=person)(uid={{username}}))'', ls_user_dn_template = [], ls_username_attribute = ''uid'',
       ls_display_name_attribute = ''cn'', ls_email_attribute = ''mail'', ls_group_mode = ''member_of'', ls_group_base_dn = [],
       ls_group_filter = ''(&(objectClass=groupOfNames)(member={{user_dn}}))'', ls_group_name_attribute = ''cn'', ls_updated = t\<rparr>,
     ldap_groups = [], user_ldap_groups = [], policies = [], policy_rules_t = [], user_policies = [], ldap_group_policies = [],
     audit_events = [], proxy_contexts = [], proxy_routes = [], proxy_tickets = [], proxy_sessions = [], proxy_cookies = [],
     upstream_proxies = [], user_upstream_proxies = [], ldap_group_upstream_proxies = [], direct_restricted = False,
     direct_access_users = [], direct_access_ldap_groups = [], program_tokens = []\<rparr>"

lemma migrated_sound: "sound E c (migrated_db t)"
  by (simp add: sound_def db_ok_parts accounts_sound_def proxy_sound_def rules_sound_def rules_valid_def refers_def List.map_filter_def
      migrated_db_def ldap_values.defs check_settings_def)

text \<open>What the start leaves: \<open>database.Open\<close> is the argument, the rest writes steps.\<close>

lemma NewServer_keeps:
  assumes "\<And>url. keeps (on_db J) (open_db url)" and "\<And>nm pw. keeps (on_db J) (EnsureBootstrapAdmin E nm pw)"
  shows "keeps (on_db J) (NewServer E open_db cfg)"
  unfolding NewServer_def start_admin_def by (intro keeps_intro assms)

lemma EnsureBootstrapAdmin_writes [keeps_intro]: "keeps (written E c d0) (EnsureBootstrapAdmin E nm pw)"
  unfolding EnsureBootstrapAdmin_def by (intro keeps_intro)

lemma EnsureBootstrapAdmin_sound: "keeps (on_db (sound E c)) (EnsureBootstrapAdmin E nm pw)"
  unfolding keeps_def wp_run
  using keepsD [OF EnsureBootstrapAdmin_writes] sound_written by (fastforce simp: on_db_def)

lemma started_cipher:
  assumes "fst (run_state (NewServer E open_db cfg) w) = Inr sr"
  shows "\<exists>s. sr = assemble E cfg s \<and> sv_cipher s = cf_master_key cfg"
  using NewServer_result [OF assms] by (auto simp: NewService_def NewCipher_def split: sum.splits option.splits if_splits)

lemma started_writes:
  assumes "fst (run_state (NewServer E open_db cfg) w) = Inr sr" and "Handler E K cfg sr = Some handle"
  shows "keeps (written E (cf_master_key cfg) d0) (handle reply r)"
  using started_cipher [OF assms(1)] Handler_writes assms(2) by metis

end
