(* ===== verification/System.thy ===== *)
theory System
  imports Integrity
begin

text \<open>
  What the whole server guarantees over a run: of the data it stores, and of a token that is revoked.
\<close>

section \<open>The data\<close>

text \<open>
  C13: A started server changes the stored data in guarded steps only. Whatever a request asks, whatever
  the database, the directory, the resolver and the targets answer, and wherever an error ends it, the
  database afterwards is reached from the one before by the statements of \<open>db_write\<close>, each on values that
  passed the checks its rule names.
\<close>

theorem requests_take_steps:
  assumes "fst (run_state (NewServer E open_db cfg) w0) = Inr sr" and "Handler E K cfg sr = Some handle"
  shows "(db_write E (cf_master_key cfg))\<^sup>*\<^sup>* (w_db w) (w_db (snd (run_state (handle reply r) w)))"
  using keepsD [OF started_writes [OF assms], of "w_db w" w] by (simp add: on_db_def)

theorem requests_take_steps_witness:
  "\<exists>cfg sr handle. \<forall>K reply r. Handler boot_env K cfg sr = Some (handle K)
     \<and> (db_write boot_env (cf_master_key cfg))\<^sup>*\<^sup>* sample_db (w_db (snd (run_state (handle K reply r) (sample_world sample_db))))"
proof -
  obtain cfg sr w2 where n: "run_state (NewServer boot_env (\<lambda>_. State_Monad.return (Inr ())) cfg) (sample_world sample_db) = (Inr sr, w2)"
      and h: "\<forall>K. Handler boot_env K cfg sr \<noteq> None" using boot_server by blast
  define handle where "handle K = the (Handler boot_env K cfg sr)" for K
  from h have "Handler boot_env K cfg sr = Some (handle K)" for K by (auto simp: handle_def)
  moreover from n have "fst (run_state (NewServer boot_env (\<lambda>_. State_Monad.return (Inr ())) cfg) (sample_world sample_db)) = Inr sr" by simp
  ultimately show ?thesis
    using requests_take_steps [of boot_env "\<lambda>_. State_Monad.return (Inr ())" cfg "sample_world sample_db" sr _ _ "sample_world sample_db"]
    by (fastforce simp: sample_world_def)
qed

text \<open>
  C1: The stored data is well-formed in every state a server reaches. Started on sound data, as on the
  empty database the migrations leave, and through any sequence of requests between which anything else
  writes: the constraints of the schema hold; user names agree with their normal form and only local
  accounts have a password, stored as an Argon2 hash; session, proxy session, ticket and program tokens are
  stored as digests, upstream passwords and cookie values sealed under their own row; scopes are known ones;
  every rule is one that validation produced; the directory settings passed their check.
\<close>

theorem stored_data_sound:
  assumes "run_state (NewServer E open_db cfg) w0 = (Inr sr, w1)" and "Handler E K cfg sr = Some handle"
    and "\<And>url. keeps (on_db (sound E (cf_master_key cfg))) (open_db url)"
    and "sound E (cf_master_key cfg) (w_db w0)" and "served E (cf_master_key cfg) handle w1 w"
  shows "sound E (cf_master_key cfg) (w_db w)"
proof -
  have "keeps (on_db (sound E (cf_master_key cfg))) (NewServer E open_db cfg)"
    by (rule NewServer_keeps [OF assms(3) EnsureBootstrapAdmin_sound])
  from keepsD [OF this, of w0] have "sound E (cf_master_key cfg) (w_db w1)" using assms(1,4) by (simp add: on_db_def)
  moreover have "(db_write E (cf_master_key cfg))\<^sup>*\<^sup>* (w_db w1) (w_db w)"
    by (rule served_written [OF started_writes [where open_db = open_db and w = w0, OF _ assms(2)] assms(5)]) (simp add: assms(1))
  ultimately show ?thesis by (metis sound_written)
qed

theorem stored_data_sound_witness:
  "\<exists>cfg sr handle w1. \<forall>K reply r. Handler boot_env K cfg sr = Some (handle K)
     \<and> run_state (NewServer boot_env (\<lambda>_. State_Monad.return (Inr ())) cfg) (sample_world (migrated_db 0)) = (Inr sr, w1)
     \<and> sound boot_env (cf_master_key cfg) (w_db (snd (run_state (handle K reply r) w1)))"
proof -
  obtain cfg sr w1 where n: "run_state (NewServer boot_env (\<lambda>_. State_Monad.return (Inr ())) cfg) (sample_world (migrated_db 0)) = (Inr sr, w1)"
      and h: "\<forall>K. Handler boot_env K cfg sr \<noteq> None" using boot_server by blast
  define handle where "handle K = the (Handler boot_env K cfg sr)" for K
  from h have "Handler boot_env K cfg sr = Some (handle K)" for K by (auto simp: handle_def)
  moreover have "served boot_env (cf_master_key cfg) (handle K) w1 (snd (run_state (handle K reply r) w1))" for K reply r
    by (intro served.intros)
  moreover have "sound boot_env (cf_master_key cfg) (w_db (sample_world (migrated_db 0)))" by (simp add: sample_world_def migrated_sound)
  ultimately show ?thesis using n stored_data_sound [OF n _ keeps_return] by blast
qed

section \<open>Revocation\<close>

abbreviation revoked :: "string \<Rightarrow> db \<Rightarrow> bool" where
  "revoked \<equiv> marked program_tokens tk_hash (\<lambda>k. tk_revoked k \<noteq> None)"

lemma token_rows:
  "insert_token h u x t d = Inr (y, d') \<Longrightarrow> db_ok d' \<and> (\<exists>k. program_tokens d' = program_tokens d @ [k])"
  "revoke_token u i t d = Inr (n, d') \<Longrightarrow>
     program_tokens d' = update_rows (own_live_token u i) (\<lambda>k. k\<lparr>tk_revoked := Some t\<rparr>) (program_tokens d)"
  "touch_token h t d = Inr (y, d') \<Longrightarrow> program_tokens d' = update_rows
     (\<lambda>k. tk_hash k = h \<and> (case tk_last_used k of None \<Rightarrow> True | Some l \<Rightarrow> l < t - five_minutes)) (\<lambda>k. k\<lparr>tk_last_used := Some t\<rparr>) (program_tokens d)"
  by (auto simp: insert_token_def revoke_token_def touch_token_def store_db_ok)

text \<open>No statement of the program gives a revoked token back.\<close>

interpretation revoked_marks: sticky_mark program_tokens tk_hash "\<lambda>k. tk_revoked k \<noteq> None" "db_write E c" for E c
proof
  fix d d' assume "db_write E c d d'"
  then show "mark_kept program_tokens tk_hash (\<lambda>k. tk_revoked k \<noteq> None) d d'"
  proof cases
    case (Insert_Token h tok u t)
    then show ?thesis by (auto dest!: token_rows(1) intro: mark_kept_append db_ok_user_keys)
  next
    case (Revoke_Token u i t n)
    from token_rows(2) [OF this] show ?thesis
      by (intro mark_kept_update [where P = "own_live_token u i" and f = "\<lambda>k. k\<lparr>tk_revoked := Some t\<rparr>"]) auto
  next
    case (Touch_Token h t)
    from token_rows(3) [OF this] show ?thesis by (rule mark_kept_update) auto
  qed (rule mark_kept_same; auto simp: proxy_writes auth_writes admin_writes store_db_ok Let_def split: option.splits if_splits)+
qed

lemma revoked_unusable:
  assumes "revoked (e_sha256 E token) (w_db w)"
  shows "\<exists>e w1. run_state (SessionByProgramToken E token) w = (Inl e, w1)"
proof -
  have "find (\<lambda>k. tk_hash k = e_sha256 E token \<and> tk_revoked k = None \<and> t < tk_expires k) (program_tokens (w_db w)) = None" for t
    using revoked_marks.no_unmarked_row [OF assms, of "\<lambda>k. t < tk_expires k"] by simp
  then have "wp (SessionByProgramToken E token) (\<lambda>r _. \<not> is_ok r) w"
    by (simp add: SessionByProgramToken_def step_simps select_token_session_def read_row_def split: option.split)
  then show ?thesis by (cases "run_state (SessionByProgramToken E token) w"; cases "fst (run_state (SessionByProgramToken E token) w)")
    (auto simp: wp_def)
qed

lemma RevokeProgramToken_revokes:
  assumes "run_state (RevokeProgramToken E user i) w = (Inr (), w1)" and "db_ok (w_db w)"
    and "k \<in> set (program_tokens (w_db w))" and "tk_id k = i"
  shows "tk_user k = user \<and> revoked (tk_hash k) (w_db w1)
    \<and> filter (\<lambda>k. tk_id k \<noteq> i) (program_tokens (w_db w1)) = filter (\<lambda>k. tk_id k \<noteq> i) (program_tokens (w_db w))"
proof -
  let ?ks = "program_tokens (w_db w)"
  obtain t where one: "affected (own_live_token user i) ?ks = 1"
      and rows: "program_tokens (w_db w1) = update_rows (own_live_token user i) (\<lambda>k. k\<lparr>tk_revoked := Some t\<rparr>) ?ks"
    using assms(1) by (auto simp: RevokeProgramToken_def ok_or_def wrap_err_def sql_def sql_at_def revoke_token_def State_Monad.bind_def
        State_Monad.return_def split: option.splits if_splits)
  from affected_one [OF one] obtain k' where k': "k' \<in> set ?ks" "own_live_token user i k'"
    by (metis (mono_tags, lifting) filter_eq_Cons_iff in_set_conv_decomp)
  then have eq: "k' = k"
    using distinct_mapD [OF db_ok_user_keys(5) [OF assms(2)] k'(1) assms(3)] assms(4) by (simp add: own_live_token_def)
  have "revoked (tk_hash k) (w_db w1)"
    using k' eq db_ok_user_keys(4) [OF assms(2)] by (intro marked_update [OF rows, where r = k]) auto
  moreover have "filter (\<lambda>k. tk_id k \<noteq> i) (update_rows (own_live_token user i) f ks) = filter (\<lambda>k. tk_id k \<noteq> i) ks"
    if "\<And>k. tk_id (f k) = tk_id k" for f ks using that by (induction ks) (auto simp: update_rows_def own_live_token_def)
  ultimately show ?thesis using k'(2) eq rows by (simp add: own_live_token_def)
qed

text \<open>
  C12: Revocation is final and one's own affair. When a user has revoked a token, it was his and no other
  token has changed; and after any further run of a server, with any requests and writers beside it, the
  API answers a request that bears the token with an error and the proxy lets it in to no route.
\<close>

theorem revoked_token_refused:
  assumes "run_state (RevokeProgramToken E user i) w = (Inr (), w1)" and "db_ok (w_db w)"
    and "k \<in> set (program_tokens (w_db w))" and "tk_id k = i" and "e_sha256 E token = tk_hash k"
    and "fst (run_state (NewServer E open_db cfg) w0) = Inr sr" and "Handler E K cfg sr = Some handle"
    and "served E (cf_master_key cfg) handle w1 w2"
  shows "tk_user k = user
    \<and> filter (\<lambda>k. tk_id k \<noteq> i) (program_tokens (w_db w1)) = filter (\<lambda>k. tk_id k \<noteq> i) (program_tokens (w_db w))
    \<and> (bearerToken (Get (rq_header r) ''Authorization'') = Some token \<longrightarrow>
        fst (run_state (Authenticate E h next_handler sn reply r) w2) = Problem reply r ErrInvalidToken)
    \<and> (proxyBearerToken (Get (rq_header r) ''Proxy-Authorization'') = Some token \<longrightarrow>
        fst (run_state (route_access E s rt reply r) w2) = Inl (challenge reply r))"
proof -
  note mine = RevokeProgramToken_revokes [OF assms(1-4)]
  have "(db_write E (cf_master_key cfg))\<^sup>*\<^sup>* (w_db w1) (w_db w2)"
    by (rule served_written [OF started_writes [OF assms(6,7)] assms(8)])
  then have "revoked (e_sha256 E token) (w_db w2)"
    unfolding assms(5) using revoked_marks.stays_marked mine by blast
  from revoked_unusable [OF this] obtain e w3 where x: "run_state (SessionByProgramToken E token) w2 = (Inl e, w3)" by blast
  then have p: "wp (SessionByProgramToken E token) Q w2 = Q (Inl e) w3" for Q by (simp add: wp_def)
  have "wp (Authenticate E h next_handler sn reply r) (\<lambda>x _. x = Problem reply r ErrInvalidToken) w2"
    if "bearerToken (Get (rq_header r) ''Authorization'') = Some token"
    using that by (simp add: Authenticate_def wp_bind wp_return p)
  moreover have "wp (route_access E s rt reply r) (\<lambda>x _. x = Inl (challenge reply r)) w2"
    if "proxyBearerToken (Get (rq_header r) ''Proxy-Authorization'') = Some token"
  proof -
    have "proxyBearerToken [] = None" by code_simp
    then have "Get (rq_header r) ''Proxy-Authorization'' \<noteq> []" using that by auto
    with that show ?thesis by (simp add: route_access_def token_access_def wp_bind wp_return p)
  qed
  ultimately show ?thesis using mine by (auto simp: wp_run)
qed

lemma sample_revoke: "\<exists>w1. run_state (RevokeProgramToken boot_env 1 3) auth_world = (Inr (), w1)"
  by (rule run_stateI) (simp add: RevokeProgramToken_def step_simps sample_fault boot_env_def sample_env_def revoke_token_def affected_def own_live_token_def
      auth_world_def sample_world_def auth_db_def)

theorem revoked_token_refused_witness:
  "\<exists>w1. run_state (RevokeProgramToken boot_env 1 3) auth_world = (Inr (), w1)
     \<and> (\<forall>h next_handler sn reply r. bearerToken (Get (rq_header r) ''Authorization'') = Some ''tvpn_pat_x'' \<longrightarrow>
        fst (run_state (Authenticate boot_env h next_handler sn reply r) w1) = Problem reply r ErrInvalidToken)"
proof -
  obtain w1 where v: "run_state (RevokeProgramToken boot_env 1 3) auth_world = (Inr (), w1)" using sample_revoke by blast
  obtain cfg sr w2 where n: "run_state (NewServer boot_env (\<lambda>_. State_Monad.return (Inr ())) cfg) (sample_world sample_db) = (Inr sr, w2)"
      and h: "\<forall>K. Handler boot_env K cfg sr \<noteq> None" using boot_server by blast
  obtain handle where hd: "Handler boot_env undefined cfg sr = Some handle" using h by blast
  from n have n1: "fst (run_state (NewServer boot_env (\<lambda>_. State_Monad.return (Inr ())) cfg) (sample_world sample_db)) = Inr sr" by simp
  let ?k = "hd (program_tokens auth_db)"
  have k: "?k \<in> set (program_tokens (w_db auth_world))" "tk_id ?k = 3" "e_sha256 boot_env ''tvpn_pat_x'' = tk_hash ?k"
    by (simp_all add: auth_world_def sample_world_def auth_db_def boot_env_def sample_env_def)
  have d: "db_ok (w_db auth_world)" by (rule auth_db_ok)
  show ?thesis using revoked_token_refused [OF v d k n1 hd served.Start] v by blast
qed

end
