(* ===== verification/Outage.thy ===== *)
theory Outage
  imports Server
begin

text \<open>
  The server without its database: every statement and every transaction fails. No handler goes past its
  first statement, so nothing is served that has to be looked up, and nothing is sent anywhere.
\<close>

section \<open>Programs that fail at once\<close>

definition outage :: "env \<Rightarrow> bool" where
  "outage E \<longleftrightarrow> (\<forall>t. \<exists>err. e_fault E t = Some err)"

text \<open>A program that only lets time pass and fails, and one that only lets time pass and ends in a result of a set.\<close>

definition ends_in :: "'a set \<Rightarrow> 'a prog \<Rightarrow> bool" where
  "ends_in R p \<longleftrightarrow> (\<forall>w. \<exists>x t. run_state p w = (x, w\<lparr>w_tick := t\<rparr>) \<and> x \<in> R)"

definition down :: "('e + 'a) prog \<Rightarrow> bool" where
  "down p \<longleftrightarrow> ends_in (range Inl) p"

named_theorems down_intro

lemma run_bind: "run_state (State_Monad.bind p f) w = (case run_state p w of (x, v) \<Rightarrow> run_state (f x) v)"
  by (simp add: State_Monad.bind_def)

lemma run_return: "run_state (State_Monad.return x) w = (x, w)"
  by (simp add: State_Monad.return_def)

lemma same_world: "\<exists>t. w = w\<lparr>w_tick := t\<rparr>" for w :: world
  by (rule exI [of _ "w_tick w"]) simp

lemma ends_return [down_intro]: "x \<in> R \<Longrightarrow> ends_in R (State_Monad.return x)"
  using same_world by (simp add: ends_in_def run_return)

lemma ends_bind:
  assumes "ends_in R p" and "\<And>x. x \<in> R \<Longrightarrow> ends_in S (f x)" shows "ends_in S (State_Monad.bind p f)"
  unfolding ends_in_def run_bind
proof
  fix w :: world
  obtain x t where p: "run_state p w = (x, w\<lparr>w_tick := t\<rparr>)" "x \<in> R" using assms(1) unfolding ends_in_def by blast
  obtain y u where "run_state (f x) (w\<lparr>w_tick := t\<rparr>) = (y, w\<lparr>w_tick := t\<rparr>\<lparr>w_tick := u\<rparr>)" "y \<in> S"
    using assms(2) [OF p(2)] unfolding ends_in_def by blast
  then show "\<exists>y u. (case run_state p w of (x, v) \<Rightarrow> run_state (f x) v) = (y, w\<lparr>w_tick := u\<rparr>) \<and> y \<in> S" by (auto simp: p)
qed

lemma down_sql [down_intro]: "outage E \<Longrightarrow> down (sql E st)"
  unfolding down_def ends_in_def
proof
  fix w :: world assume "outage E"
  then obtain err where "e_fault E (w_tick w) = Some err" unfolding outage_def by blast
  then show "\<exists>x t. run_state (sql E st) w = (x, w\<lparr>w_tick := t\<rparr>) \<and> x \<in> range Inl" by (simp add: sql_def sql_at_def) blast
qed

lemma down_transaction [down_intro]: "outage E \<Longrightarrow> down (transaction E body)"
  unfolding down_def ends_in_def
proof
  fix w :: world assume "outage E"
  then obtain err where "e_fault E (w_tick w) = Some err" unfolding outage_def by blast
  then show "\<exists>x t. run_state (transaction E body) w = (x, w\<lparr>w_tick := t\<rparr>) \<and> x \<in> range Inl" by (simp add: transaction_def Let_def) blast
qed

lemma down_return [down_intro]: "down (State_Monad.return (Inl e))"
  by (simp add: down_def ends_return)

lemma down_ok_or [down_intro]: "down p \<Longrightarrow> down (ok_or p f)"
  unfolding ok_or_def down_def by (rule ends_bind) (auto intro!: ends_return)

lemma down_wrap_err [down_intro]: "down p \<Longrightarrow> down (wrap_err f p)"
  unfolding wrap_err_def down_def by (rule ends_bind) (auto intro!: ends_return)

lemma down_checked [down_intro]: "(\<And>x. down (f x)) \<Longrightarrow> down (ok_or (State_Monad.return v) f)"
  unfolding ok_or_def down_def by (rule ends_bind [where R = "{v}"]) (auto intro!: ends_return split: sum.split)

lemma ends_refuse [down_intro]: "Problem w r c \<in> R \<Longrightarrow> ends_in R (refuse w r c)"
  by (simp add: refuse_def ends_return)

lemma ends_attempt [down_intro]: "down p \<Longrightarrow> (\<And>e. ends_in R (err e)) \<Longrightarrow> ends_in R (attempt p err f)"
  unfolding attempt_def down_def by (rule ends_bind) auto

lemma ends_down [down_intro]: "down p \<Longrightarrow> (\<And>e. ends_in R (f (Inl e))) \<Longrightarrow> ends_in R (State_Monad.bind p f)"
  unfolding down_def by (rule ends_bind) auto

lemma ends_ignore [down_intro]: "down p \<Longrightarrow> ends_in R (f ()) \<Longrightarrow> ends_in R (State_Monad.bind (ignore p) f)"
  unfolding ignore_def skip_def down_def by (rule ends_bind, erule ends_bind) (auto intro: ends_return)

lemma down_if [down_intro]: "down p \<Longrightarrow> down q \<Longrightarrow> down (if b then p else q)"
  by simp

section \<open>The stores and the logins\<close>

lemma stores_down [down_intro]:
  assumes "outage E"
  shows "down (RouteByLabel E label)" "down (ConsumeTicket E token ttl)" "down (SessionByToken E token)" "down (SessionByProgramToken E token)"
    "down (FindUserByUsername E nm)" "down (ldap_authenticate E ls nm pw)"
  unfolding RouteByLabel_def ConsumeTicket_def SessionByToken_def SessionByProgramToken_def FindUserByUsername_def ldap_authenticate_def
    Settings_def
  by (intro down_intro assms)+

lemma authenticate_down [down_intro]:
  assumes "outage E" and "ah_ldap h = Some (ldap_authenticate E ls)" shows "down (authenticate E h nm pw)"
  unfolding down_def authenticate_def Let_def
  by (rule ends_down, rule down_intro, rule assms)
    (auto simp: assms(2) down_def [symmetric] split: option.split intro!: down_intro assms)

lemma Audit_down: "outage E \<Longrightarrow> (\<And>x. ends_in R (f x)) \<Longrightarrow> ends_in R (State_Monad.bind (Audit E a k oc ta) f)"
  unfolding Audit_def by (intro down_intro)

section \<open>The server\<close>

text \<open>The answers of a server without its database.\<close>

definition refusals :: "error_code set" where
  "refusals = {ErrUnauthorized, ErrInvalidToken, ErrInvalidCredentials, ErrInvalidRequest, ErrNotFound, ErrRouteNotFound, ErrInvalidTicket,
     ErrMisdirectedRequest}"

definition offline_replies :: "packages \<Rightarrow> reply \<Rightarrow> request \<Rightarrow> reply set" where
  "offline_replies K w r = Problem w r ` refusals
     \<union> {serveWeb K w r, write_header 405 w, writeJSON w 200 (JObj [(''status'', JStr ''ok'')]), writeJSON w 503 (JObj [(''status'', JStr ''unavailable'')])}"

lemma Authenticate_down: "outage E \<Longrightarrow> ends_in (Problem w r ` refusals) (Authenticate E h k sn w r)"
  unfolding Authenticate_def
  by (auto simp: refusals_def split: option.split intro!: down_intro)

lemma login_down:
  assumes "outage E" and "ah_ldap h = Some (ldap_authenticate E ls)"
  shows "ends_in (Problem w r ` refusals) (Login E h dec sn w r)"
  unfolding Login_def DecodeJSON_def
  by (auto simp: refusals_def split: option.split intro!: down_intro Audit_down assms)

lemma dispatch_down:
  assumes "list_all (\<lambda>(m, p, h). \<forall>param sn w r. ends_in (offline_replies K w r) (h param sn w r)) table"
  shows "ends_in (offline_replies K w r) (dispatch K mount table (not_found K) sn w r)"
proof -
  have "ends_in (offline_replies K w r) (snd (snd (table ! i)) param sn w r)" if "i < length table" for i param
    using assms that by (auto simp: list_all_length split_beta)
  then show ?thesis
    by (auto simp: dispatch_def not_found_def offline_replies_def refusals_def split: chosen.split intro!: down_intro)
qed

lemma ends_weaken: "ends_in R p \<Longrightarrow> R \<subseteq> S \<Longrightarrow> ends_in S p"
  unfolding ends_in_def by blast

lemma offline: "Problem w r ` refusals \<subseteq> offline_replies K w r"
  by (auto simp: offline_replies_def)

lemma server_routes_down:
  assumes "outage E" and "ah_ldap (sr_auth sr) = Some (ldap_authenticate E ls)"
  shows "ends_in (offline_replies K w r) (server_routes E K sr sn w r)"
proof -
  note gate = ends_weaken [OF Authenticate_down [OF assms(1)] offline]
  note login = ends_weaken [OF login_down [OF assms] offline]
  have auth: "ends_in (offline_replies K w r) (auth_api E K sr sn w r)" for sn w r
    unfolding auth_api_def by (rule dispatch_down) (simp add: gate login)
  have health: "ends_in (offline_replies K w r) (health_live sn w r)" "ends_in (offline_replies K w r) (health_ready E sn w r)" for sn w r
    unfolding health_live_def health_ready_def by (auto simp: offline_replies_def intro!: down_intro assms)
  show ?thesis
    unfolding server_routes_def
    by (rule dispatch_down) (simp add: auth gate health admin_api_def contexts_api_def upstreams_api_def)
qed

text \<open>
  C14: Without its database the server fails closed. When every statement fails, no request changes
  anything, looks up a name, asks the directory or opens a connection, and each is answered by a refusal,
  the static application or the health checks: none is authenticated, and none reaches a target.
\<close>

theorem outage_fails_closed:
  assumes "outage E" and "Handler E K cfg (assemble E cfg' s) = Some handle"
  shows "\<exists>answer t. run_state (handle reply r) w = (answer, w\<lparr>w_tick := t\<rparr>) \<and> answer \<in> offline_replies K reply r"
proof -
  have api: "ends_in (offline_replies K w r) (server_routes E K (assemble E cfg' s) sn w r)" for sn w r
    by (rule server_routes_down [OF assms(1)]) (simp add: assemble_def)
  have "ends_in (offline_replies K w r) (ServeHTTP E P D s w r)" for P D w r
    unfolding ServeHTTP_def bootstrap_def
    by (auto simp: offline_replies_def refusals_def split: option.split intro!: down_intro assms)
  then have "ends_in (offline_replies K reply r) (handle reply r)"
    using assms(2) api by (auto simp: Handler_def assemble_def offline_replies_def refusals_def intro!: down_intro split: requestHostKind.split)
  then show ?thesis unfolding ends_in_def by blast
qed

theorem outage_fails_closed_witness:
  "\<forall>K s reply r w. \<exists>handle answer t. Handler (boot_env\<lparr>e_fault := \<lambda>_. Some ''down''\<rparr>) K (read_config boot_env)
       (assemble (boot_env\<lparr>e_fault := \<lambda>_. Some ''down''\<rparr>) (read_config boot_env) s) = Some handle
     \<and> run_state (handle reply r) w = (answer, w\<lparr>w_tick := t\<rparr>) \<and> answer \<in> offline_replies K reply r"
proof (intro allI)
  fix K s reply r w
  let ?E = "boot_env\<lparr>e_fault := \<lambda>_. Some ''down''\<rparr>"
  have "outage ?E" by (simp add: outage_def)
  moreover have "url_parse ''http://app.localhost:8080'' \<noteq> None" by code_simp
  then obtain handle where "Handler ?E K (read_config boot_env) (assemble ?E (read_config boot_env) s) = Some handle"
    using boot_config by (auto simp: Handler_def)
  ultimately show "\<exists>handle answer t. Handler ?E K (read_config boot_env) (assemble ?E (read_config boot_env) s) = Some handle
     \<and> run_state (handle reply r) w = (answer, w\<lparr>w_tick := t\<rparr>) \<and> answer \<in> offline_replies K reply r"
    using outage_fails_closed by blast
qed

end
