(* ===== verification/Mux_Answers.thy ===== *)
theory Mux_Answers
  imports Mux
begin

text \<open>
  Every request of a multiplexed connection is answered: with its response in full, with one error frame,
  or with the beginning of its response and then an error frame, when reading the response's body fails.
  Only when writing to the connection fails the answer stops there.
\<close>

section \<open>Frames on the wire\<close>

definition frames :: "world \<Rightarrow> (8 word \<times> 32 word \<times> body) list" where
  "frames w = List.map_filter (\<lambda>ev. case ev of Framed k i b \<Rightarrow> Some (k, i, b) | _ \<Rightarrow> None) (w_trace w)"

text \<open>
  What a run does besides framing: it may send requests, and time passes. \<open>idle\<close> is a run of which nothing
  leaves but frames.
\<close>

definition unframed :: "world \<Rightarrow> world \<Rightarrow> bool" where
  "unframed v w \<longleftrightarrow> frames w = frames v \<and> (\<exists>evs. outgoing w = outgoing v @ evs) \<and> w_tick v \<le> w_tick w"

definition idle :: "world \<Rightarrow> world \<Rightarrow> bool" where
  "idle v w \<longleftrightarrow> outgoing w = outgoing v \<and> w_tick v \<le> w_tick w"

lemma unframed_refl: "unframed w w"
  by (simp add: unframed_def)

lemma unframed_trans: "unframed u v \<Longrightarrow> unframed v w \<Longrightarrow> unframed u w"
  by (auto simp: unframed_def)

lemma idle_trans: "idle u v \<Longrightarrow> idle v w \<Longrightarrow> idle u w"
  by (auto simp: idle_def)

lemma frames_snoc: "frames (w\<lparr>w_trace := w_trace w @ [ev]\<rparr>) = frames w @ (case ev of Framed k i b \<Rightarrow> [(k, i, b)] | _ \<Rightarrow> [])"
  by (simp add: frames_def List.map_filter_def split: event.split)

lemma frames_tick [simp]: "frames (w\<lparr>w_tick := t, w_trace := tr\<rparr>) = frames (w\<lparr>w_trace := tr\<rparr>)" "frames (w\<lparr>w_tick := t\<rparr>) = frames w"
  "frames (w\<lparr>w_tick := t, w_db := d\<rparr>) = frames w" "frames (w\<lparr>w_db := d\<rparr>) = frames w"
  by (simp_all add: frames_def)

lemma unframed_prims [keeps_intro]:
  "keeps (unframed l) tick" "keeps (unframed l) skip" "keeps (unframed l) (now E)" "keeps (unframed l) (random_bytes E n)"
  "keeps (unframed l) (new_uuid E)" "keeps (unframed l) (lookup_host E h)" "keeps (unframed l) (round_trip E tr rq)"
  "keeps (unframed l) (sql_at E at st)" "keeps (unframed l) (sql E st)"
  by (auto simp: keeps_def step_simps unframed_def frames_snoc outgoing_def split: option.split sum.split)

lemma unframed_transaction [keeps_intro]:
  assumes "\<And>at. keeps (unframed l) (body at)" shows "keeps (unframed l) (transaction E body)"
proof (rule keepsI)
  fix w assume w: "unframed l w"
  have "wp (body (e_now E (w_tick w))) (\<lambda>_. unframed l) (w\<lparr>w_tick := Suc (w_tick w)\<rparr>)"
    using assms w by (simp add: keeps_def unframed_def outgoing_def)
  then show "wp (transaction E body) (\<lambda>_. unframed l) w"
    using w by (auto simp: step_simps Let_def unframed_def outgoing_def split: option.split sum.split elim!: wp_mono)
qed

lemma unframed_loops [keeps_intro]:
  "keeps (unframed l) (load_rules E ps)" "keeps (unframed l) (SaveCookies E c i u cks)"
proof -
  show "keeps (unframed l) (load_rules E ps)" by (induction ps) (auto intro!: keeps_intro)
  have "keeps (unframed l) (save_cookie E c i u ck)" for ck
    unfolding save_cookie_def cookie_expired_def Encrypt_def by (intro keeps_intro)
  then show "keeps (unframed l) (SaveCookies E c i u cks)" by (induction cks) (auto intro!: keeps_intro)
qed

lemma unframed_parts [keeps_intro]:
  "keeps (unframed l) (normalizeClientURL E s rt v)" "keeps (unframed l) (authorize E s u raw)" "keeps (unframed l) (audit E u ty t oc)"
  "keeps (unframed l) (Cookies E c i u')" "keeps (unframed l) (VisibleCookies E c i u')" "keeps (unframed l) (make_transport E s tg rt)"
  unfolding normalizeClientURL_def RouteByLabel_def authorize_def GuardResolve_def addresses_of_def Effective_def audit_def Audit_def
    Cookies_def VisibleCookies_def jar_cookies_def make_transport_def DirectAllowed_def Authorized_def
  by (intro keeps_intro)+

lemma unframed_hops [keeps_intro]: "keeps (unframed l) (mux_hops E s rt hs n m b t)"
  by (induction n arbitrary: m b t) (auto intro!: keeps_intro)

section \<open>Answers\<close>

text \<open>
  The three forms of a complete answer, and what is sent of one when a write fails. The frames of a
  response carry a beginning of its body: in an interrupted answer, what arrived of it.
\<close>

definition error_answer :: "32 word \<Rightarrow> (8 word \<times> 32 word \<times> body) list \<Rightarrow> bool" where
  "error_answer i fs \<longleftrightarrow> (\<exists>message. fs = [(frameResponseError, i, Bytes message)])"

definition response_frames :: "32 word \<Rightarrow> response \<Rightarrow> string \<Rightarrow> (8 word \<times> 32 word \<times> body) list \<Rightarrow> bool" where
  "response_frames i response arrived fs \<longleftrightarrow> (\<exists>final visible chunks. concat chunks = arrived
     \<and> list_all (\<lambda>p. p \<noteq> [] \<and> length p \<le> 32 * 2 ^ 10) chunks
     \<and> fs = (frameResponse, i, Json (mux_metadata response final visible)) # map (\<lambda>p. (frameResponseChunk, i, Bytes p)) chunks)"

definition full_answer :: "32 word \<Rightarrow> response \<Rightarrow> (8 word \<times> 32 word \<times> body) list \<Rightarrow> bool" where
  "full_answer i response fs \<longleftrightarrow> (\<exists>sent. response_frames i response (rs_body response) sent \<and> fs = sent @ [(frameResponseEnd, i, Bytes [])])"

text \<open>
  From \<open>w\<close> to \<open>w'\<close>, the response is the answer that was got to the last request that was sent; and reading a
  body failed.
\<close>

definition received :: "env \<Rightarrow> world \<Rightarrow> world \<Rightarrow> response \<Rightarrow> bool" where
  "received E w w' response \<longleftrightarrow> (\<exists>t tr rq evs. w_tick w \<le> t \<and> t < w_tick w' \<and> outgoing w' = outgoing w @ evs @ [Sent tr rq]
     \<and> e_round_trip E t tr rq = Inr response)"

definition interrupted_answer :: "env \<Rightarrow> 32 word \<Rightarrow> world \<Rightarrow> world \<Rightarrow> response \<Rightarrow> (8 word \<times> 32 word \<times> body) list \<Rightarrow> bool" where
  "interrupted_answer E i w w' response fs \<longleftrightarrow> (\<exists>t n sent. w_tick w \<le> t \<and> t < w_tick w' \<and> e_read_error E t = Some n
     \<and> response_frames i response (take n (rs_body response)) sent
     \<and> fs = sent @ [(frameResponseError, i, Bytes ''error.proxy.mux.response_interrupted'')])"

definition complete :: "env \<Rightarrow> 32 word \<Rightarrow> world \<Rightarrow> world \<Rightarrow> (8 word \<times> 32 word \<times> body) list \<Rightarrow> bool" where
  "complete E i w w' fs \<longleftrightarrow> error_answer i fs
     \<or> (\<exists>response. received E w w' response \<and> (full_answer i response fs \<or> interrupted_answer E i w w' response fs))"

text \<open>The last step of a run was a write that failed.\<close>

definition write_failed :: "env \<Rightarrow> world \<Rightarrow> bool" where
  "write_failed E w \<longleftrightarrow> e_fault E (w_tick w - 1) \<noteq> None"

definition sends :: "env \<Rightarrow> (8 word \<times> 32 word \<times> body) list \<Rightarrow> world \<Rightarrow> world \<Rightarrow> bool" where
  "sends E fs w w' \<longleftrightarrow> (\<exists>n. frames w' = frames w @ take n fs \<and> (length fs \<le> n \<or> write_failed E w'))"

lemma mux_send_sends: "wp (mux_send E k i b) (\<lambda>r w'. case r of Inl _ \<Rightarrow> frames w' = frames w \<and> write_failed E w'
    | Inr _ \<Rightarrow> frames w' = frames w @ [(k, i, b)]) w"
  by (auto simp: wp_def mux_send_def write_failed_def frames_snoc split: option.split)

lemma mux_send_idle: "keeps (idle v) (mux_send E k i b)"
  by (auto simp: keeps_def wp_def mux_send_def idle_def outgoing_def split: option.split)

lemma send_pieces_idle: "keeps (idle v) (send_pieces E i whole ps)"
  by (induction ps) (auto intro!: keeps_intro mux_send_idle)

lemma idle_wp: "(\<And>v. keeps (idle v) p) \<Longrightarrow> wp p R w \<Longrightarrow> wp p (\<lambda>x w'. R x w' \<and> idle w w') w"
  by (auto simp: keeps_def wp_run idle_def)

definition last_frame :: "32 word \<Rightarrow> bool \<Rightarrow> 8 word \<times> 32 word \<times> body" where
  "last_frame i whole = (if whole then (frameResponseEnd, i, Bytes []) else (frameResponseError, i, Bytes ''error.proxy.mux.response_interrupted''))"

lemma send_pieces_sends:
  "wp (send_pieces E i whole ps) (\<lambda>_ w'. sends E (map (\<lambda>p. (frameResponseChunk, i, Bytes p)) ps @ [last_frame i whole]) w w') w"
proof (induction ps arbitrary: w)
  case Nil
  have "wp (mux_send E k i b) (\<lambda>_ w'. sends E [(k, i, b)] w w') w" for k b
    by (rule wp_mono [OF mux_send_sends])
      (auto simp: sends_def intro: exI [of _ "0 :: nat"] exI [of _ "1 :: nat"] split: sum.splits)
  then show ?case by (simp add: last_frame_def)
next
  case (Cons p ps)
  show ?case unfolding send_pieces.simps
  proof (rule wp_seq [OF mux_send_sends], goal_cases)
    case (1 e w')
    then show ?case by (auto simp: sends_def intro: exI [of _ "0 :: nat"])
  next
    case (2 x w1)
    show ?case
    proof (rule wp_mono [OF Cons.IH], goal_cases)
      case (1 y w')
      then obtain n where "frames w' = frames w1 @ take n (map (\<lambda>p. (frameResponseChunk, i, Bytes p)) ps @ [last_frame i whole])"
          "Suc (length ps) \<le> n \<or> write_failed E w'" by (auto simp: sends_def)
      with 2 show ?case by (auto simp: sends_def intro!: exI [of _ "Suc n"])
    qed
  qed
qed

lemma pieces_whole: "0 < n \<Longrightarrow> concat (pieces n s) = s \<and> list_all (\<lambda>p. p \<noteq> [] \<and> length p \<le> n) (pieces n s)"
proof (induction n s rule: pieces.induct)
  case (1 n s)
  then show ?case by (subst (1 2) pieces.simps) auto
qed

lemma wp_ok_or_any: "(\<And>e w'. Q (Inl e) w') \<Longrightarrow> (\<And>x w'. wp (f x) Q w') \<Longrightarrow> wp (ok_or p f) Q w"
  by (rule wp_seq [where R = "\<lambda>_ _. True"]) (simp_all add: wp_any)

lemma received_idle: "received E v w response \<Longrightarrow> idle w w' \<Longrightarrow> received E v w' response"
  unfolding received_def idle_def by (metis order.strict_trans2)

lemma unframed_wp: "(\<And>v. keeps (unframed v) p) \<Longrightarrow> wp p (\<lambda>_ w'. unframed w w') w"
  by (simp add: keeps_def unframed_refl)

lemma round_trip_received:
  "unframed v w \<Longrightarrow> wp (round_trip E tr rq) (\<lambda>r w'. unframed v w' \<and> (case r of Inl _ \<Rightarrow> True | Inr response \<Rightarrow> received E v w' response)) w"
  unfolding wp_round_trip
  by (auto simp: unframed_def received_def frames_snoc outgoing_def intro!: exI [of _ "w_tick w"] split: sum.split)

lemma mux_hops_received:
  assumes "unframed v w"
  shows "wp (mux_hops E s rt hs n m b t) (\<lambda>r w'. case r of Inl _ \<Rightarrow> True | Inr (response, _) \<Rightarrow> received E v w' response) w"
  using assms
proof (induction n arbitrary: m b t w)
  case (Suc n)
  let ?Q = "\<lambda>r w'. case r of Inl _ \<Rightarrow> True | Inr (response, _) \<Rightarrow> received E v w' response"
  have part: "wp (ok_or p f) ?Q u" if "\<And>v. keeps (unframed v) p" "unframed v u" "\<And>x u'. unframed v u' \<Longrightarrow> wp (f x) ?Q u'"
    for p :: "'e result prog" and f u
    by (rule wp_seq [OF unframed_wp [OF that(1)]]) (use that(2,3) in \<open>auto intro: unframed_trans\<close>)
  have saved: "wp (SaveCookies E c ctx u cks) (\<lambda>_ u'. unframed v u' \<and> received E v u' response) u1"
    if "unframed v u1" "received E v u1 response" for c ctx u cks response u1
  proof -
    have "wp (SaveCookies E c ctx u cks) (\<lambda>_ u'. unframed u1 u') u1" by (intro unframed_wp keeps_intro)
    moreover have "wp (SaveCookies E c ctx u cks) (\<lambda>_ u'. outgoing u' = outgoing u1) u1" by (intro wp_quiet keeps_intro)
    ultimately show ?thesis
      using that unframed_trans received_idle [OF that(2)] by (auto simp: wp_run idle_def unframed_def)
  qed
  show ?case unfolding mux_hops.simps
  proof (rule part [OF _ Suc.prems], (rule keeps_intro)+, goal_cases)
    case (1 rq u1)
    show ?case
    proof (rule part [OF _ 1], (rule keeps_intro)+, goal_cases)
      case (1 cookies u2)
      show ?case
      proof (rule part [OF _ 1], (rule keeps_intro)+, goal_cases)
        case (1 tr u3)
        show ?case
        proof (rule wp_seq [OF round_trip_received [OF 1]], goal_cases)
          case (2 response u4)
          then have u4: "unframed v u4" "received E v u4 response" by simp_all
          show ?case
          proof (rule wp_seq [OF saved [OF u4]], goal_cases)
            case (2 x u5)
            then have u5: "unframed v u5" "received E v u5 response" by simp_all
            show ?case using u5 Suc.IH
              by (auto simp: wp_return split: option.split intro!: part keeps_intro)
          qed simp
        qed simp
      qed
    qed
  qed
qed (simp add: wp_return)

lemma sends_from: "frames v = frames w \<Longrightarrow> sends E fs v w' \<Longrightarrow> sends E fs w w'"
  by (simp add: sends_def)

lemma muxError_sends: "wp (muxError E i m) (\<lambda>_ w'. sends E [(frameResponseError, i, Bytes m)] w w') w"
  unfolding muxError_def wp_ignore
  by (rule wp_mono [OF mux_send_sends])
    (auto simp: sends_def intro: exI [of _ "0 :: nat"] exI [of _ "1 :: nat"] split: sum.splits)

definition respond :: "env \<Rightarrow> 32 word \<Rightarrow> response \<Rightarrow> target \<Rightarrow> cookie list \<Rightarrow> unit result prog" where
  "respond E i response final visible = ok_or (mux_send E frameResponse i (Json (mux_metadata response final visible))) (\<lambda>_. do {
     (arrived, whole) \<leftarrow> read_body E response;
     send_pieces E i whole (pieces (32 * 2 ^ 10) arrived) })"

lemma respond_sends:
  assumes "received E v w response" and "frames w = frames v" and "w_tick v \<le> w_tick w"
  shows "wp (respond E i response final visible) (\<lambda>_ w'. \<exists>fs. complete E i v w' fs \<and> sends E fs v w') w"
proof -
  let ?meta = "(frameResponse, i, Json (mux_metadata response final visible))"
  let ?rest = "\<lambda>arrived whole. map (\<lambda>p. (frameResponseChunk, i, Bytes p)) (pieces (32 * 2 ^ 10) arrived) @ [last_frame i whole]"
  have frames: "response_frames i response arrived (?meta # map (\<lambda>p. (frameResponseChunk, i, Bytes p)) (pieces (32 * 2 ^ 10) arrived))" for arrived
    unfolding response_frames_def using pieces_whole [of "32 * 2 ^ 10" arrived] by fastforce
  have full: "complete E i v w' (?meta # ?rest (rs_body response) True)" if "idle w w'" for w'
    using received_idle [OF assms(1) that] frames [of "rs_body response"] by (auto simp: complete_def full_answer_def last_frame_def)
  have cut: "complete E i v w' (?meta # ?rest (take n (rs_body response)) False)"
    if "e_read_error E t = Some n" "w_tick v \<le> t" "t < w_tick w'" "idle w w'" for n t w'
    using that(1-3) received_idle [OF assms(1) that(4)] frames [of "take n (rs_body response)"]
    by (fastforce simp: complete_def interrupted_answer_def last_frame_def)
  have onward: "wp (send_pieces E i whole (pieces (32 * 2 ^ 10) arrived)) (\<lambda>_ w'. \<exists>fs. complete E i v w' fs \<and> sends E fs v w') w2"
    if "\<And>w'. idle w2 w' \<Longrightarrow> complete E i v w' (?meta # ?rest arrived whole)" "frames w2 = frames v @ [?meta]" for arrived whole w2
  proof (rule wp_mono [OF idle_wp [OF send_pieces_idle send_pieces_sends]], goal_cases)
    case (1 y w')
    then obtain n where "frames w' = frames w2 @ take n (?rest arrived whole)" "length (?rest arrived whole) \<le> n \<or> write_failed E w'"
      by (auto simp: sends_def)
    with that(2) have "sends E (?meta # ?rest arrived whole) v w'" by (auto simp: sends_def intro!: exI [of _ "Suc n"])
    with that(1) 1 show ?case by blast
  qed
  show ?thesis unfolding respond_def
  proof (rule wp_seq [OF idle_wp [OF mux_send_idle mux_send_sends]], goal_cases)
    case (1 e w')
    then have "sends E (?meta # ?rest (rs_body response) True) v w'" using assms(2) by (auto simp: sends_def intro: exI [of _ "0 :: nat"])
    with full 1 show ?case by blast
  next
    case (2 x w1)
    let ?w2 = "w1\<lparr>w_tick := Suc (w_tick w1)\<rparr>"
    from 2 have f: "frames ?w2 = frames v @ [?meta]" and idle: "idle w ?w2" using assms(2) by (auto simp: idle_def outgoing_def)
    have t: "w_tick v \<le> w_tick w1" using 2 assms(3) by (simp add: idle_def)
    show ?case unfolding wp_bind wp_read_body
    proof (cases "e_read_error E (w_tick w1)", goal_cases)
      case 1
      show ?case unfolding 1 option.case prod.case by (rule onward [OF full f]) (rule idle_trans [OF idle])
    next
      case (2 n)
      show ?case unfolding 2 option.case prod.case
      proof (rule onward [OF cut [OF 2 t] f], goal_cases)
        case (1 w')
        then show ?case by (simp add: idle_def)
      next
        case (2 w')
        then show ?case by (rule idle_trans [OF idle])
      qed
    qed
  qed
qed

definition answered :: "env \<Rightarrow> 32 word \<Rightarrow> world \<Rightarrow> world \<Rightarrow> bool" where
  "answered E i w w' \<longleftrightarrow> (\<exists>fs. complete E i w w' fs \<and> sends E fs w w')"

lemma answered_error: "frames v = frames w \<Longrightarrow> wp (muxError E i m) (\<lambda>_. answered E i w) v"
  by (rule wp_mono [OF muxError_sends]) (auto simp: answered_def complete_def error_answer_def dest: sends_from)

lemma answered_response:
  assumes "received E w v response" and "unframed w v"
  shows "wp (do {
        found \<leftarrow> VisibleCookies E c j u;
        (let visible = (case found of Inl _ \<Rightarrow> [] | Inr cks \<Rightarrow> cks) in
         ignore (respond E i response final visible)) }) (\<lambda>_. answered E i w) v"
proof -
  have "wp (VisibleCookies E c j u) (\<lambda>_ v'. unframed v v') v" by (intro unframed_wp keeps_intro)
  moreover have "wp (VisibleCookies E c j u) (\<lambda>_ v'. outgoing v' = outgoing v) v" by (intro wp_quiet keeps_intro)
  ultimately have k: "wp (VisibleCookies E c j u) (\<lambda>_ v'. received E w v' response \<and> frames v' = frames w \<and> w_tick w \<le> w_tick v') v"
    using received_idle [OF assms(1)] assms(2) by (auto simp: wp_run idle_def unframed_def)
  show ?thesis unfolding Let_def
    by (rule wp_then [OF k], unfold wp_ignore, rule wp_mono [OF respond_sends]) (auto simp: answered_def)
qed

lemma answered_round_trip:
  assumes "unframed w v"
  shows "wp (attempt (muxRoundTrip E s rt t meta body) (\<lambda>_. muxError E i m) (\<lambda>(response, final). do {
        found \<leftarrow> VisibleCookies E c j (httpCookieURL (t_url final));
        (let visible = (case found of Inl _ \<Rightarrow> [] | Inr cks \<Rightarrow> cks) in
         ignore (respond E i response final visible)) })) (\<lambda>_. answered E i w) v"
proof -
  have "wp (muxRoundTrip E s rt t meta body) (\<lambda>_ w'. unframed v w') v"
    unfolding muxRoundTrip_def by (intro unframed_wp keeps_intro)
  moreover have "wp (muxRoundTrip E s rt t meta body) (\<lambda>r w'. case r of Inl _ \<Rightarrow> True | Inr (response, _) \<Rightarrow> received E w w' response) v"
    unfolding muxRoundTrip_def by (rule mux_hops_received [OF assms])
  ultimately have "wp (muxRoundTrip E s rt t meta body) (\<lambda>r w'. unframed w w'
      \<and> (case r of Inl _ \<Rightarrow> True | Inr (response, _) \<Rightarrow> received E w w' response)) v"
    using unframed_trans [OF assms] by (auto simp: wp_run)
  then show ?thesis unfolding wp_attempt
  proof (rule wp_mono, goal_cases)
    case (1 r w1)
    show ?case
    proof (cases r)
      case (Inl e)
      then show ?thesis using 1 by (simp add: answered_error unframed_def)
    next
      case (Inr x)
      obtain response final where x: "x = (response, final)" by (cases x)
      show ?thesis unfolding Inr x sum.case prod.case by (rule answered_response) (use 1 Inr x in simp_all)
    qed
  qed
qed

text \<open>
  C19: Every request of a multiplexed connection is answered. Executing a stream ends with a complete
  answer under the stream's identifier. It is one error frame; or the metadata of the response that was
  received to the last request the stream sent, its whole body in frames of at most 32 KiB, and an end
  frame; or, when reading that body failed, the metadata, the part of the body that arrived in such frames,
  and the error frame response_interrupted. Only if writing a frame fails the answer stops there, and what
  was sent is the beginning of a complete one. Nothing else is sent.
\<close>

theorem mux_request_answered: "wp (executeMux E s rt i st) (\<lambda>_ w'. \<exists>fs. complete E i w w' fs \<and> sends E fs w w') w"
proof (cases "mx_method (ms_meta st) = ''CONNECT'' \<or> mx_method (ms_meta st) = ''TRACE''")
  case True
  show ?thesis unfolding executeMux_def if_P [OF True] answered_def [symmetric] by (rule answered_error) (rule refl)
next
  case False
  have n: "wp (normalizeClientURL E s rt v) (\<lambda>_ w'. unframed w w') w" for v
    by (intro unframed_wp keeps_intro)
  have a: "wp (authorize E s u raw) (\<lambda>_ w'. unframed v w') v" and l: "wp (audit E u ty raw oc) (\<lambda>_ w'. unframed v w') v" for u ty raw oc v
    by (intro unframed_wp keeps_intro)+
  show ?thesis unfolding executeMux_def if_not_P [OF False] answered_def [symmetric] respond_def [symmetric]
  proof (rule wp_then [OF n], rule wp_then [OF a], goal_cases)
    case (1 raw w1 found w2)
    then have w2: "unframed w w2" by (rule unframed_trans)
    show ?case
    proof (cases "case found of Inl _ \<Rightarrow> None | Inr (t, d) \<Rightarrow> if Allowed d then Some t else None")
      case None
      show ?thesis unfolding None option.case by (rule wp_then [OF l], rule answered_error) (use w2 in \<open>auto simp: unframed_def\<close>)
    next
      case (Some t)
      show ?thesis unfolding Some option.case by (rule answered_round_trip [OF w2])
    qed
  qed
qed

end
