(* ===== verification/Go_Client.thy ===== *)
theory Go_Client
  imports Effects
begin

text \<open>
  \<open>http.Client.Do\<close> of \<open>net/http\<close>, as the client library uses it: a request and the redirects it leads
  to, each checked by \<open>CheckRedirect\<close>. A client is its transport and its check; it has no cookie jar. How
  many redirects there are is up to the check, so a call may never return, which is \<open>None\<close>. Which headers
  a redirect to another site drops, and which one that drops the body, differs between releases of
  \<open>net/http\<close> and is a parameter.
\<close>

section \<open>Calls\<close>

text \<open>A call changes the world and returns, or never returns.\<close>

type_synonym 'a call = "world \<Rightarrow> ('a \<times> world) option"

definition give :: "'a \<Rightarrow> 'a call" where
  "give x w = Some (x, w)"

definition and_then :: "'a call \<Rightarrow> ('a \<Rightarrow> 'b call) \<Rightarrow> 'b call" where
  "and_then p f w = (case p w of None \<Rightarrow> None | Some (x, v) \<Rightarrow> f x v)"

definition on_ok :: "('e + 'a) call \<Rightarrow> ('a \<Rightarrow> ('e + 'b) call) \<Rightarrow> ('e + 'b) call" where
  "on_ok p f = and_then p (\<lambda>r. case r of Inl e \<Rightarrow> give (Inl e) | Inr x \<Rightarrow> f x)"

text \<open>A program without such calls always returns.\<close>

definition effect :: "'a prog \<Rightarrow> 'a call" where
  "effect p w = Some (run_state p w)"

section \<open>Redirects\<close>

datatype check = Follow request | Refused string | Use_Last

type_synonym redirect_policy = "request \<Rightarrow> request list \<Rightarrow> check"

record http_client =
  hc_transport :: transport
  hc_check :: "redirect_policy option"

record http_package =
  hp_sensitive :: "string \<Rightarrow> bool"
  hp_describes_body :: "string \<Rightarrow> bool"

text \<open>A body that can be read again, one that cannot, or none.\<close>

datatype reader = No_Body | Rewindable string | Stream string

definition content :: "reader \<Rightarrow> string" where
  "content b = (case b of No_Body \<Rightarrow> [] | Rewindable s \<Rightarrow> s | Stream s \<Rightarrow> s)"

definition default_check :: redirect_policy where
  "default_check rq via = (if 10 \<le> length via then Refused ''stopped after 10 redirects'' else Follow rq)"

definition redirect_method :: "nat \<Rightarrow> string \<Rightarrow> string" where
  "redirect_method status m = (if status \<in> {301, 302, 303} \<and> m \<noteq> ''GET'' \<and> m \<noteq> ''HEAD'' then ''GET'' else m)"

definition resends_body :: "nat \<Rightarrow> bool" where
  "resends_body status \<longleftrightarrow> status \<in> {307, 308}"

definition redirected :: "reader \<Rightarrow> nat \<Rightarrow> bool" where
  "redirected b status \<longleftrightarrow> status \<in> {301, 302, 303} \<or> resends_body status \<and> (case b of Stream _ \<Rightarrow> False | _ \<Rightarrow> True)"

definition ascii_host :: "env \<Rightarrow> url \<Rightarrow> string" where
  "ascii_host E u = (let h = Hostname u in
     if list_all (\<lambda>c. code c < 128) h then h else (case e_idna E h of Some a \<Rightarrow> a | None \<Rightarrow> h))"

definition isDomainOrSubdomain :: "string \<Rightarrow> string \<Rightarrow> bool" where
  "isDomainOrSubdomain sub parent \<longleftrightarrow> sub = parent
     \<or> \<not> ContainsAny sub '':%'' \<and> HasSuffix sub parent \<and> sub ! (length sub - length parent - 1) = CHR ''.''"

definition crosses_site :: "env \<Rightarrow> url \<Rightarrow> url \<Rightarrow> bool" where
  "crosses_site E initial dest \<longleftrightarrow> u_host initial \<noteq> u_host dest \<and> \<not> isDomainOrSubdomain (ascii_host E dest) (ascii_host E initial)"

definition copied_header :: "http_package \<Rightarrow> bool \<Rightarrow> bool \<Rightarrow> header \<Rightarrow> header" where
  "copied_header H strip with_body h = (\<lambda>name.
     if hp_sensitive H (CanonicalHeaderKey name) \<and> strip \<or> hp_describes_body H (CanonicalHeaderKey name) \<and> \<not> with_body then None else h name)"

definition referer :: "url \<Rightarrow> url \<Rightarrow> header \<Rightarrow> string" where
  "referer prev dest h =
    (if u_scheme prev = ''https'' \<and> u_scheme dest = ''http'' then []
     else if Get h ''Referer'' \<noteq> [] then Get h ''Referer''
     else url_string (prev\<lparr>u_user := None\<rparr>))"

text \<open>
  The request after a redirect: what the response asks for, the headers of the first request but for
  those that are dropped, and the body if every hop keeps it. The flags say that a hop left the site, and
  that all keep the body.
\<close>

datatype hop = Final | Broken string | Hop request bool bool

definition next_hop :: "http_package \<Rightarrow> env \<Rightarrow> reader \<Rightarrow> request \<Rightarrow> bool \<Rightarrow> bool \<Rightarrow> request \<Rightarrow> response \<Rightarrow> hop" where
  "next_hop H E b first strip with_body rq rs =
    (let loc = Get (rs_header rs) ''Location'' in
     if \<not> redirected b (rs_status rs) \<or> loc = [] then Final
     else (case url_parse_ref (rq_url rq) loc of
         None \<Rightarrow> Broken ''failed to parse Location header''
       | Some u \<Rightarrow>
           (let with_body' = (with_body \<and> resends_body (rs_status rs)); strip' = (strip \<or> crosses_site E (rq_url first) u);
                h = copied_header H strip' with_body' (rq_header first); ref = referer (rq_url rq) u h
            in Hop \<lparr>rq_method = redirect_method (rs_status rs) (rq_method rq), rq_url = u, rq_host = u_host u,
                  rq_header = (if ref \<noteq> [] then hSet ''Referer'' ref h else h), rq_body = (if with_body' then content b else [])\<rparr>
                strip' with_body')))"

text \<open>Credentials of the URL become a header when the request has none.\<close>

definition basic_auth :: "url \<Rightarrow> string option" where
  "basic_auth u = (case u_user u of
     None \<Rightarrow> None
   | Some (User name) \<Rightarrow> Some (''Basic '' @ Std_Encode (name @ '':''))
   | Some (UserPassword name password) \<Rightarrow> Some (''Basic '' @ Std_Encode (name @ '':'' @ password)))"

definition with_credentials :: "request \<Rightarrow> request" where
  "with_credentials rq = (case basic_auth (rq_url rq) of
     Some auth \<Rightarrow> if Get (rq_header rq) ''Authorization'' = [] then rq\<lparr>rq_header := hSet ''Authorization'' auth (rq_header rq)\<rparr> else rq
   | None \<Rightarrow> rq)"

partial_function (option) follow :: "http_package \<Rightarrow> env \<Rightarrow> transport \<Rightarrow> redirect_policy \<Rightarrow> reader \<Rightarrow> request list \<Rightarrow> bool \<Rightarrow> bool \<Rightarrow> request
    \<Rightarrow> world \<Rightarrow> (response result \<times> world) option" where
  "follow H E tr policy b via strip with_body rq w = (case run_state (round_trip E tr (with_credentials rq)) w of
     (Inl err, v) \<Rightarrow> Some (Inl err, v)
   | (Inr rs, v) \<Rightarrow> (case next_hop H E b (hd (via @ [rq])) strip with_body rq rs of
       Final \<Rightarrow> Some (Inr rs, v)
     | Broken err \<Rightarrow> Some (Inl err, v)
     | Hop rq' strip' with_body' \<Rightarrow> (case policy rq' (via @ [rq]) of
         Use_Last \<Rightarrow> Some (Inr rs, v)
       | Refused err \<Rightarrow> Some (Inl err, v)
       | Follow rq'' \<Rightarrow> follow H E tr policy b (via @ [rq]) strip' with_body' rq'' v)))"

definition policy_of :: "http_client \<Rightarrow> redirect_policy" where
  "policy_of hc = (case hc_check hc of None \<Rightarrow> default_check | Some p \<Rightarrow> p)"

definition http_do :: "http_package \<Rightarrow> env \<Rightarrow> http_client \<Rightarrow> reader \<Rightarrow> request \<Rightarrow> response result call" where
  "http_do H E hc b rq = follow H E (hc_transport hc) (policy_of hc) b [] False True rq"

section \<open>Calls that return\<close>

text \<open>
  A call that always returns: it sends at most so many requests, each as described, and leaves the
  database alone.
\<close>

definition returns_within :: "(transport \<Rightarrow> request \<Rightarrow> bool) \<Rightarrow> nat \<Rightarrow> 'a call \<Rightarrow> bool" where
  "returns_within P n p \<longleftrightarrow> (\<forall>w. \<exists>r v es. p w = Some (r, v) \<and> w_db v = w_db w \<and> w_trace v = w_trace w @ es \<and> length es \<le> n
     \<and> (\<forall>e \<in> set es. \<exists>tr rq. e = Sent tr rq \<and> P tr rq))"

lemma returns_withinD:
  assumes "returns_within P n p"
  obtains r v es where "p w = Some (r, v)" "w_db v = w_db w" "w_trace v = w_trace w @ es" "length es \<le> n"
    "\<forall>e \<in> set es. \<exists>tr rq. e = Sent tr rq \<and> P tr rq"
  using assms unfolding returns_within_def by (elim allE [where x = w] exE conjE) (rule that)

lemma returns_give [intro]: "returns_within P n (give x)"
  unfolding returns_within_def give_def by (intro allI exI [where x = x] exI exI [where x = "[]"]) simp

lemma returns_weaken: "returns_within P n p \<Longrightarrow> n \<le> m \<Longrightarrow> (\<And>tr rq. P tr rq \<Longrightarrow> Q tr rq) \<Longrightarrow> returns_within Q m p"
  unfolding returns_within_def by (meson order_trans)

lemma returns_then:
  assumes "returns_within P n p" "\<And>x. returns_within P m (f x)"
  shows "returns_within P (n + m) (and_then p f)"
  unfolding returns_within_def
proof
  fix w
  obtain x v es where p: "p w = Some (x, v)" "w_db v = w_db w" "w_trace v = w_trace w @ es" "length es \<le> n"
    "\<forall>e \<in> set es. \<exists>tr rq. e = Sent tr rq \<and> P tr rq" by (rule returns_withinD [OF assms(1)])
  obtain y v' es' where f: "f x v = Some (y, v')" "w_db v' = w_db v" "w_trace v' = w_trace v @ es'" "length es' \<le> m"
    "\<forall>e \<in> set es'. \<exists>tr rq. e = Sent tr rq \<and> P tr rq" by (rule returns_withinD [OF assms(2)])
  show "\<exists>r v es. and_then p f w = Some (r, v) \<and> w_db v = w_db w \<and> w_trace v = w_trace w @ es \<and> length es \<le> n + m
      \<and> (\<forall>e \<in> set es. \<exists>tr rq. e = Sent tr rq \<and> P tr rq)"
    using p f by (intro exI [where x = y] exI [where x = v'] exI [where x = "es @ es'"]) (auto simp: and_then_def)
qed

lemma returns_on_ok:
  "returns_within P n p \<Longrightarrow> (\<And>x. returns_within P m (f x)) \<Longrightarrow> returns_within P (n + m) (on_ok p f)"
  unfolding on_ok_def by (rule returns_then) (auto split: sum.split)

lemma run_round_trip:
  "run_state (round_trip E tr rq) w = (e_round_trip E (w_tick w) tr rq, w\<lparr>w_tick := Suc (w_tick w), w_trace := w_trace w @ [Sent tr rq]\<rparr>)"
  by (simp add: round_trip_def)

lemma follow_final: "run_state (round_trip E tr (with_credentials rq)) w = (Inr rs, v) \<Longrightarrow> \<not> redirected b (rs_status rs) \<Longrightarrow>
  follow H E tr policy b via strip wb rq w = Some (Inr rs, v)"
  by (subst follow.simps) (simp add: next_hop_def Let_def)

lemma follow_hop: "run_state (round_trip E tr (with_credentials rq)) w = (Inr rs, v) \<Longrightarrow>
  next_hop H E b (hd (via @ [rq])) strip wb rq rs = Hop rq' strip' wb' \<Longrightarrow> policy rq' (via @ [rq]) = Follow rq'' \<Longrightarrow>
  follow H E tr policy b via strip wb rq w = follow H E tr policy b (via @ [rq]) strip' wb' rq'' v"
  by (subst follow.simps) simp

text \<open>The same, of a call whose first request is known.\<close>

definition returns_after :: "event \<Rightarrow> (transport \<Rightarrow> request \<Rightarrow> bool) \<Rightarrow> nat \<Rightarrow> 'a call \<Rightarrow> bool" where
  "returns_after e P n p \<longleftrightarrow> (\<forall>w. \<exists>r v es. p w = Some (r, v) \<and> w_db v = w_db w \<and> w_trace v = w_trace w @ e # es \<and> length es < n
     \<and> (\<forall>e \<in> set es. \<exists>tr rq. e = Sent tr rq \<and> P tr rq))"

lemma returns_afterI:
  fixes p :: "'a call"
  assumes "\<And>w. \<exists>r v es. p w = Some (r, v) \<and> w_db v = w_db w \<and> w_trace v = w_trace w @ e # es \<and> length es < n
     \<and> (\<forall>e \<in> set es. \<exists>tr rq. e = Sent tr rq \<and> P tr rq)"
  shows "returns_after e P n p"
  using assms by (simp add: returns_after_def)

lemma returns_afterD:
  fixes p :: "'a call"
  assumes "returns_after e P n p"
  obtains r v es where "p w = Some (r, v)" "w_db v = w_db w" "w_trace v = w_trace w @ e # es" "length es < n"
    "\<forall>e \<in> set es. \<exists>tr rq. e = Sent tr rq \<and> P tr rq"
  using assms unfolding returns_after_def by (elim allE [where x = w] exE conjE) (rule that)

lemma returns_after_within:
  assumes "returns_after (Sent tr rq) P n p" "P tr rq"
  shows "returns_within P n p"
  unfolding returns_within_def
proof
  fix w
  obtain r v es where "p w = Some (r, v)" "w_db v = w_db w" "w_trace v = w_trace w @ Sent tr rq # es" "length es < n"
    "\<forall>e \<in> set es. \<exists>tr rq. e = Sent tr rq \<and> P tr rq" by (rule returns_afterD [OF assms(1)])
  then show "\<exists>r v es. p w = Some (r, v) \<and> w_db v = w_db w \<and> w_trace v = w_trace w @ es \<and> length es \<le> n
      \<and> (\<forall>e \<in> set es. \<exists>tr rq. e = Sent tr rq \<and> P tr rq)"
    using assms(2) by (intro exI [where x = r] exI [where x = v] exI [where x = "Sent tr rq # es"]) auto
qed

text \<open>A check that stops after ten requests makes the client return.\<close>

lemma follow_returns:
  assumes check: "\<And>rq via rq'. policy rq via = Follow rq' \<Longrightarrow> length via < 10 \<and> P tr (with_credentials rq')"
  shows "length via < 10
    \<Longrightarrow> returns_after (Sent tr (with_credentials rq)) P (10 - length via) (follow H E tr policy b via strip wb rq)"
proof (induction "10 - length via" arbitrary: via strip wb rq)
  case 0
  then show ?case by simp
next
  case (Suc n)
  show ?case
  proof (rule returns_afterI)
    fix w :: world
    define v where "v = w\<lparr>w_tick := Suc (w_tick w), w_trace := w_trace w @ [Sent tr (with_credentials rq)]\<rparr>"
    let ?done = "\<exists>r v' es. follow H E tr policy b via strip wb rq w = Some (r, v') \<and> w_db v' = w_db w
        \<and> w_trace v' = w_trace w @ Sent tr (with_credentials rq) # es \<and> length es < 10 - length via
        \<and> (\<forall>e \<in> set es. \<exists>tr rq. e = Sent tr rq \<and> P tr rq)"
    have stop: ?done if "follow H E tr policy b via strip wb rq w = Some (r, v)" for r
      using that Suc.prems by (intro exI [where x = r] exI [where x = v] exI [where x = "[]"]) (simp add: v_def)
    show ?done
    proof (cases "e_round_trip E (w_tick w) tr (with_credentials rq)")
      case (Inl err)
      then show ?thesis by (intro stop) (subst follow.simps, simp add: run_round_trip v_def)
    next
      case (Inr rs)
      show ?thesis
      proof (cases "next_hop H E b (hd (via @ [rq])) strip wb rq rs")
        case Final
        then show ?thesis using Inr by (intro stop) (subst follow.simps, simp add: run_round_trip v_def)
      next
        case (Broken err)
        then show ?thesis using Inr by (intro stop) (subst follow.simps, simp add: run_round_trip v_def)
      next
        case (Hop rq' strip' wb')
        show ?thesis
        proof (cases "policy rq' (via @ [rq])")
          case (Follow rq'')
          then have less: "length (via @ [rq]) < 10" and P: "P tr (with_credentials rq'')" using check by blast+
          have "returns_after (Sent tr (with_credentials rq'')) P (10 - length (via @ [rq]))
              (follow H E tr policy b (via @ [rq]) strip' wb' rq'')"
            using Suc.hyps(2) less by (intro Suc.hyps(1)) simp_all
          then obtain r v' es where f: "follow H E tr policy b (via @ [rq]) strip' wb' rq'' v = Some (r, v')" "w_db v' = w_db v"
            "w_trace v' = w_trace v @ Sent tr (with_credentials rq'') # es" "length es < 10 - length (via @ [rq])"
            "\<forall>e \<in> set es. \<exists>tr rq. e = Sent tr rq \<and> P tr rq"
            by (rule returns_afterD)
          have "follow H E tr policy b via strip wb rq w = Some (r, v')"
            using Inr Hop Follow f(1) by (subst follow.simps) (simp add: run_round_trip v_def)
          then show ?thesis using f(2-5) P
            by (intro exI [where x = r] exI [where x = v'] exI [where x = "Sent tr (with_credentials rq'') # es"])
              (auto simp: v_def)
        next
          case (Refused err)
          then show ?thesis using Inr Hop by (intro stop) (subst follow.simps, simp add: run_round_trip v_def)
        next
          case Use_Last
          then show ?thesis using Inr Hop by (intro stop) (subst follow.simps, simp add: run_round_trip v_def)
        qed
      qed
    qed
  qed
qed

lemma http_do_returns:
  assumes "\<And>rq via rq'. policy_of hc rq via = Follow rq' \<Longrightarrow> length via < 10 \<and> P (hc_transport hc) (with_credentials rq')"
  shows "returns_after (Sent (hc_transport hc) (with_credentials rq)) P 10 (http_do H E hc b rq)"
  unfolding http_do_def using follow_returns [of "policy_of hc" P "hc_transport hc" "[]", OF assms(1)] by simp

lemma default_check_stops: "default_check rq via = Follow rq' \<Longrightarrow> length via < 10"
  by (simp add: default_check_def split: if_splits)

end
