(* ===== verification/Sdk.thy ===== *)
theory Sdk
  imports Go_Client Sample
begin

text \<open>
  The client library \<open>sdk/go/tvpn/client.go\<close>: one-shot requests, each in a context of its own that is
  closed when the body of the response is, and sessions that keep a context for many requests. The JSON
  package and the HTTP package are parameters; the mutex of a session makes its state changes atomic.
\<close>

section \<open>Data\<close>

record sdk_client =
  cl_base :: string
  cl_token :: string
  cl_http :: "http_client option"

record sdk_request =
  rx_method :: string
  rx_url :: string
  rx_header :: "header option"
  rx_body :: reader
  rx_upstream :: string
  rx_compat :: bool

record sdk_options =
  so_upstream :: string
  so_compat :: bool

record sdk_session =
  ss_client :: sdk_client
  ss_id :: string
  ss_initial_url :: string
  ss_initial_route :: string
  ss_used_initial :: bool
  ss_closed :: bool

record sdk_problem =
  pb_type :: string
  pb_title :: string
  pb_status :: int
  pb_code :: string
  pb_message_id :: string
  pb_message :: string

datatype sdk_error = Transport_Error string | Http_Status nat | Tvpn_Problem sdk_problem | Session_Is_Closed | Incomplete_Response | Bad_Json

record sdk_packages =
  pk_http :: http_package
  pk_default_client :: http_client
  pk_marshal :: "json \<Rightarrow> string"
  pk_navigation :: "string \<Rightarrow> (string \<times> string) option"
  pk_route_url :: "string \<Rightarrow> string option"
  pk_problem :: "string \<Rightarrow> sdk_problem option"

definition NewClient :: "sdk_packages \<Rightarrow> string \<Rightarrow> string \<Rightarrow> sdk_client" where
  "NewClient K baseURL token = \<lparr>cl_base = TrimRight baseURL ''/'', cl_token = token, cl_http = Some (pk_default_client K)\<rparr>"

definition httpClient :: "sdk_packages \<Rightarrow> sdk_client \<Rightarrow> http_client" where
  "httpClient K c = (case cl_http c of Some h \<Rightarrow> h | None \<Rightarrow> pk_default_client K)"

definition problem_message :: "sdk_problem \<Rightarrow> string" where
  "problem_message p = ''tvpn: '' @ pb_message p @ '' ('' @ pb_code p @ '', HTTP '' @ itoa_int (pb_status p) @ '')''"

definition nullable :: "string \<Rightarrow> json" where
  "nullable v = (if v = [] then JNull else JStr v)"

definition cloneHeader :: "header option \<Rightarrow> header" where
  "cloneHeader h = (case h of None \<Rightarrow> (\<lambda>_. None) | Some x \<Rightarrow> x)"

section \<open>Responses\<close>

definition unsuccessful :: "response \<Rightarrow> bool" where
  "unsuccessful rs \<longleftrightarrow> rs_status rs < 200 \<or> 300 \<le> rs_status rs"

definition isProblem :: "response \<Rightarrow> bool" where
  "isProblem rs \<longleftrightarrow> unsuccessful rs \<and> Get (rs_header rs) ''Tvpn-Error-Code'' \<noteq> []"

definition decodeProblem :: "sdk_packages \<Rightarrow> response \<Rightarrow> sdk_error" where
  "decodeProblem K rs = (case pk_problem K (take (2 ^ 20) (rs_body rs)) of
     None \<Rightarrow> Http_Status (rs_status rs)
   | Some p \<Rightarrow> Tvpn_Problem (if pb_status p = 0 then p\<lparr>pb_status := int (rs_status rs)\<rparr> else p))"

definition transport_error :: "response result call \<Rightarrow> (sdk_error + response) call" where
  "transport_error p = and_then p (\<lambda>r. give (map_sum Transport_Error id r))"

section \<open>The interface of the server\<close>

definition bearer :: "sdk_client \<Rightarrow> string" where
  "bearer c = ''Bearer '' @ cl_token c"

text \<open>A request to the interface: with the token, and with a JSON body if it has one.\<close>

definition api_request :: "sdk_packages \<Rightarrow> sdk_client \<Rightarrow> string \<Rightarrow> string \<Rightarrow> json option \<Rightarrow> request result" where
  "api_request K c m path given = (case new_request m (cl_base c @ path) (case given of None \<Rightarrow> [] | Some j \<Rightarrow> pk_marshal K j) of
     Inl err \<Rightarrow> Inl err
   | Inr rq \<Rightarrow> (let h = hSet ''Authorization'' (bearer c) (rq_header rq) in
       Inr (rq\<lparr>rq_header := (if given = None then h else hSet ''Content-Type'' ''application/json'' h)\<rparr>)))"

definition api_call :: "sdk_packages \<Rightarrow> env \<Rightarrow> sdk_client \<Rightarrow> string \<Rightarrow> string \<Rightarrow> json option \<Rightarrow> (sdk_error + response) call" where
  "api_call K E c m path given = (case api_request K c m path given of
     Inl err \<Rightarrow> give (Inl (Transport_Error err))
   | Inr rq \<Rightarrow> on_ok (transport_error (http_do (pk_http K) E (httpClient K c)
       (case given of None \<Rightarrow> No_Body | Some j \<Rightarrow> Rewindable (pk_marshal K j)) rq)) (\<lambda>rs.
       give (if unsuccessful rs then Inl (decodeProblem K rs) else Inr rs)))"

definition contexts_path :: string where
  "contexts_path = ''/api/v1/proxy/contexts/''"

definition sdk_create :: "sdk_packages \<Rightarrow> env \<Rightarrow> sdk_client \<Rightarrow> sdk_request \<Rightarrow> (sdk_error + string \<times> string) call" where
  "sdk_create K E c x = on_ok (api_call K E c ''POST'' contexts_path
       (Some (JObj [(''url'', JStr (rx_url x)), (''upstream_proxy_id'', nullable (rx_upstream x)), (''compatibility_mode'', JBool (rx_compat x))]))) (\<lambda>rs.
     give (case pk_navigation K (rs_body rs) of
       None \<Rightarrow> Inl Bad_Json
     | Some (i, route) \<Rightarrow> if i = [] \<or> route = [] then Inl Incomplete_Response else Inr (i, route)))"

definition sdk_navigate :: "sdk_packages \<Rightarrow> env \<Rightarrow> sdk_client \<Rightarrow> string \<Rightarrow> string \<Rightarrow> (sdk_error + string) call" where
  "sdk_navigate K E c i targetURL = on_ok (api_call K E c ''POST'' (contexts_path @ PathEscape i @ ''/navigate'')
       (Some (JObj [(''url'', JStr targetURL)]))) (\<lambda>rs.
     give (case pk_route_url K (rs_body rs) of None \<Rightarrow> Inl Bad_Json | Some route \<Rightarrow> Inr route))"

definition sdk_close :: "sdk_packages \<Rightarrow> env \<Rightarrow> sdk_client \<Rightarrow> string \<Rightarrow> (sdk_error + unit) call" where
  "sdk_close K E c i = on_ok (api_call K E c ''DELETE'' (contexts_path @ PathEscape i) None) (\<lambda>_. give (Inr ()))"

section \<open>Requests of a route\<close>

text \<open>The token goes along on every hop; the check of the client, or ten redirects, decide how far.\<close>

definition route_check :: "sdk_client \<Rightarrow> redirect_policy option \<Rightarrow> redirect_policy" where
  "route_check c prev rq via = (let rq' = rq\<lparr>rq_header := hSet ''Proxy-Authorization'' (bearer c) (rq_header rq)\<rparr> in
     case prev of
       Some p \<Rightarrow> p rq' via
     | None \<Rightarrow> if 10 \<le> length via then Refused ''stopped after 10 redirects'' else Follow rq')"

definition route_client :: "sdk_packages \<Rightarrow> sdk_client \<Rightarrow> http_client" where
  "route_client K c = (let h = httpClient K c in h\<lparr>hc_check := Some (route_check c (hc_check h))\<rparr>)"

definition route_request :: "sdk_client \<Rightarrow> string \<Rightarrow> sdk_request \<Rightarrow> request result" where
  "route_request c routeURL x = map_sum id
     (\<lambda>rq. rq\<lparr>rq_header := hSet ''Proxy-Authorization'' (bearer c) (cloneHeader (rx_header x))\<rparr>)
     (new_request (rx_method x) routeURL (content (rx_body x)))"

definition doRoute :: "sdk_packages \<Rightarrow> env \<Rightarrow> sdk_client \<Rightarrow> string \<Rightarrow> sdk_request \<Rightarrow> (sdk_error + response) call" where
  "doRoute K E c routeURL x = (case route_request c routeURL x of
     Inl err \<Rightarrow> give (Inl (Transport_Error err))
   | Inr rq \<Rightarrow> on_ok (transport_error (http_do (pk_http K) E (route_client K c) (rx_body x) rq)) (\<lambda>rs.
       give (if isProblem rs then Inl (decodeProblem K rs) else Inr rs)))"

definition with_method :: "sdk_request \<Rightarrow> sdk_request" where
  "with_method x = (if rx_method x = [] then x\<lparr>rx_method := ''GET''\<rparr> else x)"

text \<open>The body of the response carries the context that its \<open>Close\<close> closes, once.\<close>

record cleanup_body =
  cb_context :: string
  cb_done :: bool

definition Do :: "sdk_packages \<Rightarrow> env \<Rightarrow> sdk_client \<Rightarrow> sdk_request \<Rightarrow> (sdk_error + response \<times> cleanup_body) call" where
  "Do K E c given = (let x = with_method given in
     on_ok (sdk_create K E c x) (\<lambda>(i, route).
     and_then (doRoute K E c route x) (\<lambda>r. case r of
       Inl err \<Rightarrow> and_then (sdk_close K E c i) (\<lambda>_. give (Inl err))
     | Inr rs \<Rightarrow> give (Inr (rs, \<lparr>cb_context = i, cb_done = False\<rparr>)))))"

text \<open>Closing the body: the error of the wrapped body is passed on, the one of the cleanup dropped.\<close>

definition close_body :: "sdk_packages \<Rightarrow> env \<Rightarrow> sdk_client \<Rightarrow> string option \<Rightarrow> cleanup_body \<Rightarrow> (string option \<times> cleanup_body) call" where
  "close_body K E c err b =
    (if cb_done b then give (err, b)
     else and_then (sdk_close K E c (cb_context b)) (\<lambda>_. give (err, b\<lparr>cb_done := True\<rparr>)))"

section \<open>Sessions\<close>

definition Open :: "sdk_packages \<Rightarrow> env \<Rightarrow> sdk_client \<Rightarrow> string \<Rightarrow> sdk_options \<Rightarrow> (sdk_error + sdk_session) call" where
  "Open K E c targetURL opts = on_ok (sdk_create K E c \<lparr>rx_method = [], rx_url = targetURL, rx_header = None, rx_body = No_Body,
       rx_upstream = so_upstream opts, rx_compat = so_compat opts\<rparr>) (\<lambda>(i, route).
     give (Inr \<lparr>ss_client = c, ss_id = i, ss_initial_url = targetURL, ss_initial_route = route, ss_used_initial = False, ss_closed = False\<rparr>))"

text \<open>The first request for the URL the session was opened with takes the route that came with it.\<close>

definition takes_initial :: "sdk_session \<Rightarrow> sdk_request \<Rightarrow> bool" where
  "takes_initial s x \<longleftrightarrow> \<not> ss_used_initial s \<and> rx_url x = ss_initial_url s"

definition Session_Do :: "sdk_packages \<Rightarrow> env \<Rightarrow> sdk_session \<Rightarrow> sdk_request \<Rightarrow> ((sdk_error + response) \<times> sdk_session) call" where
  "Session_Do K E s given = (let x = with_method given in
     if ss_closed s then give (Inl Session_Is_Closed, s)
     else (let s' = (if takes_initial s x then s\<lparr>ss_used_initial := True\<rparr> else s);
               routeURL = (if takes_initial s x then ss_initial_route s else []) in
       and_then (if routeURL = [] then sdk_navigate K E (ss_client s) (ss_id s) (rx_url x) else give (Inr routeURL)) (\<lambda>found.
       case found of
         Inl err \<Rightarrow> give (Inl err, s')
       | Inr route \<Rightarrow> and_then (doRoute K E (ss_client s) route x) (\<lambda>r. give (r, s')))))"

definition Session_Close :: "sdk_packages \<Rightarrow> env \<Rightarrow> sdk_session \<Rightarrow> (sdk_error option \<times> sdk_session) call" where
  "Session_Close K E s =
    (if ss_closed s then give (None, s)
     else and_then (sdk_close K E (ss_client s) (ss_id s)) (\<lambda>r. case r of
         Inl err \<Rightarrow> give (Some err, s\<lparr>ss_closed := False\<rparr>)
       | Inr _ \<Rightarrow> give (None, s\<lparr>ss_closed := True\<rparr>)))"

section \<open>A concrete server\<close>

text \<open>
  The server opens the context \<open>c1\<close>, the first answer of the target is a redirect to another host, and
  everything else is answered with success.
\<close>

definition sample_answer :: "nat \<Rightarrow> transport \<Rightarrow> request \<Rightarrow> response result" where
  "sample_answer t tr rq = Inr \<lparr>rs_status = (if t = 1 then 302 else 200), rs_line = ''OK'',
     rs_header = (if t = 1 then hSet ''Location'' ''http://other.test/'' (\<lambda>_. None) else (\<lambda>_. None)), rs_body = []\<rparr>"

definition sdk_env :: env where
  "sdk_env = sample_env\<lparr>e_round_trip := sample_answer\<rparr>"

definition sdk_sample :: sdk_packages where
  "sdk_sample = \<lparr>pk_http = \<lparr>hp_sensitive = (\<lambda>_. False), hp_describes_body = (\<lambda>_. False)\<rparr>,
     pk_default_client = \<lparr>hc_transport = \<lparr>tr_dial = DialDirect ''a.test:80'', tr_server_name = ''a.test''\<rparr>, hc_check = None\<rparr>,
     pk_marshal = (\<lambda>_. ''{}''), pk_navigation = (\<lambda>_. Some (''c1'', ''http://r.test/'')), pk_route_url = (\<lambda>_. None),
     pk_problem = (\<lambda>_. None)\<rparr>"

definition sdk_alice :: sdk_client where
  "sdk_alice = NewClient sdk_sample ''http://a.test/'' ''t1''"

definition sdk_get :: sdk_request where
  "sdk_get = \<lparr>rx_method = [], rx_url = ''http://b.test/'', rx_header = None, rx_body = No_Body, rx_upstream = [], rx_compat = False\<rparr>"

lemma sdk_plain: "hc_check (httpClient sdk_sample sdk_alice) = None"
  by (simp add: httpClient_def sdk_alice_def NewClient_def sdk_sample_def)

lemma sdk_sample_simps [simp]:
  "pk_marshal sdk_sample j = ''{}''" "pk_navigation sdk_sample t = Some (''c1'', ''http://r.test/'')" "e_round_trip sdk_env = sample_answer"
  by (simp_all add: sdk_sample_def sdk_env_def)

lemma sdk_opens:
  "\<exists>v. sdk_create sdk_sample sdk_env sdk_alice x (sample_world sample_db) = Some (Inr (''c1'', ''http://r.test/''), v)"
proof -
  have "is_ok (new_request ''POST'' (cl_base sdk_alice @ contexts_path) ''{}'')" by code_simp
  then have "\<exists>rq. api_request sdk_sample sdk_alice ''POST'' contexts_path (Some j) = Inr rq" for j
    by (auto simp: is_ok_iff api_request_def Let_def)
  then obtain rq where rq: "api_request sdk_sample sdk_alice ''POST'' contexts_path
      (Some (JObj [(''url'', JStr (rx_url x)), (''upstream_proxy_id'', nullable (rx_upstream x)), (''compatibility_mode'', JBool (rx_compat x))])) = Inr rq"
    by blast
  show ?thesis by (simp add: sdk_create_def api_call_def rq http_do_def transport_error_def on_ok_def and_then_def give_def
    follow_final run_round_trip sample_answer_def sample_world_def redirected_def resends_body_def unsuccessful_def)
qed

section \<open>Calls return\<close>

text \<open>A client without a check of its own stops after ten redirects.\<close>

abbreviation plain_client :: "sdk_packages \<Rightarrow> sdk_client \<Rightarrow> bool" where
  "plain_client K c \<equiv> hc_check (httpClient K c) = None"

definition any_request :: "transport \<Rightarrow> request \<Rightarrow> bool" where
  "any_request tr rq \<longleftrightarrow> True"

definition carries_token :: "sdk_client \<Rightarrow> transport \<Rightarrow> request \<Rightarrow> bool" where
  "carries_token c tr rq \<longleftrightarrow> Get (rq_header rq) ''Proxy-Authorization'' = bearer c"

lemma carries_token_simps:
  "carries_token c tr (rq\<lparr>rq_header := hSet ''Proxy-Authorization'' (bearer c) h\<rparr>)"
  "carries_token c tr (with_credentials rq) \<longleftrightarrow> carries_token c tr rq"
  using canonical_neq [of "''Proxy-Authorization''" "''Authorization''"]
  by (auto simp: carries_token_def with_credentials_def Get_hSet split: option.split)

lemma transport_returns: "returns_within P n p \<Longrightarrow> returns_within P n (transport_error p)"
  unfolding transport_error_def using returns_then [of P n p 0 "\<lambda>r. give (map_sum Transport_Error id r)"] by auto

lemma plain_check:
  assumes "plain_client K c" "policy_of (httpClient K c) rq via = Follow rq'"
  shows "length via < 10"
  using assms default_check_stops by (auto simp: policy_of_def)

lemma returns_map: "returns_within P n p \<Longrightarrow> returns_within P n (on_ok p (\<lambda>x. give (g x)))"
  using returns_on_ok [where m = 0 and f = "\<lambda>x. give (g x)"] by auto

lemma api_call_returns:
  assumes "plain_client K c"
  shows "returns_within any_request 10 (api_call K E c m path given)"
proof (cases "api_request K c m path given")
  case (Inr rq)
  have "returns_within any_request 10 (http_do (pk_http K) E (httpClient K c) b rq)" for b
    by (rule returns_after_within, rule http_do_returns) (use plain_check [OF assms] in \<open>auto simp: any_request_def\<close>)
  then show ?thesis by (simp add: api_call_def Inr returns_map transport_returns)
qed (simp add: api_call_def returns_give)

lemma route_policy:
  assumes "plain_client K c" "policy_of (route_client K c) rq via = Follow rq'"
  shows "length via < 10 \<and> carries_token c tr (with_credentials rq')"
  using assms by (auto simp: policy_of_def route_client_def Let_def route_check_def carries_token_simps split: if_splits)

lemma doRoute_returns:
  assumes "plain_client K c"
  shows "returns_within (carries_token c) 10 (doRoute K E c routeURL x)"
proof (cases "route_request c routeURL x")
  case (Inr rq)
  then have "carries_token c (hc_transport (route_client K c)) (with_credentials rq)"
    by (auto simp: route_request_def carries_token_simps map_sum_def split: sum.splits)
  then have "returns_within (carries_token c) 10 (http_do (pk_http K) E (route_client K c) b rq)" for b
    by (intro returns_after_within [OF http_do_returns] route_policy [OF assms])
  then show ?thesis by (simp add: doRoute_def Inr returns_map transport_returns)
qed (simp add: doRoute_def returns_give)

lemma calls_return:
  assumes "plain_client K c"
  shows "returns_within any_request 10 (sdk_create K E c x)" "returns_within any_request 10 (sdk_navigate K E c i u)"
    "returns_within any_request 10 (sdk_close K E c i)" "returns_within any_request 10 (doRoute K E c route x)"
proof -
  note api = returns_map [OF api_call_returns [OF assms]]
  show "returns_within any_request 10 (sdk_create K E c x)" "returns_within any_request 10 (sdk_navigate K E c i u)"
    "returns_within any_request 10 (sdk_close K E c i)"
    unfolding sdk_create_def sdk_navigate_def sdk_close_def by (rule api)+
  show "returns_within any_request 10 (doRoute K E c route x)"
    by (rule returns_weaken [OF doRoute_returns [OF assms]]) (simp_all add: any_request_def)
qed

text \<open>
  C26: A one-shot request of a client without a redirect check of its own, as \<open>NewClient\<close> gives it, always
  returns, whatever the servers answer: it sends at most ten requests to open the context, ten along the
  route and ten to close the context, and leaves everything else as it was.
\<close>

theorem one_shot_returns:
  assumes "plain_client K c"
  shows "\<exists>r w' es. Do K E c x w = Some (r, w') \<and> w_trace w' = w_trace w @ es \<and> length es \<le> 30 \<and> w_db w' = w_db w"
proof -
  note parts = calls_return [OF assms]
  have "returns_within any_request (10 + (10 + 10)) (Do K E c x)" unfolding Do_def Let_def
    by (rule returns_on_ok [OF parts(1)], clarify, rule returns_then [OF parts(4)])
      (auto split: sum.split intro!: returns_then [where n = 10 and m = 0, simplified] parts(3))
  then obtain r v es where "Do K E c x w = Some (r, v)" "w_db v = w_db w" "w_trace v = w_trace w @ es" "length es \<le> 10 + (10 + 10)"
    by (rule returns_withinD)
  then show ?thesis by auto
qed

section \<open>Contexts are closed\<close>

definition delete_request :: "sdk_packages \<Rightarrow> sdk_client \<Rightarrow> string \<Rightarrow> request result" where
  "delete_request K c i = api_request K c ''DELETE'' (contexts_path @ PathEscape i) None"

lemma close_sends:
  assumes "plain_client K c" "delete_request K c i = Inr rq"
  shows "\<exists>r w' es. sdk_close K E c i w = Some (r, w')
     \<and> w_trace w' = w_trace w @ Sent (hc_transport (httpClient K c)) (with_credentials rq) # es \<and> length es < 10"
proof -
  have "returns_after (Sent (hc_transport (httpClient K c)) (with_credentials rq)) any_request 10
      (http_do (pk_http K) E (httpClient K c) No_Body rq)"
    by (rule http_do_returns) (use plain_check [OF assms(1)] in \<open>auto simp: any_request_def\<close>)
  then obtain r v es where "http_do (pk_http K) E (httpClient K c) No_Body rq w = Some (r, v)" "length es < 10"
    "w_trace v = w_trace w @ Sent (hc_transport (httpClient K c)) (with_credentials rq) # es" by (rule returns_afterD)
  then show ?thesis using assms(2)
    by (cases r) (auto simp: sdk_close_def api_call_def delete_request_def transport_error_def on_ok_def and_then_def give_def
      split: sum.split)
qed

theorem one_shot_returns_witness:
  "\<exists>r w' es. Do sdk_sample sdk_env sdk_alice sdk_get (sample_world sample_db) = Some (r, w')
    \<and> w_trace w' = w_trace (sample_world sample_db) @ es \<and> length es \<le> 30 \<and> w_db w' = w_db (sample_world sample_db)"
  by (rule one_shot_returns [OF sdk_plain])

text \<open>The request that deletes the context goes out, at most nine redirects of it follow, and nothing else is sent.\<close>

definition deletes_context :: "sdk_packages \<Rightarrow> sdk_client \<Rightarrow> request \<Rightarrow> world \<Rightarrow> world \<Rightarrow> bool" where
  "deletes_context K c rq w w' \<longleftrightarrow> (\<exists>es. length es < 10
     \<and> w_trace w' = w_trace w @ Sent (hc_transport (httpClient K c)) (with_credentials rq) # es)"

text \<open>Closing the body, whenever it happens, deletes the context, and closing it again does nothing.\<close>

definition closes_once :: "sdk_packages \<Rightarrow> env \<Rightarrow> sdk_client \<Rightarrow> request \<Rightarrow> cleanup_body \<Rightarrow> bool" where
  "closes_once K E c rq b \<longleftrightarrow> (\<forall>err u. \<exists>b' u'. close_body K E c err b u = Some ((err, b'), u') \<and> deletes_context K c rq u u'
     \<and> (\<forall>err' v. close_body K E c err' b' v = Some ((err', b'), v)))"

text \<open>
  C27: A one-shot request leaves no context behind that it was given. Once createContext has returned a
  context and its route, at most ten requests go along the route. If that ends with an error, the context is
  deleted, with the token, before \<open>Do\<close> returns the error; if it ends with a response, the context is
  deleted when the response's body is closed for the first time, and closing it again sends nothing. (For a
  client without a redirect check of its own, and when the base URL and the identifier form a request. A
  context the server opened in an answer without a route is not deleted: createContext fails on it.)
\<close>

theorem contexts_closed:
  assumes "plain_client K c" "sdk_create K E c (with_method x) w = Some (Inr (i, route), v)" "delete_request K c i = Inr rq"
  shows "\<exists>r w' w1 es. Do K E c x w = Some (r, w') \<and> w_trace w1 = w_trace v @ es \<and> length es \<le> 10 \<and> (case r of
     Inl _ \<Rightarrow> deletes_context K c rq w1 w'
   | Inr (_, b) \<Rightarrow> w' = w1 \<and> closes_once K E c rq b)"
proof -
  obtain r w1 es where route: "doRoute K E c route (with_method x) v = Some (r, w1)" "w_trace w1 = w_trace v @ es" "length es \<le> 10"
    by (rule returns_withinD [OF calls_return(4) [OF assms(1)]])
  have close: "\<exists>r' w'. sdk_close K E c i u = Some (r', w') \<and> deletes_context K c rq u w'" for u
    using close_sends [OF assms(1,3), of E u] unfolding deletes_context_def by metis
  show ?thesis
  proof (cases r)
    case (Inl err)
    obtain r' w' where "sdk_close K E c i w1 = Some (r', w')" "deletes_context K c rq w1 w'" using close by blast
    moreover from this have "Do K E c x w = Some (Inl err, w')"
      using assms(2) route(1) Inl by (simp add: Do_def Let_def on_ok_def and_then_def give_def)
    ultimately show ?thesis using route(2,3) by (intro exI) auto
  next
    case (Inr rs)
    have "closes_once K E c rq \<lparr>cb_context = i, cb_done = False\<rparr>"
      unfolding closes_once_def
    proof (intro allI)
      fix err u
      obtain r' u' where "sdk_close K E c i u = Some (r', u')" "deletes_context K c rq u u'" using close by blast
      then show "\<exists>b' u'. close_body K E c err \<lparr>cb_context = i, cb_done = False\<rparr> u = Some ((err, b'), u') \<and> deletes_context K c rq u u'
          \<and> (\<forall>err' v. close_body K E c err' b' v = Some ((err', b'), v))"
        by (simp add: close_body_def and_then_def give_def)
    qed
    moreover have "Do K E c x w = Some (Inr (rs, \<lparr>cb_context = i, cb_done = False\<rparr>), w1)"
      using assms(2) route(1) Inr by (simp add: Do_def Let_def on_ok_def and_then_def give_def)
    ultimately show ?thesis using route(2,3) by (intro exI) auto
  qed
qed

theorem contexts_closed_witness:
  "\<exists>(v :: world) rq r w' w1 es. delete_request sdk_sample sdk_alice ''c1'' = Inr rq
     \<and> Do sdk_sample sdk_env sdk_alice sdk_get (sample_world sample_db) = Some (r, w') \<and> w_trace w1 = w_trace v @ es \<and> length es \<le> 10 \<and> (case r of
       Inl _ \<Rightarrow> deletes_context sdk_sample sdk_alice rq w1 w'
     | Inr (_, b) \<Rightarrow> w' = w1 \<and> closes_once sdk_sample sdk_env sdk_alice rq b)"
proof -
  obtain v where v: "sdk_create sdk_sample sdk_env sdk_alice (with_method sdk_get) (sample_world sample_db)
      = Some (Inr (''c1'', ''http://r.test/''), v)" using sdk_opens by blast
  have "is_ok (delete_request sdk_sample sdk_alice ''c1'')" by code_simp
  then obtain rq where rq: "delete_request sdk_sample sdk_alice ''c1'' = Inr rq" by (auto simp: is_ok_iff)
  from contexts_closed [OF sdk_plain v rq] rq show ?thesis by blast
qed

text \<open>A context without a route is left behind: the answer is refused, and nothing more is sent.\<close>

lemma incomplete_context_left:
  assumes "api_call K E c ''POST'' contexts_path
      (Some (JObj [(''url'', JStr (rx_url x)), (''upstream_proxy_id'', nullable (rx_upstream x)), (''compatibility_mode'', JBool (rx_compat x))])) w
        = Some (Inr rs, v)"
    and "pk_navigation K (rs_body rs) = Some (i, [])"
  shows "Do K E c x w = Some (Inl Incomplete_Response, v)"
proof -
  have "sdk_create K E c (with_method x) w = Some (Inl Incomplete_Response, v)"
    using assms by (simp add: sdk_create_def with_method_def on_ok_def and_then_def give_def)
  then show ?thesis by (simp add: Do_def Let_def on_ok_def and_then_def give_def)
qed

text \<open>
  Every request along a route carries the token: the first and each redirect, to whatever host it leads,
  goes out with the \<open>Proxy-Authorization\<close> of the client.
\<close>

theorem route_carries_token:
  assumes "plain_client K c" "doRoute K E c route x w = Some (r, w')" "e \<in> set (drop (length (w_trace w)) (w_trace w'))"
  shows "\<exists>tr rq. e = Sent tr rq \<and> Get (rq_header rq) ''Proxy-Authorization'' = ''Bearer '' @ cl_token c"
proof -
  obtain r' v es where "doRoute K E c route x w = Some (r', v)" "w_trace v = w_trace w @ es"
    "\<forall>e \<in> set es. \<exists>tr rq. e = Sent tr rq \<and> carries_token c tr rq"
    by (rule returns_withinD [OF doRoute_returns [OF assms(1)]])
  then show ?thesis using assms(2,3) by (auto simp: carries_token_def bearer_def)
qed

text \<open>The redirect of the concrete server leads to another host.\<close>

definition route_start :: world where
  "route_start = (sample_world sample_db)\<lparr>w_tick := 1\<rparr>"

definition redirect_answer :: response where
  "redirect_answer = \<lparr>rs_status = 302, rs_line = ''OK'', rs_header = hSet ''Location'' ''http://other.test/'' (\<lambda>_. None), rs_body = []\<rparr>"

lemma route_hops:
  "case route_request sdk_alice ''http://r.test/'' (with_method sdk_get) of Inl _ \<Rightarrow> False | Inr rq \<Rightarrow> u_host (rq_url rq) = ''r.test''
    \<and> (case next_hop (pk_http sdk_sample) sdk_env No_Body rq False True rq redirect_answer of
         Hop rq' strip wb \<Rightarrow> u_host (rq_url rq') = ''other.test'' | _ \<Rightarrow> False)"
  by code_simp

lemma route_leaves:
  "\<exists>r w' t1 r1 t2 r2. doRoute sdk_sample sdk_env sdk_alice ''http://r.test/'' (with_method sdk_get) route_start = Some (r, w')
    \<and> drop (length (w_trace route_start)) (w_trace w') = [Sent t1 r1, Sent t2 r2]
    \<and> u_host (rq_url r1) = ''r.test'' \<and> u_host (rq_url r2) = ''other.test''"
proof -
  obtain rq rq' strip wb where rq: "route_request sdk_alice ''http://r.test/'' (with_method sdk_get) = Inr rq" "u_host (rq_url rq) = ''r.test''"
    and hop: "next_hop (pk_http sdk_sample) sdk_env No_Body rq False True rq redirect_answer = Hop rq' strip wb" "u_host (rq_url rq') = ''other.test''"
    using route_hops by (auto split: sum.splits hop.splits)
  let ?tr = "hc_transport (route_client sdk_sample sdk_alice)"
  have policy: "policy_of (route_client sdk_sample sdk_alice) = route_check sdk_alice None"
    by (simp add: policy_of_def route_client_def Let_def sdk_plain)
  have body: "rx_body (with_method sdk_get) = No_Body" by (simp add: with_method_def sdk_get_def)
  have url: "rq_url (with_credentials r) = rq_url r" for r
    by (simp add: with_credentials_def split: option.split)
  have "follow (pk_http sdk_sample) sdk_env ?tr (route_check sdk_alice None) No_Body [] False True rq route_start
      = follow (pk_http sdk_sample) sdk_env ?tr (route_check sdk_alice None) No_Body [rq] strip wb
          (rq'\<lparr>rq_header := hSet ''Proxy-Authorization'' (bearer sdk_alice) (rq_header rq')\<rparr>)
          (route_start\<lparr>w_tick := 2, w_trace := [Sent ?tr (with_credentials rq)]\<rparr>)"
    by (subst follow_hop [where rs = redirect_answer])
      (auto simp: run_round_trip hop [unfolded redirect_answer_def] route_check_def Let_def route_start_def sample_world_def sample_answer_def redirect_answer_def)
  then show ?thesis
    by (simp add: doRoute_def rq http_do_def policy transport_error_def on_ok_def and_then_def give_def follow_final run_round_trip url hop
        sample_answer_def route_start_def sample_world_def redirected_def resends_body_def body isProblem_def
        unsuccessful_def)
qed

theorem route_carries_token_witness:
  "\<exists>t1 (r1 :: request) t2 (r2 :: request). u_host (rq_url r2) = ''other.test'' \<and> Get (rq_header r2) ''Proxy-Authorization'' = ''Bearer t1''
    \<and> (\<exists>r w'. doRoute sdk_sample sdk_env sdk_alice ''http://r.test/'' (with_method sdk_get) route_start = Some (r, w')
        \<and> drop (length (w_trace route_start)) (w_trace w') = [Sent t1 r1, Sent t2 r2])"
proof -
  obtain r w' t1 r1 t2 r2 where run: "doRoute sdk_sample sdk_env sdk_alice ''http://r.test/'' (with_method sdk_get) route_start = Some (r, w')"
    and es: "drop (length (w_trace route_start)) (w_trace w') = [Sent t1 r1, Sent t2 r2]" "u_host (rq_url r2) = ''other.test''"
    using route_leaves by blast
  have "\<exists>tr rq. Sent t2 r2 = Sent tr rq \<and> Get (rq_header rq) ''Proxy-Authorization'' = ''Bearer '' @ cl_token sdk_alice"
    by (rule route_carries_token [OF sdk_plain run]) (simp add: es(1))
  then show ?thesis using run es by (auto simp: sdk_alice_def NewClient_def)
qed

section \<open>Runs of a session\<close>

datatype session_op = Ask sdk_request | Finish

datatype session_answer = Answered "sdk_error + response" | Finished "sdk_error option"

definition session_step :: "sdk_packages \<Rightarrow> env \<Rightarrow> session_op \<Rightarrow> sdk_session \<Rightarrow> (session_answer \<times> sdk_session) call" where
  "session_step K E op s = (case op of
     Ask x \<Rightarrow> and_then (Session_Do K E s x) (\<lambda>(r, s'). give (Answered r, s'))
   | Finish \<Rightarrow> and_then (Session_Close K E s) (\<lambda>(r, s'). give (Finished r, s')))"

primrec run_session :: "sdk_packages \<Rightarrow> env \<Rightarrow> session_op list \<Rightarrow> sdk_session \<Rightarrow> (session_answer list \<times> sdk_session) call" where
  "run_session K E [] s = give ([], s)"
| "run_session K E (op # ops) s = and_then (session_step K E op s) (\<lambda>(a, s').
     and_then (run_session K E ops s') (\<lambda>(as, s''). give (a # as, s'')))"

text \<open>The answers of a session that is closed.\<close>

definition closed_answer :: "session_op \<Rightarrow> session_answer" where
  "closed_answer op = (case op of Ask _ \<Rightarrow> Answered (Inl Session_Is_Closed) | Finish \<Rightarrow> Finished None)"

lemma run_closed: "ss_closed s \<Longrightarrow> run_session K E ops s w = Some ((map closed_answer ops, s), w)"
  by (induction ops) (simp_all add: session_step_def Session_Do_def Session_Close_def closed_answer_def give_def and_then_def Let_def
    split: session_op.split)

lemma run_append:
  "run_session K E (xs @ ys) s = and_then (run_session K E xs s) (\<lambda>(as, s'). and_then (run_session K E ys s') (\<lambda>(bs, s''). give (as @ bs, s'')))"
  by (induction xs arbitrary: s) (auto simp: fun_eq_iff and_then_def give_def split: option.split prod.split)

lemma run_length: "run_session K E ops s w = Some ((as, s'), v) \<Longrightarrow> length as = length ops"
  by (induction ops arbitrary: s w as) (auto simp: and_then_def give_def split: option.splits prod.splits)

lemma finished_closes: "session_step K E Finish s w = Some ((Finished None, s'), v) \<Longrightarrow> ss_closed s'"
  by (auto simp: session_step_def Session_Close_def and_then_def give_def split: if_splits option.splits prod.splits sum.splits)

lemma step_keeps_client: "session_step K E op s w = Some ((a, s'), v) \<Longrightarrow> ss_client s' = ss_client s"
  by (auto simp: session_step_def Session_Close_def Session_Do_def Let_def and_then_def give_def
      split: if_splits option.splits prod.splits sum.splits session_op.splits)

text \<open>
  A session that was closed stays closed: once a \<open>Close\<close> has succeeded, every later request is refused,
  every later \<open>Close\<close> succeeds, and nothing is sent.
\<close>

theorem session_stays_closed:
  assumes "run_session K E (ops @ [Finish]) s w = Some ((as @ [Finished None], s'), v)"
  shows "run_session K E (ops @ Finish # later) s w = Some ((as @ Finished None # map closed_answer later, s'), v)"
proof -
  from assms obtain s1 v1 where ops: "run_session K E ops s w = Some ((as, s1), v1)"
    and fin: "session_step K E Finish s1 v1 = Some ((Finished None, s'), v)"
    by (auto simp: run_append and_then_def give_def split: option.splits prod.splits)
  show ?thesis
    by (simp add: run_append and_then_def ops fin run_closed [OF finished_closes [OF fin]] give_def)
qed

lemma step_returns:
  assumes "plain_client K (ss_client s)"
  shows "returns_within any_request 20 (session_step K E op s)"
proof -
  note parts = calls_return [OF assms]
  have route: "returns_within any_request 10 (case found of Inl err \<Rightarrow> give (Inl err, s')
      | Inr route \<Rightarrow> and_then (doRoute K E (ss_client s) route x) (\<lambda>r. give (r, s')))" for found s' x
    using returns_then [OF parts(4) returns_give, where m = 0] by (auto split: sum.split)
  have "returns_within any_request 10 (if routeURL = [] then sdk_navigate K E (ss_client s) (ss_id s) u else give (Inr routeURL))" for routeURL u
    using parts(2) by auto
  note found = returns_weaken [OF returns_then [OF this route]]
  have both: "returns_within any_request 20
      (and_then (if routeURL = [] then sdk_navigate K E (ss_client s) (ss_id s) u else give (Inr routeURL)) (\<lambda>found.
         case found of Inl err \<Rightarrow> give (Inl err, s') | Inr route \<Rightarrow> and_then (doRoute K E (ss_client s) route x) (\<lambda>r. give (r, s'))))"
    for routeURL u s' x by (rule found) simp_all
  have ask: "returns_within any_request 20 (Session_Do K E s x)" for x
    unfolding Session_Do_def Let_def by (cases "ss_closed s") (simp_all only: if_True if_False returns_give both simp_thms)
  have "returns_within any_request 0 (case r of Inl err \<Rightarrow> give (Some err, s\<lparr>ss_closed := False\<rparr>) | Inr _ \<Rightarrow> give (None, s\<lparr>ss_closed := True\<rparr>))"
    for r :: "sdk_error + unit" by (auto split: sum.split)
  note closed = returns_weaken [OF returns_then [OF parts(3) this]]
  have finish: "returns_within any_request 20 (Session_Close K E s)"
    unfolding Session_Close_def by (cases "ss_closed s") (simp_all add: returns_give, rule closed, simp_all)
  show ?thesis
    unfolding session_step_def
    by (cases op) (simp_all, rule returns_weaken [OF returns_then [OF ask, where m = 0]], auto,
      rule returns_weaken [OF returns_then [OF finish, where m = 0]], auto)
qed

text \<open>A run of a session returns: each operation sends at most twenty requests.\<close>

theorem session_returns:
  assumes "plain_client K (ss_client s)"
  shows "\<exists>as s' v es. run_session K E ops s w = Some ((as, s'), v) \<and> w_trace v = w_trace w @ es \<and> length es \<le> 20 * length ops"
  using assms
proof (induction ops arbitrary: s w)
  case (Cons op ops)
  obtain r v es where step: "session_step K E op s w = Some (r, v)" "w_trace v = w_trace w @ es" "length es \<le> 20"
    by (rule returns_withinD [OF step_returns [OF Cons.prems]])
  obtain a s1 where r: "r = (a, s1)" by fastforce
  then have "plain_client K (ss_client s1)" using step(1) Cons.prems step_keeps_client by metis
  from Cons.IH [OF this, of v] obtain as s2 v2 es2 where "run_session K E ops s1 v = Some ((as, s2), v2)" "w_trace v2 = w_trace v @ es2"
    "length es2 \<le> 20 * length ops" by blast
  then show ?case using step r by (auto simp: and_then_def give_def)
qed (auto simp: give_def)

end
