(* ===== verification/Ctl.thy ===== *)
theory Ctl
  imports Sdk
begin

text \<open>
  The command line \<open>cmd/tvpnctl/main.go\<close>: one request through the client library, its body on standard
  output and the outcome in the exit status. The flags are as the package \<open>flag\<close> leaves them. \<open>os.Exit\<close> runs
  no deferred call.
\<close>

record flags =
  fl_server :: string
  fl_token :: string
  fl_upstream :: string
  fl_data :: string
  fl_headers :: "string list"
  fl_args :: "string list"

record exit_status =
  ex_code :: nat
  ex_output :: string

definition headers_Set :: "string list \<Rightarrow> string \<Rightarrow> string list" where
  "headers_Set h v = h @ [v]"

text \<open>The body: none, standard input, a file, or the text itself. Only the last can be read again.\<close>

definition openBody :: "env \<Rightarrow> string \<Rightarrow> string \<Rightarrow> reader result call" where
  "openBody E stdin v =
    (if v = [] then give (Inr No_Body)
     else if v = ''@-'' then give (Inr (Stream stdin))
     else if HasPrefix v ''@'' then and_then (effect (read_file E (TrimPrefix v ''@''))) (\<lambda>r. give (map_sum id Stream r))
     else give (Inr (Rewindable v)))"

fun target_headers :: "string list \<Rightarrow> header \<Rightarrow> header option" where
  "target_headers [] h = Some h"
| "target_headers (v # vs) h = (case Cut v CHR '':'' of (name, cont, ok) \<Rightarrow>
     if \<not> ok \<or> TrimSpace name = [] then None else target_headers vs (hAdd (TrimSpace name) (TrimSpace cont) h))"

definition usage :: "exit_status call" where
  "usage = give \<lparr>ex_code = 2, ex_output = []\<rparr>"

definition fatal :: "exit_status call" where
  "fatal = give \<lparr>ex_code = 1, ex_output = []\<rparr>"

text \<open>
  What arrives of the body is printed. The deferred close runs only when \<open>main\<close> returns: not after
  \<open>fatal\<close>, when reading the body failed, and not after \<open>os.Exit(1)\<close>.
\<close>

definition print_response :: "sdk_packages \<Rightarrow> env \<Rightarrow> sdk_client \<Rightarrow> response \<times> cleanup_body \<Rightarrow> exit_status call" where
  "print_response K E c got = (case got of (rs, b) \<Rightarrow>
     and_then (\<lambda>w. Some (run_state (read_body E rs) w)) (\<lambda>(arrived, whole).
     if \<not> whole \<or> rs_status rs < 200 \<or> 300 \<le> rs_status rs then give \<lparr>ex_code = 1, ex_output = arrived\<rparr>
     else and_then (close_body K E c None b) (\<lambda>_. give \<lparr>ex_code = 0, ex_output = arrived\<rparr>)))"

definition arrives :: "env \<Rightarrow> response \<Rightarrow> world \<Rightarrow> string \<times> bool" where
  "arrives E rs w = (case e_read_error E (w_tick w) of None \<Rightarrow> (rs_body rs, True) | Some n \<Rightarrow> (take n (rs_body rs), False))"

lemma run_read_body: "run_state (read_body E rs) w = (arrives E rs w, w\<lparr>w_tick := Suc (w_tick w)\<rparr>)"
  by (simp add: read_body_def tick_def arrives_def State_Monad.bind_def State_Monad.return_def)

text \<open>\<open>strings.ToUpper\<close> on ASCII text.\<close>

definition ToUpper :: "string \<Rightarrow> string" where
  "ToUpper = map (\<lambda>c. if is_lower c then char_of (code c - 32) else c)"

definition target_request :: "flags \<Rightarrow> header \<Rightarrow> reader \<Rightarrow> sdk_request" where
  "target_request fl h b = \<lparr>rx_method = ToUpper (fl_args fl ! 0), rx_url = fl_args fl ! 1, rx_header = Some h, rx_body = b,
     rx_upstream = fl_upstream fl, rx_compat = False\<rparr>"

definition request_command :: "sdk_packages \<Rightarrow> env \<Rightarrow> string \<Rightarrow> flags \<Rightarrow> exit_status call" where
  "request_command K E stdin fl =
    (if fl_server fl = [] \<or> fl_token fl = [] \<or> length (fl_args fl) \<noteq> 2 then usage
     else and_then (openBody E stdin (fl_data fl)) (\<lambda>opened. case opened of
       Inl _ \<Rightarrow> fatal
     | Inr b \<Rightarrow> (case target_headers (fl_headers fl) (\<lambda>_. None) of
         None \<Rightarrow> fatal
       | Some h \<Rightarrow> (let c = NewClient K (fl_server fl) (fl_token fl) in
           and_then (Do K E c (target_request fl h b)) (\<lambda>r. case r of
             Inl _ \<Rightarrow> fatal
           | Inr got \<Rightarrow> print_response K E c got)))))"

text \<open>
  The command exits with 0 exactly when the target answered with success and the body was read to its end,
  and prints what arrived of it either way. But only then is the context of the request closed: after
  another answer of the target the command exits without sending anything more, and the context stays open
  on the server.
\<close>

theorem command_leaves_context:
  assumes "plain_client K c" "delete_request K c (cb_context b) = Inr rq" "\<not> cb_done b"
  shows "\<exists>st v es. print_response K E c (rs, b) w = Some (st, v) \<and> ex_output st = fst (arrives E rs w) \<and> w_trace v = w_trace w @ es
     \<and> (ex_code st = 0 \<longleftrightarrow> snd (arrives E rs w) \<and> 200 \<le> rs_status rs \<and> rs_status rs < 300)
     \<and> (ex_code st = 0 \<longleftrightarrow> Sent (hc_transport (httpClient K c)) (with_credentials rq) \<in> set es) \<and> (es = [] \<longleftrightarrow> ex_code st = 1)"
proof (cases "snd (arrives E rs w) \<and> 200 \<le> rs_status rs \<and> rs_status rs < 300")
  case True
  obtain r v es where "sdk_close K E c (cb_context b) (w\<lparr>w_tick := Suc (w_tick w)\<rparr>) = Some (r, v)"
    "w_trace v = w_trace w @ Sent (hc_transport (httpClient K c)) (with_credentials rq) # es"
    using close_sends [OF assms(1,2), of E "w\<lparr>w_tick := Suc (w_tick w)\<rparr>"] by auto
  then show ?thesis using True assms(3)
    by (auto simp: print_response_def run_read_body close_body_def and_then_def give_def split: prod.split)
next
  case False
  then show ?thesis by (auto simp: print_response_def run_read_body and_then_def give_def split: prod.split)
qed

theorem command_leaves_context_witness:
  "\<exists>rq. delete_request sdk_sample sdk_alice ''c1'' = Inr rq \<and> (\<exists>st v es.
     print_response sdk_sample sdk_env sdk_alice
       (\<lparr>rs_status = 404, rs_line = ''Not Found'', rs_header = (\<lambda>_. None), rs_body = ''gone''\<rparr>, \<lparr>cb_context = ''c1'', cb_done = False\<rparr>)
       (sample_world sample_db) = Some (st, v)
     \<and> w_trace v = w_trace (sample_world sample_db) @ es \<and> ex_code st \<noteq> 0
     \<and> Sent (hc_transport (httpClient sdk_sample sdk_alice)) (with_credentials rq) \<notin> set es)"
proof -
  have "is_ok (delete_request sdk_sample sdk_alice ''c1'')" by code_simp
  then obtain rq where rq: "delete_request sdk_sample sdk_alice ''c1'' = Inr rq" by (auto simp: is_ok_iff)
  let ?b = "\<lparr>cb_context = ''c1'', cb_done = False\<rparr>"
    and ?rs = "\<lparr>rs_status = 404, rs_line = ''Not Found'', rs_header = (\<lambda>_. None), rs_body = ''gone''\<rparr>"
  have b: "delete_request sdk_sample sdk_alice (cb_context ?b) = Inr rq" "\<not> cb_done ?b" by (simp_all add: rq)
  have "\<exists>st v es. print_response sdk_sample sdk_env sdk_alice (?rs, ?b) (sample_world sample_db) = Some (st, v) \<and> ex_output st = fst (arrives sdk_env ?rs (sample_world sample_db))
     \<and> w_trace v = w_trace (sample_world sample_db) @ es \<and> (ex_code st = 0 \<longleftrightarrow> snd (arrives sdk_env ?rs (sample_world sample_db)) \<and> 200 \<le> rs_status ?rs \<and> rs_status ?rs < 300)
     \<and> (ex_code st = 0 \<longleftrightarrow> Sent (hc_transport (httpClient sdk_sample sdk_alice)) (with_credentials rq) \<in> set es) \<and> (es = [] \<longleftrightarrow> ex_code st = 1)"
    by (rule command_leaves_context [OF sdk_plain b])
  then show ?thesis using rq by fastforce
qed

end
