(* ===== verification/Start.thy ===== *)
theory Start
  imports Server Go_Client
begin

text \<open>
  The start of the process, \<open>cmd/tvpn/main.go\<close>: the configuration is read, the server put together and its
  handler served at the address of the configuration; with the argument \<open>healthcheck\<close> the process only asks a
  running server whether it is ready. Serving and shutting down are the standard library's.
\<close>

datatype process = Exit nat | Serve string "(reply \<Rightarrow> request \<Rightarrow> reply prog) option"

definition ready_url :: string where
  "ready_url = ''http://127.0.0.1:8080/health/ready''"

definition healthcheck :: "http_package \<Rightarrow> env \<Rightarrow> transport \<Rightarrow> process call" where
  "healthcheck H E tr = (case new_request ''GET'' ready_url [] of
     Inl _ \<Rightarrow> give (Exit 1)
   | Inr rq \<Rightarrow> and_then (http_do H E \<lparr>hc_transport = tr, hc_check = None\<rparr> No_Body rq) (\<lambda>r. case r of
       Inl _ \<Rightarrow> give (Exit 1)
     | Inr rs \<Rightarrow> give (Exit (if rs_status rs \<noteq> 200 then 1 else 0))))"

definition start_program :: "env \<Rightarrow> packages \<Rightarrow> (string \<Rightarrow> unit result prog) \<Rightarrow> process call" where
  "start_program E K open_db = and_then (effect (Load E)) (\<lambda>loaded. case loaded of
     Inl _ \<Rightarrow> give (Exit 1)
   | Inr cfg \<Rightarrow> and_then (effect (NewServer E open_db cfg)) (\<lambda>app. case app of
       Inl _ \<Rightarrow> give (Exit 1)
     | Inr sr \<Rightarrow> give (Serve (cf_listen cfg) (Handler E K cfg sr))))"

definition main_program :: "http_package \<Rightarrow> env \<Rightarrow> transport \<Rightarrow> packages \<Rightarrow> (string \<Rightarrow> unit result prog) \<Rightarrow> string list \<Rightarrow> process call" where
  "main_program H E tr K open_db args =
    (if length args = 2 \<and> args ! 1 = ''healthcheck'' then healthcheck H E tr else start_program E K open_db)"

text \<open>The check returns, leaves the database alone and sends at most ten requests.\<close>

lemma healthcheck_returns: "returns_within (\<lambda>_ _. True) 10 (healthcheck H E tr)"
proof (cases "new_request ''GET'' ready_url []")
  case (Inr rq)
  have "returns_within (\<lambda>_ _. True) 10 (http_do H E \<lparr>hc_transport = tr, hc_check = None\<rparr> No_Body rq)"
    by (rule returns_after_within, rule http_do_returns) (auto simp: policy_of_def dest: default_check_stops)
  note asked = returns_weaken [OF returns_then [OF this]]
  show ?thesis unfolding healthcheck_def Inr sum.case by (rule asked [where m1 = 0]) (auto split: sum.split)
qed (simp add: healthcheck_def returns_give)

text \<open>
  The process always comes to an end or to serving, and when it serves, the handler does not panic: it is one of
  a server that \<open>New\<close> made of a configuration that \<open>Load\<close> accepted.
\<close>

theorem main_program_starts:
  "\<exists>p w'. main_program H E tr K open_db args w = Some (p, w') \<and>
    (case p of Exit n \<Rightarrow> n \<le> 1
     | Serve at handler \<Rightarrow> handler \<noteq> None \<and> (\<exists>cfg sr w1. run_state (Load E) w = (Inr cfg, w1)
         \<and> fst (run_state (NewServer E open_db cfg) w1) = Inr sr \<and> at = cf_listen cfg \<and> handler = Handler E K cfg sr))"
proof (cases "length args = 2 \<and> args ! 1 = ''healthcheck''")
  case True
  obtain p v where run: "healthcheck H E tr w = Some (p, v)" by (rule returns_withinD [OF healthcheck_returns])
  then have "case p of Exit n \<Rightarrow> n \<le> 1 | Serve _ _ \<Rightarrow> False"
    by (auto simp: healthcheck_def and_then_def give_def split: sum.splits option.splits prod.splits)
  then show ?thesis using True run by (cases p) (simp_all add: main_program_def)
next
  case False
  have handler: "Handler E K cfg sr \<noteq> None" if "fst (run_state (NewServer E open_db cfg) w1) = Inr sr" for cfg sr w1
    using NewServer_result [OF that] NewServiceD by (fastforce simp: Handler_def)
  show ?thesis
  proof (cases "run_state (Load E) w")
    case (Pair loaded w1)
    show ?thesis
    proof (cases loaded)
      case (Inl e)
      then show ?thesis using False Pair by (auto simp: main_program_def start_program_def and_then_def effect_def give_def)
    next
      case (Inr cfg)
      obtain app w2 where new: "run_state (NewServer E open_db cfg) w1 = (app, w2)" by fastforce
      show ?thesis
      proof (cases app)
        case (Inl e)
        then show ?thesis using False Pair \<open>loaded = Inr cfg\<close> new
          by (auto simp: main_program_def start_program_def and_then_def effect_def give_def)
      next
        case (Inr sr)
        then have "Handler E K cfg sr \<noteq> None" using handler [of cfg w1 sr] new by simp
        then show ?thesis using False Pair \<open>loaded = Inr cfg\<close> new Inr
          by (auto simp: main_program_def start_program_def and_then_def effect_def give_def)
      qed
    qed
  qed
qed

end
