(* ===== verification/Spec2Isabelle.thy ===== *)
theory Spec2Isabelle
  imports System Outage Lasting Mux_Answers Ctl Start
begin

text \<open>
  \<^bold>\<open>Tvpn: a web gateway to internal targets.\<close>

  A user logs in at the application's origin and opens a \<^emph>\<open>context\<close> for a target URL. The gateway gives
  every origin of the target a host name of its own below the proxy domain, a \<^emph>\<open>route\<close>; a one-time ticket
  brings the browser from the application to the route, where a proxy session takes over. A request on a
  route is authorized against the policies of its user, sent to the target straight or through an upstream
  proxy, and the page that comes back is rewritten so that its links are routes again. Programs do the same
  with tokens, through the client library. Administrators keep users, policies, upstream proxies and the
  settings of a directory.

  \<^bold>\<open>How the program is modelled.\<close> A method of the code that acts is a state monad program (\<open>Effects\<close>) over a
  world of three parts: the tables of the database (\<open>Database\<close>, a record with one list of rows per table of
  \<open>internal/database/migrations\<close>), a counter of effects, and the trace of what left the process: name
  lookups, requests, connections, redirects that a handshake follows, frames. What the program does not decide
  is asked of an environment at the current tick: whether a statement fails, the clock, random bytes, the
  resolver, the answers of targets and of the directory, and how much of a body arrives before reading it fails. So no property assumes that two lookups agree or that statements succeed unless it says so.
  A Go error is the left of a sum; an SQL statement is a function of the tables that the constraints of
  the schema may refuse; a transaction leaves nothing when it fails. An HTTP handler maps the reply so far
  and the request to the reply. Third-party packages (\<open>google/uuid\<close>, \<open>go-ldap\<close>, \<open>x/net/idna\<close>,
  \<open>x/net/publicsuffix\<close>, \<open>x/net/html\<close>, \<open>x/crypto/argon2\<close>, \<open>coder/websocket\<close>, the router \<open>go-chi/chi\<close>), the
  JSON decoders and AES-GCM are parameters; where a property needs a fact of one of them it is a hypothesis
  named in \<open>Sample\<close>, which also has an environment in which all of them hold.

  \<^bold>\<open>The standard library.\<close> \<open>Go_Strings\<close>, \<open>Go_Netip\<close> with \<open>Netip_Print\<close> (addresses are machine words; what
  is printed is read back), \<open>Go_Url\<close>, \<open>Go_Base64\<close>, \<open>Go_Http\<close> (headers, cookies, replies) and \<open>Go_Client\<close>
  (\<open>http.Client.Do\<close> with its redirects).

  \<^bold>\<open>The components.\<close>
  \<^item> \<open>Policy\<close>, \<open>Policy_Store\<close>: \<open>internal/policy/policy.go\<close>. Evaluation is the conjunction of the policies;
    the non-public blocks are exact intervals of addresses; a stored rule means what was typed.
  \<^item> \<open>Guard\<close>: \<open>internal/proxy/security.go\<close>. What a target that passed \<open>Resolve\<close> satisfies.
  \<^item> \<open>Proxy_Store\<close>: \<open>internal/proxy/store.go\<close>. Contexts, routes, tickets and proxy sessions; its own writes are
    a step relation, under which tickets are used once and routes keep their identifiers.
  \<^item> \<open>Crypto\<close>, \<open>Upstream\<close>, \<open>Cookies\<close>: \<open>crypto.go\<close>, \<open>upstream.go\<close> and \<open>cookies.go\<close> of \<open>internal/proxy\<close>. Sealed
    values, the upstream proxies and who may use them, the cookie jar of a context.
  \<^item> \<open>Password\<close>, \<open>Auth_Store\<close>, \<open>Directory\<close>, \<open>Auth_Http\<close>: \<open>internal/auth\<close>. Hashes, users, sessions and program
    tokens; directory logins and the first administrator; the login and the middleware. A middleware that
    passes or refuses is the locale \<open>gate\<close>, two in a row \<open>two_gates\<close>.
  \<^item> \<open>Ldap\<close>: \<open>internal/ldapauth/service.go\<close>. The settings, the connection and its protection, the login.
  \<^item> \<open>Admin_Store\<close>, \<open>Admin\<close>: \<open>internal/admin/http.go\<close>. Its statements and transactions, and its handlers.
    Replacing an assignment is the locale \<open>replacing\<close>, interpreted on the five tables it is used for.
  \<^item> \<open>Service\<close>, \<open>Rewrite\<close>, \<open>Forward\<close>, \<open>Egress\<close>, \<open>Gateway\<close>: \<open>internal/proxy/http.go\<close> and \<open>rewrite.go\<close>. Authorizing,
    rewriting, forwarding; what can leave the process; what a request to a proxy host has to show.
  \<^item> \<open>Mux\<close>, \<open>Mux_Answers\<close>, \<open>WebSocket\<close>: \<open>internal/proxy/mux.go\<close> and \<open>websocket.go\<close>. Frames and streams, how they
    are executed and answered, and the relay.
  \<^item> \<open>Httpapi\<close>: \<open>internal/httpapi/httpapi.go\<close>. The error catalogue and the problem replies.
  \<^item> \<open>Config\<close>, \<open>Server\<close>: \<open>internal/config/config.go\<close> and \<open>internal/server/server.go\<close>. What configurations are
    accepted, the parts put together, the routes with their gates and the choice by host.
  \<^item> \<open>Start\<close>: \<open>cmd/tvpn/main.go\<close>. The process: the health check, or configuration and server.
  \<^item> \<open>Sdk\<close>, \<open>Ctl\<close>: \<open>sdk/go/tvpn/client.go\<close> and \<open>cmd/tvpnctl/main.go\<close>. The client library, with its one-shot
    requests and its sessions, and the command built on it.

  \<^bold>\<open>Across components.\<close> \<open>Writes\<close> is the abstract machine of the stored data: one step relation \<open>db_write\<close>,
  with a rule for every statement of the program that changes a table and the checks that precede it.
  \<open>Requests\<close> shows that every handler, up to the handler of the server, is a refinement: it takes such steps
  only. \<open>Integrity\<close> shows what each step keeps: the constraints of the schema and what only the checks of the
  program ensure, such as the form of accounts and the sealing of secrets. \<open>System\<close> states it of every state a
  server reaches from the migrated database, by any sequence of requests with other writers beside them, and
  that a revoked token is refused in all of them. What does not come back while its row stays (a used ticket,
  a revoked token, the identifier of a route) is the locale \<open>sticky_mark\<close> of \<open>Database\<close>. \<open>Lasting\<close> has what
  holds of contexts and routes whatever the whole program writes, deletions included: a closed context is
  gone, and a rewritten link leads to its origin as long as its context is open. \<open>Outage\<close> is the server
  without its database.

  \<^bold>\<open>Recursion and bounds.\<close> The redirects of a multiplexed request are a recursion on the number of hops
  left, eleven as in the code (one request and ten redirects). Loops over strings are structural or have
  the length of what is left as their measure. \<open>http.Client.Do\<close> may redirect without end when the user's check
  allows it, so \<open>follow\<close> is a partial function with \<open>None\<close> for a call that does not return; that
  a one-shot request returns with the usual check is proved. Identifiers of mux frames and their
  lengths are 32-bit words, addresses 32-bit and 128-bit words; times are integers.

  \<^bold>\<open>Not modelled.\<close>
  \<^item> \<open>internal/database/database.go\<close> opens the pool and runs the migrations; the schema they declare is
    \<open>Database\<close>, the opening is an argument of \<open>NewServer\<close>.
  \<^item> Listening, signals and shutting down in \<open>cmd/tvpn/main.go\<close>; \<open>web/embed.go\<close> embeds the application, \<open>scripts/fixture\<close> is a
    target for tests. The compiled application and the injected script are data.
  \<^item> Time-outs and the limit on the size of a WebSocket message. That reading the body of a response fails is
    modelled where the proxy, the multiplexed requests and the command read a target's body; the client library
    gets the JSON answers of the server whole or not at all, and request bodies arrive whole or not at all.
  \<^item> The order in which the database returns rows without an \<open>ORDER BY\<close>: it is the order of insertion here.
  \<^item> The streams of a multiplexed connection run one after another. What other goroutines write in between
    is covered by the properties that hold from any world, or for steps beside the program's own.
  \<^item> The case tables of Unicode: \<open>ToLower\<close> and \<open>EqualFold\<close> map ASCII letters. Cookie jars and time-outs of
    \<open>http.Client\<close>, and the cancellation of a call by its context. The parsing of command line flags. The texts of most error messages, which only reach logs.
\<close>

end
